(* ===== verification/Py_Prelude.thy ===== *)
theory Py_Prelude
  imports Main "HOL-Library.Word" "HOL-Library.List_Lexorder" "HOL-Library.Product_Lexorder"
    "HOL-Library.Sublist"
begin

text \<open>
  Shared vocabulary of the development. A Python \<open>str\<close> is a list of Unicode code
  points (\<open>pystr\<close>), compared lexicographically code point by code point
  (\<open>List_Lexorder\<close>, as Python compares strings) and tuples lexicographically
  (\<open>Product_Lexorder\<close>). A byte of a \<open>bytes\<close> object or of the stdin stream is an
  \<open>8 word\<close>. ASCII literals of the scripts are written \<open>py ''...''\<close>.
  The collections \<open>str_eval\<close> gathers the rules that evaluate the string model on
  literals, \<open>model_simps\<close> the characteristic equations that component proofs share.
\<close>

named_theorems str_eval "rules that evaluate the Python string model on literals"
named_theorems model_simps "characteristic equations shared by the component proofs"

type_synonym codepoint = nat
type_synonym pystr = "codepoint list"
type_synonym byte = "8 word"

definition py :: "string \<Rightarrow> pystr" where
  "py s = map of_char s"

text \<open>
  The Python exceptions the modelled code can raise, as values: \<open>ValueError\<close>
  with its message (\<open>int()\<close> on a malformed literal), the codec errors of
  \<open>bytes.decode\<close> and \<open>str.encode\<close> under the strict handler, \<open>OverflowError\<close>
  (a read size beyond \<open>Py_ssize_t\<close>), and the errors \<open>json.loads\<close> raises.
\<close>

datatype py_exc =
    ValueError pystr
  | UnicodeDecodeError
  | UnicodeEncodeError
  | OverflowError
  | JSONDecodeError pystr
  | RecursionError pystr
  | StopIteration nat

text \<open>
  The part of CPython's Unicode database the modelled code consults, as an interface:
  whether a non-ASCII code point is printable (\<open>Py_UNICODE_ISPRINTABLE\<close>, used by
  \<open>repr\<close>) and its decimal digit value (\<open>Py_UNICODE_TODECIMAL\<close>, used by
  \<open>int()\<close>). ASCII characters never reach it. Theorems are stated for every
  database.
\<close>

record unicode_db =
  printable :: "codepoint \<Rightarrow> bool"
  decimal :: "codepoint \<Rightarrow> nat option"

text \<open>Code points used as separators by the scripts and by \<open>urllib.parse\<close>.\<close>

abbreviation (input) cp_space :: codepoint where "cp_space \<equiv> 32"
abbreviation (input) cp_percent :: codepoint where "cp_percent \<equiv> 37"
abbreviation (input) cp_amp :: codepoint where "cp_amp \<equiv> 38"
abbreviation (input) cp_plus :: codepoint where "cp_plus \<equiv> 43"
abbreviation (input) cp_equals :: codepoint where "cp_equals \<equiv> 61"


text \<open>Threading an exception through a computation that may not return.\<close>

definition jbind :: "(py_exc + 'a) option \<Rightarrow> ('a \<Rightarrow> (py_exc + 'b) option) \<Rightarrow> (py_exc + 'b) option" where
  "jbind m f = Option.bind m (\<lambda>r. case r of Inl e \<Rightarrow> Some (Inl e) | Inr a \<Rightarrow> f a)"

lemma py_Nil [simp, str_eval]: "py [] = []"
  and py_Cons [simp, str_eval]: "py (c # s) = of_char c # py s"
  and py_append [simp]: "py (s @ t) = py s @ py t"
  by (simp_all add: py_def)

lemma length_py [simp]: "length (py s) = length s"
  by (simp add: py_def)

lemma py_ascii_bound: "x \<in> set (py s) \<Longrightarrow> x < 256"
  by (auto simp: py_def of_char_def)

subsection \<open>Generic list facts shared by the components\<close>

lemma concat_map_singleton [simp]: "concat (map (\<lambda>x. [f x]) xs) = map f xs"
  by (induction xs) auto

lemma takeWhile_dropWhile_length:
  "length (dropWhile P xs) + length (takeWhile P xs) = length xs"
  by (induction xs) auto

lemma dropWhile_shorter:
  "P x \<Longrightarrow> length (dropWhile P (x # xs)) \<le> length xs"
  by (simp add: length_dropWhile_le)

lemma sorted_distinct_map_fst_sort:
  "distinct (map fst xs) \<Longrightarrow> distinct (map fst (sort (xs :: ('a::linorder \<times> 'b::linorder) list)))"
  by (simp add: distinct_map)


lemma jbind_mono [partial_function_mono]:
  assumes mf: "mono_option B" and mg: "\<And>y. mono_option (\<lambda>f. C y f)"
  shows "mono_option (\<lambda>f. jbind (B f) (\<lambda>y. C y f))"
  unfolding jbind_def
proof (rule bind_mono [OF mf])
  fix r
  show "mono_option (\<lambda>f. case r of Inl e \<Rightarrow> Some (Inl e) | Inr a \<Rightarrow> C a f)"
    by (cases r) (simp_all add: mg option.const_mono)
qed


lemma jbind_simps [simp]:
  "jbind None f = None" "jbind (Some (Inl e)) f = Some (Inl e)" "jbind (Some (Inr a)) f = f a"
  by (simp_all add: jbind_def)

lemma jbind_weak_cong: "m = m' \<Longrightarrow> jbind m f = jbind m' f"
  by simp

lemma jbind_Inl:
  assumes "jbind m g = Some (Inl e)"
  shows "m = Some (Inl e) \<or> (\<exists>a. m = Some (Inr a) \<and> g a = Some (Inl e))"
proof (cases m)
  case (Some r)
  with assms show ?thesis by (cases r) (simp_all add: jbind_def)
qed (use assms in \<open>simp add: jbind_def\<close>)

end
