(* ===== verification/Py_Str.thy ===== *)
theory Py_Str
  imports Py_Prelude
begin

text \<open>
  The operations on Python \<open>str\<close> that the scripts and \<open>urllib.parse\<close> apply:
  \<open>s.split(c)\<close> and \<open>s.split(c, 1)\<close> for a one-character separator, \<open>sep.join(xs)\<close>,
  \<open>s.replace(a, b)\<close> for single characters, \<open>s.startswith(tuple)\<close> and the substring
  test \<open>needle in s\<close>. Each follows CPython's definition: \<open>split\<close> keeps empty
  fields, \<open>split(c, 1)\<close> cuts at the first occurrence only, \<open>startswith\<close> with a
  tuple tries the prefixes in order. The lemmas give the round trip of \<open>split\<close>
  and \<open>join\<close> and the equivalence of the substring scan with \<open>sublist\<close>.
\<close>

fun split_char :: "codepoint \<Rightarrow> pystr \<Rightarrow> pystr list" where
  "split_char c [] = [[]]"
| "split_char c (x # xs) =
     (if x = c then [] # split_char c xs
      else (let r = split_char c xs in (x # hd r) # tl r))"

definition split1_char :: "codepoint \<Rightarrow> pystr \<Rightarrow> pystr list" where
  "split1_char c s =
     (if c \<in> set s then [takeWhile (\<lambda>x. x \<noteq> c) s, tl (dropWhile (\<lambda>x. x \<noteq> c) s)]
      else [s])"

fun join :: "pystr \<Rightarrow> pystr list \<Rightarrow> pystr" where
  "join sep [] = []"
| "join sep [x] = x"
| "join sep (x # y # xs) = x @ sep @ join sep (y # xs)"

definition replace_char :: "codepoint \<Rightarrow> codepoint \<Rightarrow> pystr \<Rightarrow> pystr" where
  "replace_char a b s = map (\<lambda>x. if x = a then b else x) s"

fun startswith_any :: "pystr \<Rightarrow> pystr list \<Rightarrow> bool" where
  "startswith_any s [] = False"
| "startswith_any s (p # ps) = (prefix p s \<or> startswith_any s ps)"

fun contains :: "pystr \<Rightarrow> pystr \<Rightarrow> bool" where
  "contains n [] = (n = [])"
| "contains n (x # xs) = (prefix n (x # xs) \<or> contains n xs)"

subsection \<open>split and join\<close>

lemma split_char_not_Nil [simp]: "split_char c s \<noteq> []"
  by (induction s) (auto simp: Let_def)

lemma split_char_Cons_other:
  "x \<noteq> c \<Longrightarrow> split_char c (x # xs) = (x # hd (split_char c xs)) # tl (split_char c xs)"
  by (simp add: Let_def)

lemma length_split_char: "length (split_char c s) = Suc (count_list s c)"
  by (induction s) (auto simp: Let_def)

lemma split_char_pieces: "w \<in> set (split_char c s) \<Longrightarrow> c \<notin> set w"
proof (induction s arbitrary: w)
  case Nil
  then show ?case by simp
next
  case (Cons x xs)
  show ?case
  proof (cases "x = c")
    case True
    with Cons show ?thesis by auto
  next
    case False
    obtain r rs where r: "split_char c xs = r # rs"
      by (cases "split_char c xs") auto
    with Cons.prems False have "w = x # r \<or> w \<in> set rs" by simp
    with Cons.IH r False show ?thesis by auto
  qed
qed

lemma join_split_char: "join [c] (split_char c s) = s"
proof (induction s)
  case Nil
  then show ?case by simp
next
  case (Cons x xs)
  obtain r rs where r: "split_char c xs = r # rs"
    by (cases "split_char c xs") auto
  show ?case
  proof (cases "x = c")
    case True
    with Cons r show ?thesis by simp
  next
    case False
    with Cons r show ?thesis by (cases rs) auto
  qed
qed

lemma split_char_append_sep:
  "c \<notin> set w \<Longrightarrow> split_char c (w @ c # s) = w # split_char c s"
  by (induction w) auto

lemma split_char_notin: "c \<notin> set w \<Longrightarrow> split_char c w = [w]"
  by (induction w) auto

lemma split_char_snoc_sep:
  "c \<notin> set f \<Longrightarrow> split_char c (w @ c # f) = split_char c w @ [f]"
proof (induction w)
  case Nil
  then show ?case by (simp add: split_char_notin)
next
  case (Cons x w)
  obtain a r where "split_char c w = a # r" by (cases "split_char c w") auto
  with Cons show ?case by (simp add: Let_def)
qed

lemma split_char_join:
  "ws \<noteq> [] \<Longrightarrow> (\<And>w. w \<in> set ws \<Longrightarrow> c \<notin> set w) \<Longrightarrow> split_char c (join [c] ws) = ws"
proof (induction "[c]" ws rule: join.induct)
  case (2 x)
  then show ?case by (simp add: split_char_notin)
next
  case (3 x y xs)
  then show ?case by (simp add: split_char_append_sep)
qed simp

lemma join_Cons_concat: "join [c] (x # xs) = x @ concat (map (\<lambda>i. c # i) xs)"
  by (induction "[c]" "x # xs" arbitrary: x xs rule: join.induct) auto

lemma set_join_subset: "set (join sep ws) \<subseteq> set sep \<union> \<Union> (set ` set ws)"
  by (induction sep ws rule: join.induct) auto

subsection \<open>split with at most one cut\<close>

lemma split1_char_notin [simp]: "c \<notin> set s \<Longrightarrow> split1_char c s = [s]"
  by (simp add: split1_char_def)

lemma split1_char_cut:
  "c \<notin> set a \<Longrightarrow> split1_char c (a @ c # b) = [a, b]"
  by (induction a) (auto simp: split1_char_def)

lemma split1_char_cases:
  obtains "c \<notin> set s" "split1_char c s = [s]"
  | a b where "s = a @ c # b" "c \<notin> set a" "split1_char c s = [a, b]"
proof (cases "c \<in> set s")
  case True
  then obtain a b where "s = a @ c # b" "c \<notin> set a"
    by (metis split_list_first)
  with that(2) show ?thesis by (simp add: split1_char_cut)
next
  case False
  with that(1) show ?thesis by simp
qed

subsection \<open>replace, startswith, substring test\<close>

lemma replace_char_id: "a \<notin> set s \<Longrightarrow> replace_char a b s = s"
  by (induction s) (auto simp: replace_char_def)

lemma replace_char_append [simp]:
  "replace_char a b (s @ t) = replace_char a b s @ replace_char a b t"
  by (simp add: replace_char_def)

lemma startswith_any_iff: "startswith_any s ps \<longleftrightarrow> (\<exists>p \<in> set ps. prefix p s)"
  by (induction ps) auto

lemma contains_iff_sublist: "contains n h \<longleftrightarrow> sublist n h"
proof (induction h)
  case Nil
  then show ?case by simp
next
  case (Cons x xs)
  then show ?case by (auto simp: sublist_Cons_right)
qed

end
