(* ===== verification/Py_Repr.thy ===== *)
theory Py_Repr
  imports Py_Str
begin

text \<open>
  \<open>repr()\<close> and \<open>str()\<close> of the values the scripts print, and \<open>print()\<close>.
  \<open>repr_str\<close> follows \<open>unicode_repr\<close> of \<open>Objects/unicodeobject.c\<close>: the quote is
  \<open>'\<close> unless the string holds a \<open>'\<close> and no \<open>"\<close>; the quote and the backslash are
  escaped, tab, newline and carriage return become \<open>\t \n \r\<close>, other ASCII controls
  and DEL become \<open>\xhh\<close>, printable ASCII is copied, and a non-ASCII character is
  copied when the database calls it printable and otherwise written \<open>\xhh\<close>,
  \<open>\uhhhh\<close> or \<open>\Uhhhhhhhh\<close> with lower-case hex digits. A list prints as
  \<open>[a, b]\<close> and a dict as \<open>{k: v, ...}\<close> of the reprs of their items
  (\<open>list_repr\<close>, \<open>dict_repr\<close> of \<open>Objects/listobject.c\<close>, \<open>dictobject.c\<close>).
  \<open>print(a, b)\<close> writes \<open>str(a) + ' ' + str(b)\<close> and a newline; the model keeps the
  printed lines and joins them with newlines in \<open>stdout_text\<close>.
\<close>

definition hex_lower :: "nat \<Rightarrow> codepoint" where
  "hex_lower d = (if d < 10 then 48 + d else 87 + d)"

fun hex_width :: "nat \<Rightarrow> nat \<Rightarrow> pystr" where
  "hex_width 0 n = []"
| "hex_width (Suc w) n = hex_width w (n div 16) @ [hex_lower (n mod 16)]"

definition repr_char :: "unicode_db \<Rightarrow> codepoint \<Rightarrow> codepoint \<Rightarrow> pystr" where
  "repr_char db q ch =
     (if ch = q \<or> ch = 92 then [92, ch]
      else if ch = 9 then [92, 116]
      else if ch = 10 then [92, 110]
      else if ch = 13 then [92, 114]
      else if ch < 32 \<or> ch = 127 then 92 # 120 # hex_width 2 ch
      else if ch < 127 then [ch]
      else if printable db ch then [ch]
      else if ch \<le> 0xFF then 92 # 120 # hex_width 2 ch
      else if ch \<le> 0xFFFF then 92 # 117 # hex_width 4 ch
      else 92 # 85 # hex_width 8 ch)"

definition repr_quote :: "pystr \<Rightarrow> codepoint" where
  "repr_quote s = (if 39 \<in> set s \<and> 34 \<notin> set s then 34 else 39)"

definition repr_str :: "unicode_db \<Rightarrow> pystr \<Rightarrow> pystr" where
  "repr_str db s = (let q = repr_quote s in q # concat (map (repr_char db q) s) @ [q])"

definition repr_list :: "unicode_db \<Rightarrow> pystr list \<Rightarrow> pystr" where
  "repr_list db xs = py ''['' @ join (py '', '') (map (repr_str db) xs) @ py '']''"

definition repr_dict :: "unicode_db \<Rightarrow> (pystr \<times> pystr list) list \<Rightarrow> pystr" where
  "repr_dict db d =
     py ''{'' @ join (py '', '') (map (\<lambda>(k, vs). repr_str db k @ py '': '' @ repr_list db vs) d)
       @ py ''}''"

definition print_line :: "pystr list \<Rightarrow> pystr" where
  "print_line args = join [cp_space] args"

definition stdout_text :: "pystr list \<Rightarrow> pystr" where
  "stdout_text ls = concat (map (\<lambda>l. l @ [10]) ls)"

definition plain_char :: "codepoint \<Rightarrow> bool" where
  "plain_char c \<longleftrightarrow> 32 \<le> c \<and> c < 127 \<and> c \<noteq> 39 \<and> c \<noteq> 92"

lemmas repr_eval = repr_str_def repr_quote_def repr_char_def repr_list_def repr_dict_def
  print_line_def

subsection \<open>Plain strings are quoted as they are\<close>

lemma repr_char_plain: "plain_char c \<Longrightarrow> c \<noteq> q \<Longrightarrow> repr_char db q c = [c]"
  by (simp add: repr_char_def plain_char_def)

lemma repr_str_plain:
  assumes "list_all plain_char s"
  shows "repr_str db s = 39 # s @ [39]"
proof -
  have q: "repr_quote s = 39"
    using assms by (auto simp: repr_quote_def list_all_iff plain_char_def)
  have "concat (map (repr_char db 39) s) = s"
    using assms by (induction s) (auto simp: repr_char_plain plain_char_def)
  with q show ?thesis by (simp add: repr_str_def)
qed

lemma stdout_text_append [simp]: "stdout_text (xs @ ys) = stdout_text xs @ stdout_text ys"
  by (simp add: stdout_text_def)

end
