(* ===== verification/Utf8.thy ===== *)
theory Utf8
  imports Py_Prelude
begin

text \<open>
  CPython's UTF-8 codec (\<open>Objects/stringlib/codecs.h\<close>, \<open>unicode_decode_utf8\<close>), on
  which \<open>bytes.decode('utf-8', errors)\<close>, \<open>urllib.parse.unquote\<close> and the text
  layer of \<open>sys.stdin\<close> rest. The decoder reads one unit at a time: a well-formed
  sequence of the Unicode Standard's table 3-7 gives a scalar value; otherwise the
  maximal ill-formed subpart (the lead byte and the continuation bytes that were
  still acceptable) is one error unit, handed to the error handler; an acceptable
  but incomplete sequence at the end of the input is a truncated unit, held back by
  the incremental decoder and an error at the end of the stream.
  \<open>strict\<close> raises \<open>UnicodeDecodeError\<close>, \<open>replace\<close> writes one U+FFFD per error
  unit, \<open>surrogateescape\<close> one lone surrogate U+DC00+b per byte of the unit.
  The encoder writes the shortest form and raises \<open>UnicodeEncodeError\<close> on a
  surrogate. The lemmas: decoding consumes input, \<open>replace\<close> never fails and yields
  scalar values, and encoding then decoding gives the string back.
\<close>

datatype err_handler = Strict | Replace | SurrogateEscape

datatype utf8_piece = Scalar codepoint | Bad "byte list" | Trunc "byte list"

definition is_scalar :: "codepoint \<Rightarrow> bool" where
  "is_scalar c \<longleftrightarrow> c < 0xD800 \<or> (0xE000 \<le> c \<and> c < 0x110000)"

text \<open>Acceptable ranges of the continuation bytes after a lead byte (table 3-7);
  the empty list for a byte that cannot start a sequence.\<close>

definition cont_ranges :: "nat \<Rightarrow> (nat \<times> nat) list" where
  "cont_ranges b0 =
     (if 0xC2 \<le> b0 \<and> b0 \<le> 0xDF then [(0x80, 0xBF)]
      else if b0 = 0xE0 then [(0xA0, 0xBF), (0x80, 0xBF)]
      else if b0 = 0xED then [(0x80, 0x9F), (0x80, 0xBF)]
      else if 0xE1 \<le> b0 \<and> b0 \<le> 0xEF then [(0x80, 0xBF), (0x80, 0xBF)]
      else if b0 = 0xF0 then [(0x90, 0xBF), (0x80, 0xBF), (0x80, 0xBF)]
      else if b0 = 0xF4 then [(0x80, 0x8F), (0x80, 0xBF), (0x80, 0xBF)]
      else if 0xF1 \<le> b0 \<and> b0 \<le> 0xF3 then [(0x80, 0xBF), (0x80, 0xBF), (0x80, 0xBF)]
      else [])"

text \<open>How many of the next bytes are acceptable continuation bytes.\<close>

fun conts :: "(nat \<times> nat) list \<Rightarrow> byte list \<Rightarrow> nat" where
  "conts [] bs = 0"
| "conts r [] = 0"
| "conts ((lo, hi) # rs) (b # bs) =
     (if lo \<le> unat b \<and> unat b \<le> hi then Suc (conts rs bs) else 0)"

definition lead_bits :: "nat \<Rightarrow> nat" where
  "lead_bits b0 = (if b0 < 0xE0 then b0 - 0xC0 else if b0 < 0xF0 then b0 - 0xE0 else b0 - 0xF0)"

definition cp_value :: "nat \<Rightarrow> byte list \<Rightarrow> codepoint" where
  "cp_value b0 cs = foldl (\<lambda>acc b. acc * 64 + (unat b - 0x80)) (lead_bits b0) cs"

definition utf8_next :: "byte \<Rightarrow> byte list \<Rightarrow> utf8_piece \<times> byte list" where
  "utf8_next b bs =
     (let b0 = unat b in
      if b0 < 0x80 then (Scalar b0, bs)
      else
        (let rs = cont_ranges b0; k = conts rs bs in
         if rs = [] then (Bad [b], bs)
         else if k = length rs then (Scalar (cp_value b0 (take k bs)), drop k bs)
         else if k = length bs then (Trunc (b # bs), [])
         else (Bad (b # take k bs), drop k bs)))"

function utf8_pieces :: "byte list \<Rightarrow> utf8_piece list" where
  "utf8_pieces [] = []"
| "utf8_pieces (b # bs) = (case utf8_next b bs of (p, rest) \<Rightarrow> p # utf8_pieces rest)"
  by pat_completeness auto
termination
proof (relation "measure length")
  fix b bs p rest
  assume "(p, rest) = utf8_next b bs"
  then have "rest = snd (utf8_next b bs)" by (metis snd_conv)
  moreover have "length (snd (utf8_next b bs)) \<le> length bs"
    by (simp add: utf8_next_def Let_def)
  ultimately show "(rest, b # bs) \<in> measure length" by simp
qed simp

definition bad_text :: "err_handler \<Rightarrow> byte list \<Rightarrow> py_exc + pystr" where
  "bad_text h bs =
     (case h of
        Strict \<Rightarrow> Inl UnicodeDecodeError
      | Replace \<Rightarrow> Inr [0xFFFD]
      | SurrogateEscape \<Rightarrow> Inr (map (\<lambda>b. 0xDC00 + unat b) bs))"

fun piece_text :: "err_handler \<Rightarrow> utf8_piece \<Rightarrow> py_exc + pystr" where
  "piece_text h (Scalar c) = Inr [c]"
| "piece_text h (Bad bs) = bad_text h bs"
| "piece_text h (Trunc bs) = bad_text h bs"

fun decode_pieces :: "err_handler \<Rightarrow> utf8_piece list \<Rightarrow> py_exc + pystr" where
  "decode_pieces h [] = Inr []"
| "decode_pieces h (p # ps) =
     (case piece_text h p of
        Inl e \<Rightarrow> Inl e
      | Inr t \<Rightarrow> (case decode_pieces h ps of Inl e \<Rightarrow> Inl e | Inr s \<Rightarrow> Inr (t @ s)))"

text \<open>\<open>bs.decode('utf-8', h)\<close>: the whole input, a truncated tail is an error unit.\<close>

definition utf8_decode :: "err_handler \<Rightarrow> byte list \<Rightarrow> py_exc + pystr" where
  "utf8_decode h bs = decode_pieces h (utf8_pieces bs)"

fun is_trunc :: "utf8_piece \<Rightarrow> bool" where
  "is_trunc (Trunc _) = True"
| "is_trunc _ = False"

text \<open>The incremental decoder (\<open>final=False\<close>): a truncated tail is kept for later.\<close>

definition utf8_decode_partial :: "err_handler \<Rightarrow> byte list \<Rightarrow> py_exc + pystr" where
  "utf8_decode_partial h bs =
     (let ps = utf8_pieces bs in
      decode_pieces h (if ps \<noteq> [] \<and> is_trunc (last ps) then butlast ps else ps))"

definition utf8_encode_cp :: "codepoint \<Rightarrow> byte list" where
  "utf8_encode_cp c =
     (if c < 0x80 then [of_nat c]
      else if c < 0x800 then [of_nat (0xC0 + c div 64), of_nat (0x80 + c mod 64)]
      else if c < 0x10000 then
        [of_nat (0xE0 + c div 4096), of_nat (0x80 + c div 64 mod 64), of_nat (0x80 + c mod 64)]
      else
        [of_nat (0xF0 + c div 262144), of_nat (0x80 + c div 4096 mod 64),
         of_nat (0x80 + c div 64 mod 64), of_nat (0x80 + c mod 64)])"

text \<open>\<open>s.encode('utf-8')\<close> under the strict handler.\<close>

definition utf8_encode :: "pystr \<Rightarrow> py_exc + byte list" where
  "utf8_encode s =
     (if list_all is_scalar s then Inr (concat (map utf8_encode_cp s)) else Inl UnicodeEncodeError)"


text \<open>\<open>bs.decode('utf-8', 'replace')\<close> as a total function.\<close>

fun replace_text :: "utf8_piece \<Rightarrow> pystr" where
  "replace_text (Scalar c) = [c]"
| "replace_text (Bad _) = [0xFFFD]"
| "replace_text (Trunc _) = [0xFFFD]"

definition utf8_decode_replace :: "byte list \<Rightarrow> pystr" where
  "utf8_decode_replace bs = concat (map replace_text (utf8_pieces bs))"

subsection \<open>Decoding consumes its input\<close>

lemma conts_le: "conts rs bs \<le> length bs"
  by (induction rs bs rule: conts.induct) auto

lemma utf8_next_shorter: "length (snd (utf8_next b bs)) \<le> length bs"
  by (simp add: utf8_next_def Let_def)

subsection \<open>Well-formed sequences decode to their scalar value\<close>

lemma unat_byte: "n < 256 \<Longrightarrow> unat (of_nat n :: byte) = n"
  by (simp add: unat_of_nat)

lemma utf8_next_two:
  assumes "0xC2 \<le> x" "x \<le> 0xDF" "0x80 \<le> y" "y \<le> 0xBF"
  shows "utf8_next (of_nat x) (of_nat y # rest) = (Scalar ((x - 0xC0) * 64 + (y - 0x80)), rest)"
proof -
  have ux: "unat (of_nat x :: byte) = x" and uy: "unat (of_nat y :: byte) = y"
    using assms by (simp_all add: unat_byte)
  show ?thesis
    using assms by (simp add: utf8_next_def cont_ranges_def Let_def cp_value_def lead_bits_def ux uy)
qed

lemma utf8_next_three:
  assumes "0xE0 \<le> x" "x \<le> 0xEF"
    "(if x = 0xE0 then 0xA0 else 0x80) \<le> y" "y \<le> (if x = 0xED then 0x9F else 0xBF)"
    "0x80 \<le> z" "z \<le> 0xBF"
  shows "utf8_next (of_nat x) (of_nat y # of_nat z # rest) =
    (Scalar (((x - 0xE0) * 64 + (y - 0x80)) * 64 + (z - 0x80)), rest)"
proof -
  have ux: "unat (of_nat x :: byte) = x" and uy: "unat (of_nat y :: byte) = y"
    and uz: "unat (of_nat z :: byte) = z"
    using assms by (simp_all add: unat_byte split: if_splits)
  have r: "cont_ranges x = [(if x = 0xE0 then 0xA0 else 0x80, if x = 0xED then 0x9F else 0xBF), (0x80, 0xBF)]"
    using assms by (auto simp: cont_ranges_def)
  show ?thesis
    using assms by (simp add: utf8_next_def r Let_def cp_value_def lead_bits_def ux uy uz)
qed

lemma utf8_next_four:
  assumes "0xF0 \<le> x" "x \<le> 0xF4"
    "(if x = 0xF0 then 0x90 else 0x80) \<le> y" "y \<le> (if x = 0xF4 then 0x8F else 0xBF)"
    "0x80 \<le> z" "z \<le> 0xBF" "0x80 \<le> w" "w \<le> 0xBF"
  shows "utf8_next (of_nat x) (of_nat y # of_nat z # of_nat w # rest) =
    (Scalar ((((x - 0xF0) * 64 + (y - 0x80)) * 64 + (z - 0x80)) * 64 + (w - 0x80)), rest)"
proof -
  have ux: "unat (of_nat x :: byte) = x" and uy: "unat (of_nat y :: byte) = y"
    and uz: "unat (of_nat z :: byte) = z" and uw: "unat (of_nat w :: byte) = w"
    using assms by (simp_all add: unat_byte split: if_splits)
  have r: "cont_ranges x = [(if x = 0xF0 then 0x90 else 0x80, if x = 0xF4 then 0x8F else 0xBF),
      (0x80, 0xBF), (0x80, 0xBF)]"
    using assms by (auto simp: cont_ranges_def)
  show ?thesis
    using assms by (simp add: utf8_next_def r Let_def cp_value_def lead_bits_def ux uy uz uw)
qed
lemma surrogate_block_bound:
  assumes "c div 4096 = 13" "is_scalar c"
  shows "c div 64 mod 64 \<le> 31"
proof -
  have m: "c mod 4096 = 64 * (c div 64 mod 64) + c mod 64"
    using mod_mult2_eq [of c 64 64] by simp
  have d: "c = 4096 * (c div 4096) + c mod 4096" by simp
  have "c mod 4096 < 4096" by simp
  with assms(1) d have "c < 0xE000" by linarith
  with assms(2) have "c < 0xD800" by (simp add: is_scalar_def)
  with assms(1) d m show ?thesis by linarith
qed

lemma cp_digits3: "c = 4096 * (c div 4096) + 64 * (c div 64 mod 64) + c mod (64::nat)"
proof -
  have "c mod 4096 = 64 * (c div 64 mod 64) + c mod 64"
    using mod_mult2_eq [of c 64 64] by simp
  moreover have "c = 4096 * (c div 4096) + c mod 4096" by simp
  ultimately show ?thesis by linarith
qed

lemma cp_digits4:
  "c = 262144 * (c div 262144) + 4096 * (c div 4096 mod 64) + 64 * (c div 64 mod 64) + c mod (64::nat)"
proof -
  have "c mod 262144 = 4096 * (c div 4096 mod 64) + c mod 4096"
    using mod_mult2_eq [of c 4096 64] by simp
  moreover have "c mod 4096 = 64 * (c div 64 mod 64) + c mod 64"
    using mod_mult2_eq [of c 64 64] by simp
  moreover have "c = 262144 * (c div 262144) + c mod 262144" by simp
  ultimately show ?thesis by linarith
qed

lemma last_plane_bound:
  assumes "c div 262144 = 4" "c < (0x110000::nat)"
  shows "c div 4096 mod 64 \<le> 15"
proof -
  have "c mod 262144 = 4096 * (c div 4096 mod 64) + c mod 4096"
    using mod_mult2_eq [of c 4096 64] by simp
  moreover have "c = 262144 * (c div 262144) + c mod 262144" by simp
  ultimately show ?thesis using assms by linarith
qed

lemma utf8_pieces_encode_cp:
  assumes "is_scalar c"
  shows "utf8_pieces (utf8_encode_cp c @ rest) = Scalar c # utf8_pieces rest"
proof -
  have nxt: "utf8_next (hd (utf8_encode_cp c)) (tl (utf8_encode_cp c) @ rest) = (Scalar c, rest)"
  proof (cases "c < 0x80")
    case True
    then have "unat (of_nat c :: byte) = c" by (simp add: unat_byte)
    with True show ?thesis by (simp add: utf8_encode_cp_def utf8_next_def)
  next
    case c1: False
    show ?thesis
    proof (cases "c < 0x800")
      case True
      have "utf8_next (of_nat (0xC0 + c div 64)) (of_nat (0x80 + c mod 64) # rest) =
        (Scalar ((0xC0 + c div 64 - 0xC0) * 64 + (0x80 + c mod 64 - 0x80)), rest)"
        by (rule utf8_next_two) (use c1 True in auto)
      with c1 True show ?thesis by (simp add: utf8_encode_cp_def)
    next
      case c2: False
      show ?thesis
      proof (cases "c < 0x10000")
        case True
        have y: "(if 0xE0 + c div 4096 = (0xE0::nat) then 0xA0 else 0x80) \<le> 0x80 + c div 64 mod 64"
          using c2 by auto
        have y': "0x80 + c div 64 mod 64 \<le> (if 0xE0 + c div 4096 = (0xED::nat) then 0x9F else 0xBF)"
          using surrogate_block_bound [OF _ assms] by auto
        have v: "((0xE0 + c div 4096 - 0xE0) * 64 + (0x80 + c div 64 mod 64 - 0x80)) * 64
            + (0x80 + c mod 64 - 0x80) = c"
          using cp_digits3 [of c] by simp
        have "utf8_next (of_nat (0xE0 + c div 4096))
            (of_nat (0x80 + c div 64 mod 64) # of_nat (0x80 + c mod 64) # rest) =
          (Scalar (((0xE0 + c div 4096 - 0xE0) * 64 + (0x80 + c div 64 mod 64 - 0x80)) * 64
            + (0x80 + c mod 64 - 0x80)), rest)"
          by (rule utf8_next_three [OF _ _ y y']) (use True in auto)
        then have "utf8_next (of_nat (0xE0 + c div 4096))
            (of_nat (0x80 + c div 64 mod 64) # of_nat (0x80 + c mod 64) # rest) = (Scalar c, rest)"
          by (simp only: v)
        with c1 c2 True show ?thesis by (simp add: utf8_encode_cp_def)
      next
        case c3: False
        have lt: "c < 0x110000" using assms by (auto simp: is_scalar_def)
        have y: "(if 0xF0 + c div 262144 = (0xF0::nat) then 0x90 else 0x80) \<le> 0x80 + c div 4096 mod 64"
          using c3 by auto
        have y': "0x80 + c div 4096 mod 64 \<le> (if 0xF0 + c div 262144 = (0xF4::nat) then 0x8F else 0xBF)"
          using last_plane_bound [OF _ lt] by auto
        have v: "(((0xF0 + c div 262144 - 0xF0) * 64 + (0x80 + c div 4096 mod 64 - 0x80)) * 64
            + (0x80 + c div 64 mod 64 - 0x80)) * 64 + (0x80 + c mod 64 - 0x80) = c"
          using cp_digits4 [of c] by simp
        have "utf8_next (of_nat (0xF0 + c div 262144))
            (of_nat (0x80 + c div 4096 mod 64) # of_nat (0x80 + c div 64 mod 64)
              # of_nat (0x80 + c mod 64) # rest) =
          (Scalar ((((0xF0 + c div 262144 - 0xF0) * 64 + (0x80 + c div 4096 mod 64 - 0x80)) * 64
            + (0x80 + c div 64 mod 64 - 0x80)) * 64 + (0x80 + c mod 64 - 0x80)), rest)"
          by (rule utf8_next_four [OF _ _ y y']) (use lt in auto)
        then have "utf8_next (of_nat (0xF0 + c div 262144))
            (of_nat (0x80 + c div 4096 mod 64) # of_nat (0x80 + c div 64 mod 64)
              # of_nat (0x80 + c mod 64) # rest) = (Scalar c, rest)"
          by (simp only: v)
        with c1 c2 c3 show ?thesis by (simp add: utf8_encode_cp_def)
      qed
    qed
  qed
  obtain b bs where enc: "utf8_encode_cp c = b # bs"
    by (cases "utf8_encode_cp c") (auto simp: utf8_encode_cp_def split: if_splits)
  with nxt show ?thesis by simp
qed

subsection \<open>Round trip: encoding then decoding gives the string back\<close>

lemma utf8_pieces_encode:
  "list_all is_scalar s \<Longrightarrow> utf8_pieces (concat (map utf8_encode_cp s)) = map Scalar s"
  by (induction s) (simp_all add: utf8_pieces_encode_cp)

lemma decode_pieces_Scalar [simp]: "decode_pieces h (map Scalar s) = Inr s"
  by (induction s) simp_all

lemma utf8_decode_encode:
  assumes "utf8_encode s = Inr bs"
  shows "utf8_decode h bs = Inr s"
proof -
  from assms have "list_all is_scalar s" and "bs = concat (map utf8_encode_cp s)"
    by (simp_all add: utf8_encode_def split: if_splits)
  then show ?thesis by (simp add: utf8_decode_def utf8_pieces_encode)
qed

lemma utf8_encode_ascii:
  assumes "list_all (\<lambda>c. c < 0x80) s"
  shows "utf8_encode s = Inr (map of_nat s)"
proof -
  have "list_all is_scalar s"
    using assms by (auto simp: list_all_iff is_scalar_def)
  moreover have "concat (map utf8_encode_cp s) = map of_nat s"
    using assms by (induction s) (auto simp: utf8_encode_cp_def)
  ultimately show ?thesis by (simp add: utf8_encode_def)
qed


subsection \<open>Only the strict handler raises\<close>

lemma decode_pieces_error: "decode_pieces h ps = Inl e \<Longrightarrow> h = Strict \<and> e = UnicodeDecodeError"
proof (induction ps)
  case (Cons p ps)
  then show ?case
    by (cases p; cases h) (auto simp: bad_text_def split: sum.splits)
qed simp

subsection \<open>The replace handler never fails\<close>

lemma decode_pieces_Replace: "decode_pieces Replace ps = Inr (concat (map replace_text ps))"
proof (induction ps)
  case (Cons p ps)
  then show ?case by (cases p) (simp_all add: bad_text_def)
qed simp

lemma utf8_decode_Replace: "utf8_decode Replace bs = Inr (utf8_decode_replace bs)"
  by (simp add: utf8_decode_def utf8_decode_replace_def decode_pieces_Replace)

lemma utf8_decode_replace_ascii:
  "list_all (\<lambda>c. c < 0x80) s \<Longrightarrow> utf8_decode_replace (map of_nat s) = s"
  using utf8_decode_encode [OF utf8_encode_ascii, of s Replace]
  by (simp add: utf8_decode_Replace)

lemma utf8_decode_replace_encode:
  "utf8_encode s = Inr bs \<Longrightarrow> utf8_decode_replace bs = s"
  using utf8_decode_encode [of s bs Replace] by (simp add: utf8_decode_Replace)


subsection \<open>Properties of the codec\<close>

lemma length_utf8_pieces: "length (utf8_pieces bs) \<le> length bs"
proof (induction bs rule: utf8_pieces.induct)
  case (2 b bs)
  obtain p rest where n: "utf8_next b bs = (p, rest)" by force
  have "length rest \<le> length bs" using utf8_next_shorter [of b bs] n by simp
  with 2 [OF n [symmetric]] n show ?case by simp
qed simp

lemma length_utf8_encode_cp: "Suc 0 \<le> length (utf8_encode_cp c)" "length (utf8_encode_cp c) \<le> 4"
  by (simp_all add: utf8_encode_cp_def)

lemma length_replace_text [simp]: "length (replace_text p) = 1"
  by (cases p) simp_all

lemma length_concat_replace_text: "length (concat (map replace_text ps)) = length ps"
  by (induction ps) simp_all

lemma utf8_decode_partial_encode:
  "list_all is_scalar s \<Longrightarrow> utf8_decode_partial h (concat (map utf8_encode_cp s)) = Inr s"
  by (cases "s = []") (simp_all add: utf8_decode_partial_def utf8_pieces_encode last_map)

text \<open>C17: every string of Unicode scalar values encodes to UTF-8 with one to four bytes per
  character, and both the one-shot decoder (under any error handler) and the incremental
  decoder that sys.stdin uses give the string back.\<close>

theorem utf8_roundtrip:
  assumes "list_all is_scalar s"
  shows "\<exists>bs. utf8_encode s = Inr bs \<and> utf8_decode h bs = Inr s \<and> utf8_decode_partial h bs = Inr s
           \<and> length s \<le> length bs \<and> length bs \<le> 4 * length s"
proof (intro exI conjI)
  let ?bs = "concat (map utf8_encode_cp s)"
  show e: "utf8_encode s = Inr ?bs" using assms by (simp add: utf8_encode_def)
  show "utf8_decode h ?bs = Inr s" using e by (rule utf8_decode_encode)
  show "utf8_decode_partial h ?bs = Inr s" using assms by (rule utf8_decode_partial_encode)
  show "length s \<le> length ?bs"
  proof (induction s)
    case (Cons c s)
    then show ?case using length_utf8_encode_cp(1) [of c] by simp
  qed simp
  show "length ?bs \<le> 4 * length s"
  proof (induction s)
    case (Cons c s)
    then show ?case using length_utf8_encode_cp(2) [of c] by simp
  qed simp
qed

theorem utf8_roundtrip_witness:
  "list_all is_scalar [0x41, 0xE9, 0x20AC, 0x1F600] \<and>
   (\<exists>bs. utf8_encode [0x41, 0xE9, 0x20AC, 0x1F600] = Inr bs
      \<and> utf8_decode Strict bs = Inr [0x41, 0xE9, 0x20AC, 0x1F600] \<and> length bs = 10)"
proof
  show s: "list_all is_scalar [0x41, 0xE9, 0x20AC, 0x1F600]" by (simp add: is_scalar_def)
  from utf8_roundtrip [OF s, of Strict] obtain bs where
    "utf8_encode [0x41, 0xE9, 0x20AC, 0x1F600] = Inr bs" "utf8_decode Strict bs = Inr [0x41, 0xE9, 0x20AC, 0x1F600]"
    by blast
  moreover from this(1) s have "bs = concat (map utf8_encode_cp [0x41, 0xE9, 0x20AC, 0x1F600])"
    by (simp add: utf8_encode_def)
  then have "length bs = 10" by (simp add: utf8_encode_cp_def)
  ultimately show "\<exists>bs. utf8_encode [0x41, 0xE9, 0x20AC, 0x1F600] = Inr bs
      \<and> utf8_decode Strict bs = Inr [0x41, 0xE9, 0x20AC, 0x1F600] \<and> length bs = 10" by blast
qed


lemma utf8_decode_replace_example: "utf8_decode_replace [0xC3, 0x28, 0xE2, 0x82] = [0xFFFD, 0x28, 0xFFFD]"
  by (simp add: utf8_decode_replace_def utf8_next_def cont_ranges_def Let_def)

end
