(* ===== verification/Cgi_Env.thy ===== *)
theory Cgi_Env
  imports Py_Repr Utf8
begin

text \<open>
  What a CGI script receives and what it gives back. The web server starts the script
  with an environment (\<open>os.environ\<close>, an association list in its own order with
  distinct names) and a pipe on stdin: the byte chunks the pipe delivers to successive
  reads, whether the server closes its end after the last one, and the error handler
  of \<open>sys.stdin\<close>'s UTF-8 decoder (\<open>strict\<close> under a UTF-8 locale,
  \<open>surrogateescape\<close> under the C locale). The script's result is the list of lines
  it printed and how it ended: normally, with an uncaught exception (the lines printed
  before it are still flushed), or blocked forever on a read.

  Two library calls of the scripts are modelled here:
  \<^item> \<open>int(x)\<close> on a \<open>str\<close> (\<open>PyLong_FromUnicodeObject\<close>, \<open>PyLong_FromString\<close>):
    non-ASCII spaces become spaces and non-ASCII decimal digits ASCII digits, any other
    non-ASCII character makes the literal invalid; then leading and trailing ASCII
    whitespace, an optional sign, and decimal digits with single underscores between
    them; more than 4300 digits is refused (\<open>sys.int_info.default_max_str_digits\<close>);
  \<^item> \<open>sys.stdin.read(n)\<close> (\<open>_io.TextIOWrapper.read\<close>): a size outside
    \<open>Py_ssize_t\<close> raises \<open>OverflowError\<close>; a negative size reads to the end of the
    stream; otherwise chunks are read and decoded incrementally until \<open>n\<close>
    characters are available or the stream ends, and the first \<open>n\<close> are returned.
    A read that needs more data from a pipe the server keeps open never returns.
\<close>

record cgi_request =
  environ :: "(pystr \<times> pystr) list"
  stdin_chunks :: "byte list list"
  stdin_eof :: bool
  stdin_errors :: err_handler

datatype exit_status = Exited | Raised py_exc | Blocked

record cgi_output =
  lines :: "pystr list"
  status :: exit_status

definition environ_get :: "cgi_request \<Rightarrow> pystr \<Rightarrow> pystr \<Rightarrow> pystr" where
  "environ_get r k dflt = (case map_of (environ r) k of None \<Rightarrow> dflt | Some v \<Rightarrow> v)"

definition cgi_header :: "pystr list" where
  "cgi_header = [py ''Content-Type: text/plain'', []]"

subsection \<open>int() of a string\<close>

definition unicode_isspace :: "codepoint \<Rightarrow> bool" where
  "unicode_isspace c \<longleftrightarrow>
     (9 \<le> c \<and> c \<le> 13) \<or> (28 \<le> c \<and> c \<le> 32) \<or> c = 0x85 \<or> c = 0xA0 \<or> c = 0x1680
     \<or> (0x2000 \<le> c \<and> c \<le> 0x200A) \<or> c = 0x2028 \<or> c = 0x2029 \<or> c = 0x202F
     \<or> c = 0x205F \<or> c = 0x3000"

definition ascii_space :: "codepoint \<Rightarrow> bool" where
  "ascii_space c \<longleftrightarrow> c = 32 \<or> (9 \<le> c \<and> c \<le> 13)"

definition ascii_digit :: "codepoint \<Rightarrow> bool" where
  "ascii_digit c \<longleftrightarrow> 48 \<le> c \<and> c \<le> 57"

text \<open>\<open>_PyUnicode_TransformDecimalAndSpaceToASCII\<close>; \<open>?\<close> stands for any other
  non-ASCII character and is never valid.\<close>

definition int_transform :: "unicode_db \<Rightarrow> codepoint \<Rightarrow> codepoint" where
  "int_transform db c =
     (if c < 127 then c
      else if unicode_isspace c then 32
      else (case decimal db c of Some d \<Rightarrow> 48 + d | None \<Rightarrow> 63))"

text \<open>The digit scan of \<open>long_from_string_base\<close>: digits and single underscores
  between digits; \<open>None\<close> for a doubled or trailing underscore.\<close>

fun digit_run :: "bool \<Rightarrow> pystr \<Rightarrow> (nat list \<times> pystr) option" where
  "digit_run u [] = (if u then None else Some ([], []))"
| "digit_run u (c # s) =
     (if ascii_digit c then map_option (\<lambda>(ds, r). ((c - 48) # ds, r)) (digit_run False s)
      else if c = 95 then (if u then None else digit_run True s)
      else if u then None else Some ([], c # s))"

definition digits_value :: "nat list \<Rightarrow> nat" where
  "digits_value ds = foldl (\<lambda>n d. 10 * n + d) 0 ds"

text \<open>The decimal notation of a number, as \<open>str(n)\<close> writes it (a reference for \<open>int()\<close>).\<close>

fun decimal_digits :: "nat \<Rightarrow> nat list" where
  "decimal_digits n = (if n < 10 then [n] else decimal_digits (n div 10) @ [n mod 10])"

definition decimal_str :: "nat \<Rightarrow> pystr" where
  "decimal_str n = map (\<lambda>d. 48 + d) (decimal_digits n)"

definition max_str_digits :: nat where
  "max_str_digits = 4300"

definition int_error :: "unicode_db \<Rightarrow> pystr \<Rightarrow> py_exc" where
  "int_error db s = ValueError (py ''invalid literal for int() with base 10: '' @ repr_str db s)"

definition py_int_str :: "unicode_db \<Rightarrow> pystr \<Rightarrow> py_exc + int" where
  "py_int_str db s =
     (let t = dropWhile ascii_space (map (int_transform db) s);
          (sgn, u) = (case t of c # r \<Rightarrow> if c = 43 then (1, r) else if c = 45 then (-1, r) else (1, t)
                               | [] \<Rightarrow> (1, t))
      in if u \<noteq> [] \<and> hd u = 95 then Inl (int_error db s)
         else (case digit_run False u of
                 None \<Rightarrow> Inl (int_error db s)
               | Some (ds, r) \<Rightarrow>
                   if ds = [] \<or> \<not> list_all ascii_space r then Inl (int_error db s)
                   else if max_str_digits < length ds
                   then Inl (ValueError (py ''Exceeds the limit ('' @ decimal_str max_str_digits
                     @ py '' digits) for integer string conversion: value has '' @ decimal_str (length ds)
                     @ py '' digits; use sys.set_int_max_str_digits() to increase the limit''))
                   else Inr (sgn * int (digits_value ds))))"

text \<open>\<open>int(os.environ.get(name, 0))\<close>: the default is the int \<open>0\<close>, returned unchanged.\<close>

definition environ_int :: "unicode_db \<Rightarrow> cgi_request \<Rightarrow> pystr \<Rightarrow> py_exc + int" where
  "environ_int db r k = (case map_of (environ r) k of None \<Rightarrow> Inr 0 | Some v \<Rightarrow> py_int_str db v)"

subsection \<open>sys.stdin.read(n)\<close>

text \<open>The loop of \<open>TextIOWrapper.read(n)\<close> for \<open>n \<ge> 0\<close>, over the bytes read so
  far and the chunks still to come. At the end of the stream the decoder is flushed
  (a pending truncated sequence raises under \<open>strict\<close>; the characters a flush
  produces are not part of this read's result); with the pipe still open the read
  waits forever (\<open>None\<close>).\<close>

fun read_chars :: "err_handler \<Rightarrow> nat \<Rightarrow> byte list \<Rightarrow> byte list list \<Rightarrow> bool \<Rightarrow>
    (py_exc + pystr) option" where
  "read_chars h n acc [] eof =
     (case utf8_decode_partial h acc of
        Inl e \<Rightarrow> Some (Inl e)
      | Inr s \<Rightarrow>
          if n \<le> length s then Some (Inr (take n s))
          else if eof then
            (case utf8_decode h acc of Inl e \<Rightarrow> Some (Inl e) | Inr _ \<Rightarrow> Some (Inr s))
          else None)"
| "read_chars h n acc (c # cs) eof =
     (case utf8_decode_partial h acc of
        Inl e \<Rightarrow> Some (Inl e)
      | Inr s \<Rightarrow> if n \<le> length s then Some (Inr (take n s)) else read_chars h n (acc @ c) cs eof)"

definition ssize_min :: int where "ssize_min = - (2 ^ 63)"
definition ssize_max :: int where "ssize_max = 2 ^ 63 - 1"

definition stdin_read :: "cgi_request \<Rightarrow> int \<Rightarrow> (py_exc + pystr) option" where
  "stdin_read r n =
     (if n < ssize_min \<or> ssize_max < n then Some (Inl OverflowError)
      else if n < 0 then
        (if stdin_eof r then Some (utf8_decode (stdin_errors r) (concat (stdin_chunks r))) else None)
      else read_chars (stdin_errors r) (nat n) [] (stdin_chunks r) (stdin_eof r))"

definition ascii_bytes :: "byte list \<Rightarrow> bool" where
  "ascii_bytes bs \<longleftrightarrow> list_all (\<lambda>b. unat b < 0x80) bs"

lemmas int_eval = py_int_str_def int_transform_def ascii_space_def ascii_digit_def
  digits_value_def max_str_digits_def

subsection \<open>Reading an ASCII stream; a short read on an open pipe\<close>

lemma utf8_pieces_ascii: "ascii_bytes bs \<Longrightarrow> utf8_pieces bs = map (\<lambda>b. Scalar (unat b)) bs"
  by (induction bs) (simp_all add: ascii_bytes_def utf8_next_def)

lemma utf8_pieces_ascii': "ascii_bytes bs \<Longrightarrow> utf8_pieces bs = map Scalar (map unat bs)"
  by (simp add: utf8_pieces_ascii)

lemma utf8_decode_partial_ascii:
  "ascii_bytes bs \<Longrightarrow> utf8_decode_partial h bs = Inr (map unat bs)"
  by (auto simp: utf8_decode_partial_def utf8_pieces_ascii' Let_def last_map simp del: map_map)

lemma utf8_decode_ascii: "ascii_bytes bs \<Longrightarrow> utf8_decode h bs = Inr (map unat bs)"
  by (simp add: utf8_decode_def utf8_pieces_ascii' del: map_map)

lemma read_chars_ascii:
  assumes "ascii_bytes (acc @ concat cs)"
  shows "read_chars h n acc cs eof =
    (if n \<le> length (acc @ concat cs) then Some (Inr (take n (map unat (acc @ concat cs))))
     else if eof then Some (Inr (map unat (acc @ concat cs))) else None)"
  using assms
proof (induction cs arbitrary: acc)
  case Nil
  then show ?case by (simp add: utf8_decode_partial_ascii utf8_decode_ascii)
next
  case (Cons c cs)
  have acc: "ascii_bytes acc" using Cons.prems by (simp add: ascii_bytes_def)
  show ?case
  proof (cases "n \<le> length acc")
    case True
    then show ?thesis using acc by (simp add: utf8_decode_partial_ascii)
  next
    case False
    have "ascii_bytes ((acc @ c) @ concat cs)" using Cons.prems by simp
    from Cons.IH [OF this] False acc show ?thesis
      by (simp add: utf8_decode_partial_ascii)
  qed
qed

lemma read_chars_open_short:
  assumes "utf8_decode_partial h bs = Inr s" "length s < n"
  shows "read_chars h n [] [bs] False = None"
proof -
  have "utf8_decode_partial h [] = Inr []" by (simp add: utf8_decode_partial_def)
  with assms show ?thesis by simp
qed
lemma read_chars_bad_first_chunk:
  assumes "utf8_decode_partial h bs = Inl e" "0 < n"
  shows "read_chars h n [] (bs # cs) eof = Some (Inl e)"
proof -
  have "utf8_decode_partial h [] = Inr []" by (simp add: utf8_decode_partial_def)
  with assms show ?thesis by (cases cs) simp_all
qed

subsection \<open>int() reads back the decimal notation of a number\<close>

declare decimal_digits.simps [simp del]

lemma decimal_digits_bound: "d \<in> set (decimal_digits n) \<Longrightarrow> d < 10"
proof (induction n rule: decimal_digits.induct)
  case (1 n)
  then show ?case by (subst (asm) decimal_digits.simps) (auto split: if_splits)
qed

lemma decimal_digits_not_Nil [simp]: "decimal_digits n \<noteq> []"
  by (subst decimal_digits.simps) simp

lemma digits_value_snoc: "digits_value (ds @ [d]) = 10 * digits_value ds + d"
  by (simp add: digits_value_def)

lemma digits_value_decimal_digits: "digits_value (decimal_digits n) = n"
proof (induction n rule: decimal_digits.induct)
  case (1 n)
  then show ?case
    by (subst decimal_digits.simps) (simp add: digits_value_snoc digits_value_def)
qed

lemma digit_run_digits:
  assumes "\<forall>d\<in>set ds. d < 10"
  shows "digit_run False (map (\<lambda>d. 48 + d) ds @ r) =
           map_option (\<lambda>(es, r'). (ds @ es, r')) (digit_run False r)"
  using assms
proof (induction ds)
  case Nil
  then show ?case by (cases "digit_run False r") auto
next
  case (Cons d ds)
  then show ?case
    by (simp add: ascii_digit_def option.map_comp case_prod_beta comp_def)
qed

lemma int_transform_ascii: "c < 127 \<Longrightarrow> int_transform db c = c"
  by (simp add: int_transform_def)

lemma decimal_str_ascii: "c \<in> set (decimal_str n) \<Longrightarrow> 48 \<le> c \<and> c \<le> 57"
  using decimal_digits_bound by (fastforce simp: decimal_str_def)

lemma digit_run_decimal_str:
  "digit_run False (decimal_str n) = Some (decimal_digits n, [])"
  using digit_run_digits [of "decimal_digits n" "[]"] decimal_digits_bound
  by (simp add: decimal_str_def)

lemma map_int_transform_decimal_str: "map (int_transform db) (decimal_str n) = decimal_str n"
proof (rule map_idI)
  fix c assume "c \<in> set (decimal_str n)"
  then have "c < 127" using decimal_str_ascii [of c n] by simp
  then show "int_transform db c = c" by (rule int_transform_ascii)
qed

text \<open>C18: int() reads back a number written in decimal, as a client writes Content-Length:
  the digits of n give n and a leading minus sign gives -n, for up to 4300 digits.\<close>

theorem int_decimal_roundtrip:
  assumes "length (decimal_str n) \<le> max_str_digits"
  shows "py_int_str db (decimal_str n) = Inr (int n)
       \<and> py_int_str db (45 # decimal_str n) = Inr (- int n)"
proof -
  obtain c s where cs: "decimal_str n = c # s"
    by (cases "decimal_str n") (simp_all add: decimal_str_def)
  have c: "48 \<le> c \<and> c \<le> 57" using decimal_str_ascii [of c n] cs by simp
  have t: "map (int_transform db) (c # s) = c # s"
    using map_int_transform_decimal_str [of db n] cs by simp
  have d: "digit_run False (c # s) = Some (decimal_digits n, [])"
    using digit_run_decimal_str [of n] cs by simp
  have l: "length (decimal_digits n) \<le> max_str_digits"
    using assms by (simp add: decimal_str_def)
  show ?thesis
    using c t d l cs
    by (simp add: py_int_str_def ascii_space_def digits_value_decimal_digits int_transform_def Let_def)
qed

theorem int_decimal_roundtrip_witness:
  "length (decimal_str 1234) \<le> max_str_digits \<and> (\<forall>db. py_int_str db (py ''1234'') = Inr 1234)"
proof -
  have s: "decimal_str 1234 = py ''1234''"
    by (simp add: decimal_str_def decimal_digits.simps)
  have l: "length (decimal_str 1234) \<le> max_str_digits" by (simp add: s max_str_digits_def)
  from int_decimal_roundtrip [OF l] l show ?thesis by (simp add: s)
qed

subsection \<open>Reads of the environment and of stdin\<close>

lemma environ_get_other:
  "k \<noteq> k' \<Longrightarrow> environ_get (r\<lparr>environ := (k, v) # environ r\<rparr>) k' d = environ_get r k' d"
  by (simp add: environ_get_def)

lemma environ_int_other:
  "k \<noteq> k' \<Longrightarrow> environ_int db (r\<lparr>environ := (k, v) # environ r\<rparr>) k' = environ_int db r k'"
  by (simp add: environ_int_def)

lemma stdin_read_environ [simp]: "stdin_read (r\<lparr>environ := e\<rparr>) n = stdin_read r n"
  by (simp add: stdin_read_def)

lemma stdin_read_ascii:
  assumes "ascii_bytes (concat (stdin_chunks r))" "n \<le> length (concat (stdin_chunks r))"
    "int n \<le> ssize_max"
  shows "stdin_read r (int n) = Some (Inr (take n (map unat (concat (stdin_chunks r)))))"
  using assms by (simp add: stdin_read_def ssize_min_def read_chars_ascii)

end
