(* ===== verification/Echo_Cgi.thy ===== *)
theory Echo_Cgi
  imports Cgi_Env
begin

text \<open>
  \<open>src/resources/cgi-bin/echo.py\<close>: print the CGI header and a banner, then one line
  \<open>k = v\<close> for every environment variable whose name starts with \<open>HTTP_\<close>,
  \<open>REQUEST_\<close> or \<open>CONTENT_\<close>, in the order of \<open>sorted(os.environ.items())\<close>.
  Python sorts the pairs lexicographically, strings by code point: the \<open>linorder\<close>
  of \<open>List_Lexorder\<close> and \<open>Product_Lexorder\<close> on \<open>pystr \<times> pystr\<close>, so the model
  sorts with \<open>sort\<close>. The lemmas: the script always ends normally after its three
  fixed lines, and the rest of its output is exactly the matching variables, each once,
  by strictly increasing name.
\<close>

definition echo_prefixes :: "pystr list" where
  "echo_prefixes = [py ''HTTP_'', py ''REQUEST_'', py ''CONTENT_'']"

definition echo_line :: "pystr \<times> pystr \<Rightarrow> pystr" where
  "echo_line kv = fst kv @ py '' = '' @ snd kv"

definition echo_selected :: "(pystr \<times> pystr) list \<Rightarrow> (pystr \<times> pystr) list" where
  "echo_selected env = filter (\<lambda>kv. startswith_any (fst kv) echo_prefixes) (sort env)"

definition echo_py :: "cgi_request \<Rightarrow> cgi_output" where
  "echo_py r =
     \<lparr>lines = cgi_header @ [py ''=== ECHO CGI ===''] @ map echo_line (echo_selected (environ r)),
      status = Exited\<rparr>"

definition echo_example :: cgi_request where
  "echo_example =
     \<lparr>environ = [(py ''HTTP_HOST'', py ''localhost''), (py ''PATH'', py ''/bin''),
                (py ''CONTENT_TYPE'', py ''text/plain'')],
      stdin_chunks = [], stdin_eof = True, stdin_errors = Strict\<rparr>"

subsection \<open>Sorting an environment with distinct names\<close>

lemma sorted_pairs_strict:
  fixes xs :: "('a::linorder \<times> 'b::linorder) list"
  assumes "sorted xs" "distinct (map fst xs)"
  shows "sorted_wrt (\<lambda>a b. fst a < fst b) xs"
  using assms
proof (induction xs)
  case (Cons x xs)
  have "\<forall>y\<in>set xs. fst x < fst y"
  proof
    fix y assume y: "y \<in> set xs"
    with Cons.prems(1) have "x \<le> y" by simp
    then have "fst x \<le> fst y" by (cases x, cases y) (auto simp: less_eq_prod_def)
    moreover from y Cons.prems(2) have "fst x \<noteq> fst y" by auto
    ultimately show "fst x < fst y" by simp
  qed
  with Cons show ?case by simp
qed simp

lemma echo_selected_sorted:
  "distinct (map fst env) \<Longrightarrow> sorted_wrt (\<lambda>a b. fst a < fst b) (echo_selected env)"
  unfolding echo_selected_def
  by (rule sorted_wrt_filter, rule sorted_pairs_strict) (simp_all add: sorted_distinct_map_fst_sort)

lemma set_echo_selected:
  "set (echo_selected env) = {kv \<in> set env. startswith_any (fst kv) echo_prefixes}"
  by (auto simp: echo_selected_def)

lemma echo_selected_no_match:
  "(\<And>kv. kv \<in> set env \<Longrightarrow> \<not> startswith_any (fst kv) echo_prefixes) \<Longrightarrow> echo_selected env = []"
  by (auto simp: echo_selected_def filter_empty_conv)

subsection \<open>Properties of echo.py\<close>


text \<open>C3: for an environment with distinct names, the lines after the banner are the
  lines \<open>k = v\<close> of exactly the variables whose name starts with \<open>HTTP_\<close>,
  \<open>REQUEST_\<close> or \<open>CONTENT_\<close>, each once, by strictly increasing name.\<close>

theorem echo_py_lines:
  assumes "distinct (map fst (environ r))"
  shows "\<exists>es. drop 3 (lines (echo_py r)) = map echo_line es
           \<and> sorted_wrt (\<lambda>a b. fst a < fst b) es
           \<and> set es = {kv \<in> set (environ r). startswith_any (fst kv) echo_prefixes}"
proof (intro exI conjI)
  show "drop 3 (lines (echo_py r)) = map echo_line (echo_selected (environ r))"
    by (simp add: echo_py_def cgi_header_def)
  show "sorted_wrt (\<lambda>a b. fst a < fst b) (echo_selected (environ r))"
    using assms by (rule echo_selected_sorted)
qed (rule set_echo_selected)

theorem echo_py_lines_witness:
  "distinct (map fst (environ echo_example)) \<and>
   lines (echo_py echo_example) =
     [py ''Content-Type: text/plain'', [], py ''=== ECHO CGI ==='',
      py ''CONTENT_TYPE = text/plain'', py ''HTTP_HOST = localhost'']"
proof
  show d: "distinct (map fst (environ echo_example))"
    by (simp add: echo_example_def)
  from echo_py_lines [OF d] show "lines (echo_py echo_example) =
     [py ''Content-Type: text/plain'', [], py ''=== ECHO CGI ==='',
      py ''CONTENT_TYPE = text/plain'', py ''HTTP_HOST = localhost'']"
    by (simp add: echo_py_def echo_selected_def echo_prefixes_def echo_line_def cgi_header_def
        echo_example_def)
qed

text \<open>C27: when no variable carries one of the prefixes, the report is the header and the
  banner only: the variables section is empty and nothing fails.\<close>

theorem echo_py_no_headers:
  assumes "\<And>kv. kv \<in> set (environ r) \<Longrightarrow> \<not> startswith_any (fst kv) echo_prefixes"
  shows "lines (echo_py r) = [py ''Content-Type: text/plain'', [], py ''=== ECHO CGI ==='']
         \<and> status (echo_py r) = Exited"
  using echo_selected_no_match [OF assms] by (simp add: echo_py_def cgi_header_def)

theorem echo_py_no_headers_witness:
  "lines (echo_py (echo_example\<lparr>environ := [(py ''PATH'', py ''/bin'')]\<rparr>)) =
     [py ''Content-Type: text/plain'', [], py ''=== ECHO CGI ==='']
   \<and> status (echo_py (echo_example\<lparr>environ := [(py ''PATH'', py ''/bin'')]\<rparr>)) = Exited"
  by (rule echo_py_no_headers) (simp add: echo_prefixes_def)

end
