(* ===== verification/Url_Parse.thy ===== *)
theory Url_Parse
  imports Py_Str Utf8
begin

text \<open>
  \<open>urllib.parse.parse_qs\<close> as the scripts call it (\<open>keep_blank_values=False\<close>,
  \<open>strict_parsing=False\<close>, \<open>separator='&'\<close>, UTF-8 with the \<open>replace\<close> handler),
  following CPython's \<open>Lib/urllib/parse.py\<close>: \<open>_unquote_impl\<close> splits at \<open>%\<close> and
  turns an item starting with two hex digits into one byte; \<open>unquote\<close> leaves a
  string without \<open>%\<close> alone and otherwise unquotes each maximal ASCII run and decodes
  its bytes; \<open>parse_qsl\<close> splits at \<open>&\<close>, skips empty fields, fields without \<open>=\<close>
  and fields with an empty value, and unquotes name and value after turning \<open>+\<close> into
  a space; \<open>parse_qs\<close> collects the pairs into a dict from each name, in order of first
  appearance, to the list of its values in order. \<open>unquote_scan\<close> is a reference
  scan of the input that \<open>_unquote_impl\<close> is proved equal to.
\<close>

definition is_hexdig :: "codepoint \<Rightarrow> bool" where
  "is_hexdig c \<longleftrightarrow> (48 \<le> c \<and> c \<le> 57) \<or> (65 \<le> c \<and> c \<le> 70) \<or> (97 \<le> c \<and> c \<le> 102)"

definition hexval :: "codepoint \<Rightarrow> nat" where
  "hexval c = (if c \<le> 57 then c - 48 else if c \<le> 70 then c - 55 else c - 87)"

definition hexbyte :: "codepoint \<Rightarrow> codepoint \<Rightarrow> byte" where
  "hexbyte a b = of_nat (16 * hexval a + hexval b)"

text \<open>One item after a \<open>%\<close>: \<open>_hextobyte[item[:2]] + item[2:]\<close>, or \<open>b'%' + item\<close>.\<close>

definition hex_item :: "pystr \<Rightarrow> byte list" where
  "hex_item item =
     (case item of
        a # b # rest \<Rightarrow>
          if is_hexdig a \<and> is_hexdig b then hexbyte a b # map of_nat rest
          else of_nat cp_percent # map of_nat item
      | _ \<Rightarrow> of_nat cp_percent # map of_nat item)"

text \<open>\<open>_unquote_impl\<close>, applied by \<open>unquote\<close> to ASCII runs only, whose UTF-8
  encoding is the list of their code points.\<close>

definition unquote_impl :: "pystr \<Rightarrow> byte list" where
  "unquote_impl s =
     (let bits = split_char cp_percent s in map of_nat (hd bits) @ concat (map hex_item (tl bits)))"

fun unquote_scan :: "pystr \<Rightarrow> byte list" where
  "unquote_scan [] = []"
| "unquote_scan (c # a # b # s) =
     (if c = cp_percent \<and> is_hexdig a \<and> is_hexdig b then hexbyte a b # unquote_scan s
      else of_nat c # unquote_scan (a # b # s))"
| "unquote_scan (c # s) = of_nat c # unquote_scan s"

function unquote_runs :: "pystr \<Rightarrow> pystr" where
  "unquote_runs [] = []"
| "unquote_runs (c # s) =
     (if c < 0x80 then
        utf8_decode_replace (unquote_impl (takeWhile (\<lambda>x. x < 0x80) (c # s)))
          @ unquote_runs (dropWhile (\<lambda>x. x < 0x80) (c # s))
      else c # unquote_runs s)"
  by pat_completeness auto
termination
  by (relation "measure length") (auto simp: length_dropWhile_le le_imp_less_Suc)

definition unquote :: "pystr \<Rightarrow> pystr" where
  "unquote s = (if cp_percent \<notin> set s then s else unquote_runs s)"

definition unquote_plus :: "pystr \<Rightarrow> pystr" where
  "unquote_plus s = unquote (replace_char cp_plus cp_space s)"

definition parse_qsl_field :: "pystr \<Rightarrow> (pystr \<times> pystr) list" where
  "parse_qsl_field name_value =
     (if name_value = [] then []
      else (case split1_char cp_equals name_value of
              [n, v] \<Rightarrow> if v \<noteq> [] then [(unquote_plus n, unquote_plus v)] else []
            | _ \<Rightarrow> []))"

definition parse_qsl :: "pystr \<Rightarrow> (pystr \<times> pystr) list" where
  "parse_qsl qs = concat (map parse_qsl_field (if qs = [] then [] else split_char cp_amp qs))"

text \<open>One step of \<open>parse_qs\<close>'s loop on its dict (an association list in insertion
  order): append to the list of a known name, or add the name at the end.\<close>

fun qs_insert :: "(pystr \<times> pystr list) list \<Rightarrow> pystr \<times> pystr \<Rightarrow> (pystr \<times> pystr list) list" where
  "qs_insert [] (k, v) = [(k, [v])]"
| "qs_insert ((k', vs) # d) (k, v) =
     (if k' = k then (k', vs @ [v]) # d else (k', vs) # qs_insert d (k, v))"

definition parse_qs :: "pystr \<Rightarrow> (pystr \<times> pystr list) list" where
  "parse_qs qs = foldl qs_insert [] (parse_qsl qs)"

subsection \<open>The abstract dict\<close>

text \<open>The abstract dict: the values of a name, in order, and the names in order of first
  appearance.\<close>

definition values_of :: "('k \<times> 'v) list \<Rightarrow> 'k \<Rightarrow> 'v list" where
  "values_of ps k = map snd (filter (\<lambda>p. fst p = k) ps)"

definition first_occurrences :: "'k list \<Rightarrow> 'k list" where
  "first_occurrences xs = rev (remdups (rev xs))"

definition lookup_all :: "('k \<times> 'v list) list \<Rightarrow> 'k \<Rightarrow> 'v list" where
  "lookup_all d k = (case map_of d k of None \<Rightarrow> [] | Some vs \<Rightarrow> vs)"

subsection \<open>The split-based unquoting equals the reference scan\<close>

lemma percent_not_hexdig [simp]: "\<not> is_hexdig cp_percent"
  by (simp add: is_hexdig_def)

lemma unquote_scan_Cons_plain:
  "c \<noteq> cp_percent \<Longrightarrow> unquote_scan (c # r) = of_nat c # unquote_scan r"
proof (cases r)
  case (Cons a r')
  then show "c \<noteq> cp_percent \<Longrightarrow> ?thesis" by (cases r') auto
qed simp

lemma unquote_scan_percent_other:
  "\<not> is_hexdig a \<Longrightarrow> unquote_scan (cp_percent # a # r) = of_nat cp_percent # unquote_scan (a # r)"
  by (cases r) auto

lemma unquote_scan_plain:
  "cp_percent \<notin> set w \<Longrightarrow> unquote_scan (w @ r) = map of_nat w @ unquote_scan r"
  by (induction w) (auto simp: unquote_scan_Cons_plain)

lemma unquote_scan_item:
  assumes "cp_percent \<notin> set item" "r = [] \<or> hd r = cp_percent"
  shows "unquote_scan (cp_percent # item @ r) = hex_item item @ unquote_scan r"
proof (cases item)
  case Nil
  with assms(2) show ?thesis
    by (cases r) (auto simp: hex_item_def unquote_scan_percent_other)
next
  case (Cons a item')
  show ?thesis
  proof (cases item')
    case Nil
    with Cons assms show ?thesis
      by (cases r) (auto simp: hex_item_def unquote_scan_Cons_plain)
  next
    case (Cons b rest)
    with \<open>item = a # item'\<close> assms(1) show ?thesis
      by (auto simp: hex_item_def unquote_scan_plain unquote_scan_Cons_plain)
  qed
qed

lemma unquote_scan_items:
  "(\<And>i. i \<in> set items \<Longrightarrow> cp_percent \<notin> set i) \<Longrightarrow>
   unquote_scan (concat (map (\<lambda>i. cp_percent # i) items)) = concat (map hex_item items)"
proof (induction items)
  case (Cons i items)
  have "concat (map (\<lambda>i. cp_percent # i) items) = [] \<or>
        hd (concat (map (\<lambda>i. cp_percent # i) items)) = cp_percent"
    by (cases items) auto
  with Cons show ?case
    using unquote_scan_item [of i "concat (map (\<lambda>i. cp_percent # i) items)"] by simp
qed simp

lemma unquote_impl_eq_scan: "unquote_impl s = unquote_scan s"
proof -
  obtain b bs where bits: "split_char cp_percent s = b # bs"
    by (cases "split_char cp_percent s") auto
  have s: "s = b @ concat (map (\<lambda>i. cp_percent # i) bs)"
    using join_split_char [of cp_percent s] by (simp add: bits join_Cons_concat)
  have nb: "cp_percent \<notin> set b" and nbs: "\<And>i. i \<in> set bs \<Longrightarrow> cp_percent \<notin> set i"
    using split_char_pieces [of _ cp_percent s] bits by auto
  have "unquote_scan s = map of_nat b @ concat (map hex_item bs)"
    by (subst s) (simp add: unquote_scan_plain [OF nb] unquote_scan_items [OF nbs])
  then show ?thesis by (simp add: unquote_impl_def bits)
qed

text \<open>C8: CPython's split-based _unquote_impl equals the left-to-right scan that turns each
  %XX with two hex digits into the byte XX and keeps every other character, a lone or
  malformed % included.\<close>

theorem unquote_impl_scan: "unquote_impl s = unquote_scan s"
  by (rule unquote_impl_eq_scan)

subsection \<open>parse_qs groups the pairs of parse_qsl by name\<close>

lemma map_of_qs_insert:
  "map_of (qs_insert d (k, v)) = (map_of d)(k \<mapsto> lookup_all d k @ [v])"
  by (induction d "(k, v)" rule: qs_insert.induct) (auto simp: lookup_all_def fun_eq_iff)

lemma keys_qs_insert:
  "map fst (qs_insert d (k, v)) = (if k \<in> set (map fst d) then map fst d else map fst d @ [k])"
  by (induction d "(k, v)" rule: qs_insert.induct) auto

lemma first_occurrences_snoc:
  "first_occurrences (xs @ [x]) =
     (if x \<in> set xs then first_occurrences xs else first_occurrences xs @ [x])"
  by (simp add: first_occurrences_def)

lemma lookup_all_foldl_qs_insert:
  "lookup_all (foldl qs_insert d ps) k = lookup_all d k @ values_of ps k"
proof (induction ps rule: rev_induct)
  case (snoc p ps)
  obtain k' v where "p = (k', v)" by (cases p)
  with snoc show ?case
    by (auto simp: values_of_def map_of_qs_insert lookup_all_def)
qed (simp add: values_of_def)

lemma keys_foldl_qs_insert:
  "map fst (foldl qs_insert [] ps) = first_occurrences (map fst ps)"
proof (induction ps rule: rev_induct)
  case (snoc p ps)
  obtain k' v where "p = (k', v)" by (cases p)
  moreover have "set (map fst (foldl qs_insert [] ps)) = set (map fst ps)"
    using snoc by (simp add: first_occurrences_def)
  ultimately show ?case
    using snoc by (simp add: keys_qs_insert first_occurrences_snoc)
qed (simp add: first_occurrences_def)

lemma lookup_all_Nil: "lookup_all [] k = []"
  by (simp add: lookup_all_def)

lemma alist_by_lookup:
  "distinct (map fst d) \<Longrightarrow> d = map (\<lambda>k. (k, lookup_all d k)) (map fst d)"
proof (induction d)
  case (Cons p d)
  obtain k vs where p: "p = (k, vs)" by (cases p)
  have "map (\<lambda>k'. (k', lookup_all ((k, vs) # d) k')) (map fst d) = map (\<lambda>k. (k, lookup_all d k)) (map fst d)"
    using Cons.prems p by (auto simp: lookup_all_def)
  with Cons p show ?case by (simp add: lookup_all_def)
qed simp

lemma parse_qs_grouped:
  "parse_qs qs = map (\<lambda>k. (k, values_of (parse_qsl qs) k)) (first_occurrences (map fst (parse_qsl qs)))"
proof -
  let ?d = "foldl qs_insert [] (parse_qsl qs)"
  have keys: "map fst ?d = first_occurrences (map fst (parse_qsl qs))"
    by (rule keys_foldl_qs_insert)
  then have "distinct (map fst ?d)" by (simp add: first_occurrences_def)
  then have "?d = map (\<lambda>k. (k, lookup_all ?d k)) (map fst ?d)" by (rule alist_by_lookup)
  also have "\<dots> = map (\<lambda>k. (k, values_of (parse_qsl qs) k)) (first_occurrences (map fst (parse_qsl qs)))"
    by (simp add: keys lookup_all_foldl_qs_insert lookup_all_Nil)
  finally show ?thesis by (simp add: parse_qs_def)
qed

text \<open>C5: parse_qs is parse_qsl grouped by name: one entry per name, in order of first
  appearance, holding all of that name's values in order.\<close>

theorem parse_qs_groups:
  "parse_qs qs = map (\<lambda>k. (k, values_of (parse_qsl qs) k)) (first_occurrences (map fst (parse_qsl qs)))"
  by (rule parse_qs_grouped)

lemmas parse_qs_eval = parse_qs_def parse_qsl_def parse_qsl_field_def split1_char_def
  unquote_plus_def unquote_def replace_char_def


subsection \<open>Appending a field to the query string\<close>

lemma parse_qsl_split: "parse_qsl qs = concat (map parse_qsl_field (split_char cp_amp qs))"
  by (simp add: parse_qsl_def parse_qsl_field_def)

lemma parse_qsl_snoc_field:
  "cp_amp \<notin> set f \<Longrightarrow> parse_qsl (qs @ cp_amp # f) = parse_qsl qs @ parse_qsl_field f"
  by (simp add: parse_qsl_split split_char_snoc_sep)

lemma parse_qsl_field_malformed:
  assumes "cp_equals \<notin> set f \<or> (\<exists>n. f = n @ [cp_equals] \<and> cp_equals \<notin> set n)"
  shows "parse_qsl_field f = []"
  using assms by (auto simp: parse_qsl_field_def split1_char_cut)

lemma parse_qsl_field_pair:
  assumes "cp_equals \<notin> set n" "v \<noteq> []"
  shows "parse_qsl_field (n @ cp_equals # v) = [(unquote_plus n, unquote_plus v)]"
  using assms by (simp add: parse_qsl_field_def split1_char_cut)

text \<open>C7: a field without '=', or whose value is empty, contributes nothing: parse_qs of the
  query string with such a field appended is parse_qs without it (keep_blank_values is
  false), where the spec wants the key with an empty value list.\<close>

theorem parse_qs_drops_malformed:
  assumes "cp_amp \<notin> set f" "cp_equals \<notin> set f \<or> (\<exists>n. f = n @ [cp_equals] \<and> cp_equals \<notin> set n)"
  shows "parse_qs (qs @ cp_amp # f) = parse_qs qs"
  using assms by (simp add: parse_qs_def parse_qsl_snoc_field parse_qsl_field_malformed)

theorem parse_qs_drops_malformed_witness:
  "parse_qs (py ''a=1&b'') = [(py ''a'', [py ''1''])]"
proof -
  have "parse_qs (py ''a=1'' @ cp_amp # py ''b'') = parse_qs (py ''a=1'')"
    by (rule parse_qs_drops_malformed) simp_all
  also have "\<dots> = [(py ''a'', [py ''1''])]" by (simp add: parse_qs_eval)
  finally show ?thesis by simp
qed



end
