(* ===== verification/Script_Cgi.thy ===== *)
theory Script_Cgi
  imports Cgi_Env Url_Parse
begin

text \<open>
  \<open>src/resources/cgi-bin/script.py\<close>: print the CGI header, a banner and the request
  method; for a POST, convert \<open>CONTENT_LENGTH\<close> with \<open>int()\<close> (default \<open>0\<close>), read
  that many characters from stdin, and print \<open>k = [v1, ...]\<close> for each name of
  \<open>parse_qs\<close> of the body. Each statement is one step of \<open>script_py\<close>; an exception
  of \<open>int()\<close> or of the read ends the run with the lines printed so far, and a read
  that waits for more data than an open pipe will bring never ends.
\<close>

definition script_banner :: "pystr list" where
  "script_banner = [py ''=== SCRIPT.PY ==='']"

definition script_data_line :: "unicode_db \<Rightarrow> pystr \<times> pystr list \<Rightarrow> pystr" where
  "script_data_line db kv = fst kv @ py '' = '' @ repr_list db (snd kv)"

definition script_py :: "unicode_db \<Rightarrow> cgi_request \<Rightarrow> cgi_output" where
  "script_py db r =
     (let method = environ_get r (py ''REQUEST_METHOD'') [];
          out = cgi_header @ script_banner @ [print_line [py ''Method:'', method]]
      in if method = py ''POST'' then
           (case environ_int db r (py ''CONTENT_LENGTH'') of
              Inl e \<Rightarrow> \<lparr>lines = out, status = Raised e\<rparr>
            | Inr n \<Rightarrow>
                (case stdin_read r n of
                   None \<Rightarrow> \<lparr>lines = out, status = Blocked\<rparr>
                 | Some (Inl e) \<Rightarrow> \<lparr>lines = out, status = Raised e\<rparr>
                 | Some (Inr body) \<Rightarrow>
                     \<lparr>lines = out @ [py ''Parsed POST data:'']
                                @ map (script_data_line db) (parse_qs body),
                      status = Exited\<rparr>))
         else \<lparr>lines = out, status = Exited\<rparr>)"

subsection \<open>Properties of script.py\<close>

definition post_example :: cgi_request where
  "post_example =
     \<lparr>environ = [(py ''REQUEST_METHOD'', py ''POST''), (py ''CONTENT_LENGTH'', py ''7'')],
      stdin_chunks = [map of_nat (py ''a=1&b=2'')], stdin_eof = False, stdin_errors = Strict\<rparr>"

text \<open>C1: a POST whose CONTENT_LENGTH converts to n, with an ASCII body of at
  least n bytes, however the pipe delivers it and whether or not the server closes it:
  script.py ends normally and prints, after the header, banner and method, one line k =
  [v1, ...] per name of parse_qs of the first n characters, in order of first
  appearance.\<close>

theorem script_py_post_ascii:
  assumes m: "environ_get r (py ''REQUEST_METHOD'') [] = py ''POST''"
    and n: "environ_int db r (py ''CONTENT_LENGTH'') = Inr (int n)"
    and a: "ascii_bytes (concat (stdin_chunks r))"
    and le: "n \<le> length (concat (stdin_chunks r))" and b: "int n \<le> ssize_max"
  shows "script_py db r =
    \<lparr>lines = cgi_header @ script_banner @ [py ''Method: POST'', py ''Parsed POST data:'']
              @ map (script_data_line db) (parse_qs (take n (map unat (concat (stdin_chunks r))))),
     status = Exited\<rparr>"
proof -
  have "stdin_read r (int n) = Some (Inr (take n (map unat (concat (stdin_chunks r)))))"
    using a le b by (simp add: stdin_read_def ssize_min_def read_chars_ascii)
  with m n show ?thesis by (simp add: script_py_def print_line_def)
qed

theorem script_py_post_ascii_witness:
  "\<forall>db. script_py db post_example =
     \<lparr>lines = [py ''Content-Type: text/plain'', [], py ''=== SCRIPT.PY ==='', py ''Method: POST'',
               py ''Parsed POST data:'', (py ''a = ['' @ 39 # py ''1'' @ 39 # py '']''), (py ''b = ['' @ 39 # py ''2'' @ 39 # py '']'')],
      status = Exited\<rparr>"
proof
  fix db
  have m: "environ_get post_example (py ''REQUEST_METHOD'') [] = py ''POST''"
    by (simp add: post_example_def environ_get_def)
  have n: "environ_int db post_example (py ''CONTENT_LENGTH'') = Inr (int 7)"
    by (simp add: post_example_def environ_int_def int_eval)
  have a: "ascii_bytes (concat (stdin_chunks post_example))"
    by (simp add: post_example_def ascii_bytes_def)
  have le: "7 \<le> length (concat (stdin_chunks post_example))"
    by (simp add: post_example_def)
  have b: "int 7 \<le> ssize_max" by (simp add: ssize_max_def)
  show "script_py db post_example = \<lparr>lines = [py ''Content-Type: text/plain'', [], py ''=== SCRIPT.PY ==='', py ''Method: POST'',
               py ''Parsed POST data:'', (py ''a = ['' @ 39 # py ''1'' @ 39 # py '']''), (py ''b = ['' @ 39 # py ''2'' @ 39 # py '']'')],
      status = Exited\<rparr>"
    using script_py_post_ascii [OF m n a le b]
    by (simp add: post_example_def cgi_header_def script_banner_def script_data_line_def
        parse_qs_eval repr_eval)
qed

text \<open>C28: whatever the request, the first four lines script.py prints are the CGI
  header, its banner and the line Method: m of REQUEST_METHOD (empty when unset).\<close>

theorem script_py_prefix:
  "take 4 (lines (script_py db r)) =
     cgi_header @ script_banner @ [py ''Method: '' @ environ_get r (py ''REQUEST_METHOD'') []]"
  by (simp add: script_py_def print_line_def cgi_header_def script_banner_def Let_def
      split: sum.split option.split)

text \<open>C29: for any method other than POST script.py reads nothing from stdin and
  ends normally after the method line.\<close>

theorem script_py_not_post:
  assumes "environ_get r (py ''REQUEST_METHOD'') [] \<noteq> py ''POST''"
  shows "script_py db r =
    \<lparr>lines = cgi_header @ script_banner @ [py ''Method: '' @ environ_get r (py ''REQUEST_METHOD'') []],
     status = Exited\<rparr>"
  using assms by (simp add: script_py_def print_line_def)

theorem script_py_not_post_witness:
  "\<forall>db. environ_get (post_example\<lparr>environ := [(py ''REQUEST_METHOD'', py ''GET'')]\<rparr>)
        (py ''REQUEST_METHOD'') [] \<noteq> py ''POST'' \<and>
    status (script_py db (post_example\<lparr>environ := [(py ''REQUEST_METHOD'', py ''GET'')]\<rparr>)) = Exited"
  using script_py_not_post by (simp add: environ_get_def)

text \<open>C20: a POST whose CONTENT_LENGTH int() rejects (an empty or non-numeric
  value) ends with the exception of int(), after the method line; nothing is read or
  parsed.\<close>

theorem script_py_bad_length:
  assumes "environ_get r (py ''REQUEST_METHOD'') [] = py ''POST''"
    and "environ_int db r (py ''CONTENT_LENGTH'') = Inl e"
  shows "script_py db r =
    \<lparr>lines = cgi_header @ script_banner @ [py ''Method: POST''], status = Raised e\<rparr>"
  using assms by (simp add: script_py_def print_line_def)

theorem script_py_bad_length_witness:
  "\<forall>db. status (script_py db (post_example\<lparr>environ := [(py ''REQUEST_METHOD'', py ''POST''),
       (py ''CONTENT_LENGTH'', [])]\<rparr>)) = Raised (int_error db [])"
proof
  fix db
  let ?r = "post_example\<lparr>environ := [(py ''REQUEST_METHOD'', py ''POST''), (py ''CONTENT_LENGTH'', [])]\<rparr>"
  have m: "environ_get ?r (py ''REQUEST_METHOD'') [] = py ''POST''"
    by (simp add: environ_get_def)
  have e: "environ_int db ?r (py ''CONTENT_LENGTH'') = Inl (int_error db [])"
    by (simp add: environ_int_def int_eval)
  show "status (script_py db ?r) = Raised (int_error db [])"
    using script_py_bad_length [OF m e] by simp
qed

text \<open>C19: read(n) counts characters, not bytes: a POST whose body of n bytes
  decodes to fewer than n characters, with CONTENT_LENGTH n and the pipe left open,
  never finishes.\<close>

theorem script_py_blocks:
  assumes "environ_get r (py ''REQUEST_METHOD'') [] = py ''POST''"
    and "environ_int db r (py ''CONTENT_LENGTH'') = Inr (int (length bs))"
    and "stdin_chunks r = [bs]" "\<not> stdin_eof r" "int (length bs) \<le> ssize_max"
    and "utf8_decode_partial (stdin_errors r) bs = Inr s" "length s < length bs"
  shows "status (script_py db r) = Blocked"
proof -
  have "stdin_read r (int (length bs)) = None"
    using assms(3-7) read_chars_open_short [OF assms(6,7)]
    by (simp add: stdin_read_def ssize_min_def)
  with assms(1,2) show ?thesis by (simp add: script_py_def)
qed

theorem script_py_blocks_witness:
  "\<forall>db. status (script_py db (post_example\<lparr>environ := [(py ''REQUEST_METHOD'', py ''POST''),
       (py ''CONTENT_LENGTH'', py ''2'')], stdin_chunks := [[0xC3, 0xA9]]\<rparr>)) = Blocked"
proof
  fix db
  let ?r = "post_example\<lparr>environ := [(py ''REQUEST_METHOD'', py ''POST''), (py ''CONTENT_LENGTH'', py ''2'')],
     stdin_chunks := [[0xC3, 0xA9]]\<rparr>"
  have m: "environ_get ?r (py ''REQUEST_METHOD'') [] = py ''POST''"
    by (simp add: environ_get_def)
  have n: "environ_int db ?r (py ''CONTENT_LENGTH'') = Inr (int (length [0xC3, 0xA9 :: byte]))"
    by (simp add: environ_int_def int_eval)
  have c: "stdin_chunks ?r = [[0xC3, 0xA9]]" and o: "\<not> stdin_eof ?r"
    and b: "int (length [0xC3, 0xA9 :: byte]) \<le> ssize_max"
    by (simp_all add: post_example_def ssize_max_def)
  have d: "utf8_decode_partial (stdin_errors ?r) [0xC3, 0xA9] = Inr [0xE9]"
    by (simp add: post_example_def utf8_decode_partial_def utf8_next_def cont_ranges_def
        cp_value_def lead_bits_def)
  show "status (script_py db ?r) = Blocked"
    by (rule script_py_blocks [OF m n c o b d]) simp
qed
end
