(* ===== verification/Test_Cgi.thy ===== *)
theory Test_Cgi
  imports Cgi_Env Url_Parse
begin

text \<open>
  \<open>src/resources/cgi-bin/test.py\<close>, the request reporter: print the CGI header, a
  banner, the method and the query string, and \<open>parse_qs\<close> of a non-empty query
  string; for a POST, convert \<open>CONTENT_LENGTH\<close>, read that many characters, print the
  content type, and then either the result of \<open>json.loads\<close> on the body (content type
  containing \<open>application/json\<close>; an exception is caught and its message printed) or
  the raw body. \<open>json.loads\<close> and \<open>str()\<close> of its result are the parameters
  \<open>loads\<close> and \<open>str_of\<close> of \<open>test_py\<close>: \<open>loads body\<close> is \<open>Inr v\<close> for a parsed value
  and \<open>Inl m\<close> when it raises an exception whose \<open>str\<close> is \<open>m\<close>. Every theorem below
  holds for every such pair; \<open>Test_Json\<close> instantiates them with the model of \<open>json.loads\<close>.
\<close>

definition test_banner :: "pystr list" where
  "test_banner = [py ''=== CGI TEST.PY ==='']"

definition test_query_lines :: "unicode_db \<Rightarrow> pystr \<Rightarrow> pystr list" where
  "test_query_lines db qs =
     [print_line [py ''Query string:'', qs]]
     @ (if qs \<noteq> [] then [print_line [py ''Parsed query:'', repr_dict db (parse_qs qs)]] else [])"

definition test_body_line ::
    "(pystr \<Rightarrow> pystr + 'j) \<Rightarrow> ('j \<Rightarrow> pystr) \<Rightarrow> pystr \<Rightarrow> pystr \<Rightarrow> pystr" where
  "test_body_line loads str_of ctype body =
     (if contains (py ''application/json'') ctype then
        (case loads body of
           Inr v \<Rightarrow> print_line [py ''JSON body:'', str_of v]
         | Inl m \<Rightarrow> print_line [py ''JSON error:'', m])
      else print_line [py ''Raw body:'', body])"

definition test_py ::
    "unicode_db \<Rightarrow> (pystr \<Rightarrow> pystr + 'j) \<Rightarrow> ('j \<Rightarrow> pystr) \<Rightarrow> cgi_request \<Rightarrow> cgi_output" where
  "test_py db loads str_of r =
     (let method = environ_get r (py ''REQUEST_METHOD'') [];
          qs = environ_get r (py ''QUERY_STRING'') [];
          out = cgi_header @ test_banner @ [print_line [py ''Method:'', method]]
                @ test_query_lines db qs
      in if method = py ''POST'' then
           (case environ_int db r (py ''CONTENT_LENGTH'') of
              Inl e \<Rightarrow> \<lparr>lines = out, status = Raised e\<rparr>
            | Inr n \<Rightarrow>
                (case stdin_read r n of
                   None \<Rightarrow> \<lparr>lines = out, status = Blocked\<rparr>
                 | Some (Inl e) \<Rightarrow> \<lparr>lines = out, status = Raised e\<rparr>
                 | Some (Inr body) \<Rightarrow>
                     (let ctype = environ_get r (py ''CONTENT_TYPE'') []
                      in \<lparr>lines = out @ [print_line [py ''Content-Type:'', ctype],
                                         test_body_line loads str_of ctype body],
                          status = Exited\<rparr>)))
         else \<lparr>lines = out, status = Exited\<rparr>)"

definition get_example :: cgi_request where
  "get_example =
     \<lparr>environ = [(py ''REQUEST_METHOD'', py ''GET''), (py ''QUERY_STRING'', py ''a=1&b=2'')],
      stdin_chunks = [], stdin_eof = False, stdin_errors = Strict\<rparr>"

definition post_form_example :: cgi_request where
  "post_form_example =
     \<lparr>environ = [(py ''REQUEST_METHOD'', py ''POST''), (py ''CONTENT_LENGTH'', py ''5''),
                (py ''CONTENT_TYPE'', py ''application/x-www-form-urlencoded'')],
      stdin_chunks = [map of_nat (py ''a=1&b'')], stdin_eof = False, stdin_errors = Strict\<rparr>"

subsection \<open>Properties of test.py\<close>

text \<open>C2: a request other than POST with a non-empty query string: test.py ends
  normally and prints the header, its banner, the method, the raw query string and
  parse_qs of it as a dict, the spec's first scenario.\<close>

theorem test_py_get_query:
  assumes "environ_get r (py ''REQUEST_METHOD'') [] \<noteq> py ''POST''"
    and "environ_get r (py ''QUERY_STRING'') [] = qs" "qs \<noteq> []"
  shows "test_py db loads str_of r =
    \<lparr>lines = cgi_header @ test_banner @
       [py ''Method: '' @ environ_get r (py ''REQUEST_METHOD'') [],
        py ''Query string: '' @ qs, py ''Parsed query: '' @ repr_dict db (parse_qs qs)],
     status = Exited\<rparr>"
  using assms by (simp add: test_py_def test_query_lines_def print_line_def)

theorem test_py_get_query_witness:
  "\<forall>db (loads :: pystr \<Rightarrow> pystr + unit) str_of. lines (test_py db loads str_of get_example) =
     [py ''Content-Type: text/plain'', [], py ''=== CGI TEST.PY ==='', py ''Method: GET'',
      py ''Query string: a=1&b=2'',
      py ''Parsed query: {'' @ 39 # py ''a'' @ 39 # py '': ['' @ 39 # py ''1'' @ 39 # py ''], ''
        @ 39 # py ''b'' @ 39 # py '': ['' @ 39 # py ''2'' @ 39 # py '']}'']"
proof (intro allI)
  fix db and loads :: "pystr \<Rightarrow> pystr + unit" and str_of
  have m: "environ_get get_example (py ''REQUEST_METHOD'') [] \<noteq> py ''POST''"
    and q: "environ_get get_example (py ''QUERY_STRING'') [] = py ''a=1&b=2''"
    and n: "py ''a=1&b=2'' \<noteq> []"
    by (simp_all add: get_example_def environ_get_def)
  show "lines (test_py db loads str_of get_example) =
     [py ''Content-Type: text/plain'', [], py ''=== CGI TEST.PY ==='', py ''Method: GET'',
      py ''Query string: a=1&b=2'',
      py ''Parsed query: {'' @ 39 # py ''a'' @ 39 # py '': ['' @ 39 # py ''1'' @ 39 # py ''], ''
        @ 39 # py ''b'' @ 39 # py '': ['' @ 39 # py ''2'' @ 39 # py '']}'']"
    (is "_ = ?out")
  proof -
    have "lines (test_py db loads str_of get_example) =
      cgi_header @ test_banner @
       [py ''Method: '' @ environ_get get_example (py ''REQUEST_METHOD'') [],
        py ''Query string: '' @ py ''a=1&b=2'', py ''Parsed query: '' @ repr_dict db (parse_qs (py ''a=1&b=2''))]"
      using arg_cong [OF test_py_get_query [OF m q n], of lines] by (simp only: cgi_output.select_convs)
    also have "\<dots> = ?out"
      by (simp add: get_example_def environ_get_def cgi_header_def test_banner_def parse_qs_eval
          repr_eval)
    finally show ?thesis .
  qed
qed

text \<open>C25: test.py reads only REQUEST_METHOD, QUERY_STRING, CONTENT_LENGTH and
  CONTENT_TYPE: adding any other variable, an HTTP_ header included, leaves its whole
  result unchanged, so no header section is ever printed.\<close>

theorem test_py_ignores_other_variables:
  assumes "k \<notin> set [py ''REQUEST_METHOD'', py ''QUERY_STRING'', py ''CONTENT_LENGTH'', py ''CONTENT_TYPE'']"
  shows "test_py db loads str_of (r\<lparr>environ := (k, v) # environ r\<rparr>) = test_py db loads str_of r"
proof -
  let ?r = "r\<lparr>environ := (k, v) # environ r\<rparr>"
  from assms have g: "environ_get ?r (py ''REQUEST_METHOD'') [] = environ_get r (py ''REQUEST_METHOD'') []"
    "environ_get ?r (py ''QUERY_STRING'') [] = environ_get r (py ''QUERY_STRING'') []"
    "environ_get ?r (py ''CONTENT_TYPE'') [] = environ_get r (py ''CONTENT_TYPE'') []"
    "environ_int db ?r (py ''CONTENT_LENGTH'') = environ_int db r (py ''CONTENT_LENGTH'')"
    by (simp_all add: environ_get_other environ_int_other del: py_Cons)
  show ?thesis unfolding test_py_def g stdin_read_environ ..
qed

theorem test_py_ignores_other_variables_witness:
  "py ''HTTP_HOST'' \<notin> set [py ''REQUEST_METHOD'', py ''QUERY_STRING'', py ''CONTENT_LENGTH'', py ''CONTENT_TYPE'']
   \<and> (\<forall>db (loads :: pystr \<Rightarrow> pystr + unit) str_of.
        test_py db loads str_of (get_example\<lparr>environ := (py ''HTTP_HOST'', py ''localhost'') # environ get_example\<rparr>)
        = test_py db loads str_of get_example)"
proof
  show k: "py ''HTTP_HOST'' \<notin> set [py ''REQUEST_METHOD'', py ''QUERY_STRING'', py ''CONTENT_LENGTH'', py ''CONTENT_TYPE'']"
    by simp
  show "\<forall>db (loads :: pystr \<Rightarrow> pystr + unit) str_of.
        test_py db loads str_of (get_example\<lparr>environ := (py ''HTTP_HOST'', py ''localhost'') # environ get_example\<rparr>)
        = test_py db loads str_of get_example"
    using test_py_ignores_other_variables [OF k] by blast
qed

text \<open>C24: a POST whose body was read and whose content type does not contain
  application/json prints the content type and the raw body as the last lines and ends
  normally; a form-encoded body is printed raw, not parsed.\<close>

theorem test_py_raw_body:
  assumes "environ_get r (py ''REQUEST_METHOD'') [] = py ''POST''"
    and "environ_int db r (py ''CONTENT_LENGTH'') = Inr n" "stdin_read r n = Some (Inr body)"
    and "\<not> contains (py ''application/json'') (environ_get r (py ''CONTENT_TYPE'') [])"
  shows "test_py db loads str_of r =
    \<lparr>lines = cgi_header @ test_banner @ [py ''Method: POST'']
              @ test_query_lines db (environ_get r (py ''QUERY_STRING'') [])
              @ [py ''Content-Type: '' @ environ_get r (py ''CONTENT_TYPE'') [],
                 py ''Raw body: '' @ body],
     status = Exited\<rparr>"
  using assms by (simp add: test_py_def test_body_line_def print_line_def)

theorem test_py_raw_body_witness:
  "\<forall>db (loads :: pystr \<Rightarrow> pystr + unit) str_of.
     lines (test_py db loads str_of post_form_example) =
       [py ''Content-Type: text/plain'', [], py ''=== CGI TEST.PY ==='', py ''Method: POST'',
        py ''Query string: '', py ''Content-Type: application/x-www-form-urlencoded'',
        py ''Raw body: a=1&b'']"
proof (intro allI)
  fix db and loads :: "pystr \<Rightarrow> pystr + unit" and str_of
  let ?r = post_form_example
  have m: "environ_get ?r (py ''REQUEST_METHOD'') [] = py ''POST''"
    by (simp add: post_form_example_def environ_get_def)
  have n: "environ_int db ?r (py ''CONTENT_LENGTH'') = Inr (int 5)"
    by (simp add: post_form_example_def environ_int_def int_eval)
  have "stdin_read ?r (int 5) = Some (Inr (take 5 (map unat (concat (stdin_chunks ?r)))))"
    by (rule stdin_read_ascii) (simp_all add: post_form_example_def ascii_bytes_def ssize_max_def)
  then have b: "stdin_read ?r (int 5) = Some (Inr (py ''a=1&b''))"
    by (simp add: post_form_example_def)
  have c: "\<not> contains (py ''application/json'') (environ_get ?r (py ''CONTENT_TYPE'') [])"
    by (simp add: post_form_example_def environ_get_def)
  have "lines (test_py db loads str_of ?r) = cgi_header @ test_banner @ [py ''Method: POST'']
              @ test_query_lines db (environ_get ?r (py ''QUERY_STRING'') [])
              @ [py ''Content-Type: '' @ environ_get ?r (py ''CONTENT_TYPE'') [],
                 py ''Raw body: '' @ py ''a=1&b'']"
    using arg_cong [OF test_py_raw_body [OF m n b c], of lines]
    by (simp only: cgi_output.select_convs)
  also have "\<dots> = [py ''Content-Type: text/plain'', [], py ''=== CGI TEST.PY ==='', py ''Method: POST'',
        py ''Query string: '', py ''Content-Type: application/x-www-form-urlencoded'',
        py ''Raw body: a=1&b'']"
    by (simp add: post_form_example_def environ_get_def cgi_header_def test_banner_def
        test_query_lines_def print_line_def)
  finally show "lines (test_py db loads str_of ?r) = [py ''Content-Type: text/plain'', [],
        py ''=== CGI TEST.PY ==='', py ''Method: POST'',
        py ''Query string: '', py ''Content-Type: application/x-www-form-urlencoded'',
        py ''Raw body: a=1&b'']" .
qed

text \<open>C23: a POST with a JSON content type whose body json.loads rejects ends
  normally with the last line JSON error: followed by the exception's message; the
  exception never escapes.\<close>

theorem test_py_json_error:
  assumes "environ_get r (py ''REQUEST_METHOD'') [] = py ''POST''"
    and "environ_int db r (py ''CONTENT_LENGTH'') = Inr n" "stdin_read r n = Some (Inr body)"
    and "contains (py ''application/json'') (environ_get r (py ''CONTENT_TYPE'') [])"
    and "loads body = Inl msg"
  shows "status (test_py db loads str_of r) = Exited
    \<and> last (lines (test_py db loads str_of r)) = py ''JSON error: '' @ msg"
  using assms by (simp add: test_py_def test_body_line_def print_line_def)

theorem test_py_json_error_witness:
  "\<forall>db (str_of :: unit \<Rightarrow> pystr).
     status (test_py db (\<lambda>s. Inl (py ''Expecting value: line 1 column 1 (char 0)'')) str_of
       (post_form_example\<lparr>environ := [(py ''REQUEST_METHOD'', py ''POST''), (py ''CONTENT_LENGTH'', py ''5''),
          (py ''CONTENT_TYPE'', py ''application/json'')]\<rparr>)) = Exited"
proof (intro allI)
  fix db and str_of :: "unit \<Rightarrow> pystr"
  let ?r = "post_form_example\<lparr>environ := [(py ''REQUEST_METHOD'', py ''POST''), (py ''CONTENT_LENGTH'', py ''5''),
          (py ''CONTENT_TYPE'', py ''application/json'')]\<rparr>"
  have m: "environ_get ?r (py ''REQUEST_METHOD'') [] = py ''POST''"
    by (simp add: environ_get_def)
  have n: "environ_int db ?r (py ''CONTENT_LENGTH'') = Inr (int 5)"
    by (simp add: environ_int_def int_eval)
  have "stdin_read ?r (int 5) = Some (Inr (take 5 (map unat (concat (stdin_chunks ?r)))))"
    by (rule stdin_read_ascii) (simp_all add: post_form_example_def ascii_bytes_def ssize_max_def)
  then have b: "stdin_read ?r (int 5) = Some (Inr (py ''a=1&b''))"
    by (simp add: post_form_example_def)
  have c: "contains (py ''application/json'') (environ_get ?r (py ''CONTENT_TYPE'') [])"
    by (simp add: environ_get_def)
  have l: "(\<lambda>s. Inl (py ''Expecting value: line 1 column 1 (char 0)'') :: pystr + unit) (py ''a=1&b'')
      = Inl (py ''Expecting value: line 1 column 1 (char 0)'')" by simp
  show "status (test_py db (\<lambda>s. Inl (py ''Expecting value: line 1 column 1 (char 0)'')) str_of ?r) = Exited"
    using test_py_json_error [OF m n b c l] by (simp only: simp_thms)
qed

text \<open>C21: a POST with a negative CONTENT_LENGTH reads to the end of the stream,
  so while the server keeps the pipe open test.py never finishes.\<close>

theorem test_py_negative_length:
  assumes "environ_get r (py ''REQUEST_METHOD'') [] = py ''POST''"
    and "environ_int db r (py ''CONTENT_LENGTH'') = Inr n" "n < 0" "ssize_min \<le> n"
    and "\<not> stdin_eof r"
  shows "status (test_py db loads str_of r) = Blocked"
  using assms by (simp add: test_py_def stdin_read_def ssize_max_def)

theorem test_py_negative_length_witness:
  "\<forall>db (loads :: pystr \<Rightarrow> pystr + unit) str_of.
     status (test_py db loads str_of (post_form_example\<lparr>environ := [(py ''REQUEST_METHOD'', py ''POST''),
       (py ''CONTENT_LENGTH'', py ''-1'')]\<rparr>)) = Blocked"
proof (intro allI)
  fix db and loads :: "pystr \<Rightarrow> pystr + unit" and str_of
  let ?r = "post_form_example\<lparr>environ := [(py ''REQUEST_METHOD'', py ''POST''), (py ''CONTENT_LENGTH'', py ''-1'')]\<rparr>"
  have m: "environ_get ?r (py ''REQUEST_METHOD'') [] = py ''POST''"
    by (simp add: environ_get_def)
  have n: "environ_int db ?r (py ''CONTENT_LENGTH'') = Inr (-1)"
    by (simp add: environ_int_def int_eval)
  show "status (test_py db loads str_of ?r) = Blocked"
    by (rule test_py_negative_length [OF m n]) (simp_all add: ssize_min_def post_form_example_def)
qed

text \<open>C22: under the strict handler of a UTF-8 locale, a POST whose first chunk of body holds an
  invalid UTF-8 sequence ends with UnicodeDecodeError, raised by read() before the content
  type or body is printed: a decoding failure aborts the report.\<close>

theorem test_py_invalid_utf8:
  assumes "environ_get r (py ''REQUEST_METHOD'') [] = py ''POST''"
    and "environ_int db r (py ''CONTENT_LENGTH'') = Inr (int n)" "0 < n" "int n \<le> ssize_max"
    and "stdin_chunks r = bs # cs" "stdin_errors r = Strict" "utf8_decode_partial Strict bs = Inl e"
  shows "status (test_py db loads str_of r) = Raised UnicodeDecodeError"
proof -
  have "e = UnicodeDecodeError"
    using assms(7) decode_pieces_error by (simp add: utf8_decode_partial_def Let_def)
  moreover have "stdin_read r (int n) = Some (Inl e)"
    using assms(3-7) read_chars_bad_first_chunk [of Strict bs e n cs]
    by (simp add: stdin_read_def ssize_min_def)
  ultimately show ?thesis using assms(1,2) by (simp add: test_py_def)
qed

theorem test_py_invalid_utf8_witness:
  "\<forall>db (loads :: pystr \<Rightarrow> pystr + unit) str_of.
     status (test_py db loads str_of (post_form_example\<lparr>environ := [(py ''REQUEST_METHOD'', py ''POST''),
       (py ''CONTENT_LENGTH'', py ''1''), (py ''CONTENT_TYPE'', py ''text/plain'')],
       stdin_chunks := [[0xFF]], stdin_eof := True\<rparr>)) = Raised UnicodeDecodeError"
proof (intro allI)
  fix db and loads :: "pystr \<Rightarrow> pystr + unit" and str_of
  let ?r = "post_form_example\<lparr>environ := [(py ''REQUEST_METHOD'', py ''POST''),
       (py ''CONTENT_LENGTH'', py ''1''), (py ''CONTENT_TYPE'', py ''text/plain'')],
       stdin_chunks := [[0xFF]], stdin_eof := True\<rparr>"
  have m: "environ_get ?r (py ''REQUEST_METHOD'') [] = py ''POST''"
    by (simp add: environ_get_def)
  have n: "environ_int db ?r (py ''CONTENT_LENGTH'') = Inr (int 1)"
    by (simp add: environ_int_def int_eval)
  have d: "utf8_decode_partial Strict [0xFF] = Inl UnicodeDecodeError"
    by (simp add: utf8_decode_partial_def utf8_next_def cont_ranges_def bad_text_def Let_def)
  show "status (test_py db loads str_of ?r) = Raised UnicodeDecodeError"
    by (rule test_py_invalid_utf8 [OF m n _ _ _ _ d]) (simp_all add: ssize_max_def post_form_example_def)
qed

end
