(* ===== verification/Json.thy ===== *)
theory Json
  imports Cgi_Env Url_Parse
begin

text \<open>
  \<open>json.loads(s)\<close> on a \<open>str\<close>, as test.py line 34 calls it, following CPython 3.12:
  \<open>loads\<close> and \<open>JSONDecoder.decode\<close>/\<open>raw_decode\<close> of \<open>Lib/json/\<close> and the C scanner of
  \<open>Modules/_json.c\<close> (\<open>scan_once_unicode\<close>, \<open>_parse_object_unicode\<close>,
  \<open>_parse_array_unicode\<close>, \<open>scanstring_unicode\<close> with \<open>strict=True\<close>,
  \<open>_match_number_unicode\<close>). Positions are indexes into the document, as in the C code.
  \<open>jscan\<close> is the scanner: one \<open>partial_function (option)\<close> whose mode argument selects
  \<open>scan_once\<close> or a state of the object and array loops, so that \<open>None\<close> would be a
  scan that does not return; \<open>json_decode_total\<close> shows that it always returns. Its
  argument \<open>d\<close> is the recursion budget of \<open>Py_EnterRecursiveCall\<close>: an object or array
  entered with no budget left raises \<open>RecursionError\<close>. A \<open>StopIteration\<close> of the scanner
  becomes \<open>Expecting value\<close> in \<open>raw_decode\<close>; every other error is a
  \<open>JSONDecodeError\<close> whose message carries line, column and position, or the
  \<open>ValueError\<close> of \<open>int()\<close> for an integer of more than 4300 digits. The decoded value is
  the datatype \<open>jval\<close>; a dict keeps its keys in order of first insertion and the last
  value of a repeated key (\<open>dict_set\<close>). A float is kept as its literal (the conversion to
  a double is not modelled), and \<open>str()\<close> of a float is a parameter of \<open>json_str\<close>.
  The trailing-comma messages of CPython 3.13 are not those of this model.
\<close>

datatype jval = JNull | JBool bool | JInt int | JFloat pystr | JNaN | JInf bool
  | JStr pystr | JArray "jval list" | JObject "(pystr \<times> jval) list"

datatype jmode = Scan | ObjStart | ObjMember "(pystr \<times> jval) list" | ArrStart | ArrElem "jval list"

definition json_ws :: "codepoint \<Rightarrow> bool" where
  "json_ws c \<longleftrightarrow> c = 32 \<or> c = 9 \<or> c = 10 \<or> c = 13"

definition skip_ws :: "pystr \<Rightarrow> nat \<Rightarrow> nat" where
  "skip_ws s i = i + length (takeWhile json_ws (drop i s))"

definition digits_end :: "pystr \<Rightarrow> nat \<Rightarrow> nat" where
  "digits_end s i = i + length (takeWhile ascii_digit (drop i s))"

definition decode_error :: "pystr \<Rightarrow> pystr \<Rightarrow> nat \<Rightarrow> py_exc" where
  "decode_error s msg pos =
     (let pre = take pos s in
      JSONDecodeError (msg @ py '': line '' @ decimal_str (count_list pre 10 + 1)
        @ py '' column '' @ decimal_str (length (takeWhile (\<lambda>c. c \<noteq> 10) (rev pre)) + 1)
        @ py '' (char '' @ decimal_str pos @ py '')''))"

definition hex4 :: "pystr \<Rightarrow> nat \<Rightarrow> codepoint option" where
  "hex4 s i =
     (let ds = take 4 (drop i s) in
      if length ds = 4 \<and> list_all is_hexdig ds then Some (foldl (\<lambda>a c. 16 * a + hexval c) 0 ds)
      else None)"

definition json_escape :: "codepoint \<Rightarrow> codepoint option" where
  "json_escape c =
     (if c = 34 \<or> c = 92 \<or> c = 47 then Some c
      else if c = 98 then Some 8 else if c = 102 then Some 12 else if c = 110 then Some 10
      else if c = 114 then Some 13 else if c = 116 then Some 9 else None)"

definition is_high_surrogate :: "codepoint \<Rightarrow> bool" where
  "is_high_surrogate c \<longleftrightarrow> 0xD800 \<le> c \<and> c \<le> 0xDBFF"

definition is_low_surrogate :: "codepoint \<Rightarrow> bool" where
  "is_low_surrogate c \<longleftrightarrow> 0xDC00 \<le> c \<and> c \<le> 0xDFFF"

definition join_surrogates :: "codepoint \<Rightarrow> codepoint \<Rightarrow> codepoint" where
  "join_surrogates hi lo = 0x10000 + (hi - 0xD800) * 0x400 + (lo - 0xDC00)"

definition unterminated :: pystr where "unterminated = py ''Unterminated string starting at''"
definition bad_u_escape :: pystr where "bad_u_escape = py ''Invalid '' @ [92] @ py ''uXXXX escape''"

function scanstring :: "pystr \<Rightarrow> nat \<Rightarrow> nat \<Rightarrow> pystr \<Rightarrow> py_exc + pystr \<times> nat" where
  "scanstring s begin i acc =
     (if length s \<le> i then Inl (decode_error s unterminated begin)
      else if s ! i = 34 then Inr (acc, i + 1)
      else if s ! i = 92 then
        (if Suc i = length s then Inl (decode_error s unterminated begin)
         else if s ! Suc i \<noteq> 117 then
           (case json_escape (s ! Suc i) of
              None \<Rightarrow> Inl (decode_error s (py ''Invalid '' @ [92] @ py ''escape'') i)
            | Some c \<Rightarrow> scanstring s begin (i + 2) (acc @ [c]))
         else if length s \<le> i + 6 then Inl (decode_error s bad_u_escape (i + 1))
         else (case hex4 s (i + 2) of
                 None \<Rightarrow> Inl (decode_error s bad_u_escape (i + 1))
               | Some c \<Rightarrow>
                   if is_high_surrogate c \<and> i + 12 < length s \<and> s ! (i + 6) = 92 \<and> s ! (i + 7) = 117
                   then (case hex4 s (i + 8) of
                           None \<Rightarrow> Inl (decode_error s bad_u_escape (i + 7))
                         | Some c2 \<Rightarrow>
                             if is_low_surrogate c2 then scanstring s begin (i + 12) (acc @ [join_surrogates c c2])
                             else scanstring s begin (i + 6) (acc @ [c]))
                   else scanstring s begin (i + 6) (acc @ [c])))
      else if s ! i \<le> 0x1F then Inl (decode_error s (py ''Invalid control character at'') i)
      else scanstring s begin (Suc i) (acc @ [s ! i]))"
  by pat_completeness auto
termination
  by (relation "measure (\<lambda>(s, begin, i, acc). length s - i)") auto

text \<open>\<open>_match_number_unicode\<close>: the fraction \<open>.d+\<close> after the integer part, and the
  exponent \<open>[eE][-+]?d+\<close>, which is given up (back to \<open>e_start\<close>) when it has no digit.\<close>

definition number_frac :: "pystr \<Rightarrow> nat \<Rightarrow> bool \<times> nat" where
  "number_frac s i =
     (if i + 1 < length s \<and> s ! i = 46 \<and> ascii_digit (s ! (i + 1)) then (True, digits_end s (i + 2))
      else (False, i))"

definition number_exp :: "pystr \<Rightarrow> bool \<Rightarrow> nat \<Rightarrow> bool \<times> nat" where
  "number_exp s fl i =
     (if i + 1 < length s \<and> (s ! i = 101 \<or> s ! i = 69) then
        (let j = (if i + 2 < length s \<and> (s ! (i + 1) = 45 \<or> s ! (i + 1) = 43) then i + 2 else i + 1);
             k = digits_end s j
         in if ascii_digit (s ! (k - 1)) then (True, k) else (fl, i))
      else (fl, i))"

definition match_number :: "unicode_db \<Rightarrow> pystr \<Rightarrow> nat \<Rightarrow> py_exc + jval \<times> nat" where
  "match_number db s start =
     (let i0 = (if s ! start = 45 then Suc start else start) in
      if length s \<le> i0 then Inl (StopIteration start)
      else if \<not> ascii_digit (s ! i0) then Inl (StopIteration start)
      else
        (let i1 = (if s ! i0 = 48 then Suc i0 else digits_end s (Suc i0));
             (fl1, i2) = number_frac s i1;
             (fl, i3) = number_exp s fl1 i2;
             lit = take (i3 - start) (drop start s)
         in if fl then Inr (JFloat lit, i3)
            else (case py_int_str db lit of Inl e \<Rightarrow> Inl e | Inr n \<Rightarrow> Inr (JInt n, i3))))"

fun dict_set :: "(pystr \<times> jval) list \<Rightarrow> pystr \<Rightarrow> jval \<Rightarrow> (pystr \<times> jval) list" where
  "dict_set [] k v = [(k, v)]"
| "dict_set ((k', v') # d) k v = (if k' = k then (k', v) # d else (k', v') # dict_set d k v)"

definition expecting_comma :: pystr where
  "expecting_comma = py ''Expecting '' @ [39, 44, 39] @ py '' delimiter''"

definition expecting_colon :: pystr where
  "expecting_colon = py ''Expecting '' @ [39, 58, 39] @ py '' delimiter''"

definition recursion_msg :: "pystr \<Rightarrow> pystr" where
  "recursion_msg what = py ''maximum recursion depth exceeded while decoding a JSON '' @ what
     @ py '' from a unicode string''"

partial_function (option) jscan ::
    "unicode_db \<Rightarrow> pystr \<Rightarrow> nat \<Rightarrow> jmode \<Rightarrow> nat \<Rightarrow> (py_exc + jval \<times> nat) option" where
  "jscan db s d m i =
     (case m of
        Scan \<Rightarrow>
          (if length s \<le> i then Some (Inl (StopIteration i))
           else if s ! i = 34 then Some (map_sum id (\<lambda>(t, e). (JStr t, e)) (scanstring s i (Suc i) []))
           else if s ! i = 123 then
             (if d = 0 then Some (Inl (RecursionError (recursion_msg (py ''object''))))
              else jscan db s (d - 1) ObjStart (skip_ws s (Suc i)))
           else if s ! i = 91 then
             (if d = 0 then Some (Inl (RecursionError (recursion_msg (py ''array''))))
              else jscan db s (d - 1) ArrStart (skip_ws s (Suc i)))
           else if s ! i = 110 \<and> take 4 (drop i s) = py ''null'' then Some (Inr (JNull, i + 4))
           else if s ! i = 116 \<and> take 4 (drop i s) = py ''true'' then Some (Inr (JBool True, i + 4))
           else if s ! i = 102 \<and> take 5 (drop i s) = py ''false'' then Some (Inr (JBool False, i + 5))
           else if s ! i = 78 \<and> take 3 (drop i s) = py ''NaN'' then Some (Inr (JNaN, i + 3))
           else if s ! i = 73 \<and> take 8 (drop i s) = py ''Infinity'' then Some (Inr (JInf False, i + 8))
           else if s ! i = 45 \<and> take 9 (drop i s) = py ''-Infinity'' then Some (Inr (JInf True, i + 9))
           else Some (match_number db s i))
      | ObjStart \<Rightarrow>
          (if i < length s \<and> s ! i = 125 then Some (Inr (JObject [], Suc i))
           else jscan db s d (ObjMember []) i)
      | ObjMember acc \<Rightarrow>
          (if \<not> (i < length s \<and> s ! i = 34) then
             Some (Inl (decode_error s (py ''Expecting property name enclosed in double quotes'') i))
           else
             (case scanstring s i (Suc i) [] of
                Inl e \<Rightarrow> Some (Inl e)
              | Inr (key, j0) \<Rightarrow>
                  (let j = skip_ws s j0 in
                   if \<not> (j < length s \<and> s ! j = 58) then Some (Inl (decode_error s expecting_colon j))
                   else
                     jbind (jscan db s d Scan (skip_ws s (Suc j))) (\<lambda>(v, e).
                       let acc' = dict_set acc key v; k = skip_ws s e in
                       if k < length s \<and> s ! k = 125 then Some (Inr (JObject acc', Suc k))
                       else if \<not> (k < length s \<and> s ! k = 44) then
                         Some (Inl (decode_error s expecting_comma k))
                       else jscan db s d (ObjMember acc') (skip_ws s (Suc k))))))
      | ArrStart \<Rightarrow>
          (if i < length s \<and> s ! i = 93 then Some (Inr (JArray [], Suc i))
           else jscan db s d (ArrElem []) i)
      | ArrElem acc \<Rightarrow>
          jbind (jscan db s d Scan i) (\<lambda>(v, e).
            let acc' = acc @ [v]; k = skip_ws s e in
            if k < length s \<and> s ! k = 93 then Some (Inr (JArray acc', Suc k))
            else if \<not> (k < length s \<and> s ! k = 44) then Some (Inl (decode_error s expecting_comma k))
            else jscan db s d (ArrElem acc') (skip_ws s (Suc k))))"

definition json_decode :: "unicode_db \<Rightarrow> nat \<Rightarrow> pystr \<Rightarrow> (py_exc + jval) option" where
  "json_decode db d s =
     (if s \<noteq> [] \<and> hd s = 0xFEFF then
        Some (Inl (decode_error s (py ''Unexpected UTF-8 BOM (decode using utf-8-sig)'') 0))
      else
        (case jscan db s d Scan (skip_ws s 0) of
           None \<Rightarrow> None
         | Some (Inl (StopIteration p)) \<Rightarrow> Some (Inl (decode_error s (py ''Expecting value'') p))
         | Some (Inl e) \<Rightarrow> Some (Inl e)
         | Some (Inr (v, e)) \<Rightarrow>
             (let e' = skip_ws s e in
              if e' \<noteq> length s then Some (Inl (decode_error s (py ''Extra data'') e')) else Some (Inr v))))"

fun jnest :: "nat \<Rightarrow> jval" where
  "jnest 0 = JArray []"
| "jnest (Suc n) = JArray [jnest n]"

text \<open>The exceptions \<open>json.loads\<close> and its scanner raise.\<close>

fun json_raises :: "py_exc \<Rightarrow> bool" where
  "json_raises (JSONDecodeError m) = True"
| "json_raises (ValueError m) = True"
| "json_raises (RecursionError m) = True"
| "json_raises (StopIteration p) = True"
| "json_raises _ = False"

text \<open>What the totality proof tracks: a successful scan from \<open>i\<close> ends after \<open>i\<close>, inside the
  document.\<close>

definition jprog :: "pystr \<Rightarrow> nat \<Rightarrow> (py_exc + 'a \<times> nat) \<Rightarrow> bool" where
  "jprog s i r \<longleftrightarrow> (case r of Inl _ \<Rightarrow> True | Inr (_, e) \<Rightarrow> i < e \<and> e \<le> length s)"

text \<open>\<open>json.loads(s)\<close>: the decoder returns on every input (\<open>json_decode_total\<close>), and
  \<open>str(e)\<close> of the exceptions it raises is their message.\<close>

definition json_loads :: "unicode_db \<Rightarrow> nat \<Rightarrow> pystr \<Rightarrow> py_exc + jval" where
  "json_loads db d s = the (json_decode db d s)"

fun exc_message :: "py_exc \<Rightarrow> pystr" where
  "exc_message (JSONDecodeError m) = m"
| "exc_message (ValueError m) = m"
| "exc_message (RecursionError m) = m"
| "exc_message _ = []"

definition json_loads_str :: "unicode_db \<Rightarrow> nat \<Rightarrow> pystr \<Rightarrow> pystr + jval" where
  "json_loads_str db d s = (case json_loads db d s of Inl e \<Rightarrow> Inl (exc_message e) | Inr v \<Rightarrow> Inr v)"

text \<open>\<open>str()\<close> of the decoded value, as \<open>print\<close> writes it: \<open>repr\<close> of the items of lists
  and dicts, \<open>None\<close>, \<open>True\<close>, \<open>False\<close>, decimal ints; \<open>repr\<close> of a float is the
  parameter \<open>float_repr\<close> of its literal (CPython's shortest round-trip repr is not
  modelled), and the three constants print as \<open>nan\<close>, \<open>inf\<close>, \<open>-inf\<close>. A top-level
  string prints as itself.\<close>

definition int_str :: "int \<Rightarrow> pystr" where
  "int_str n = (if n < 0 then 45 # decimal_str (nat (- n)) else decimal_str (nat n))"

fun json_repr :: "unicode_db \<Rightarrow> (pystr \<Rightarrow> pystr) \<Rightarrow> jval \<Rightarrow> pystr" where
  "json_repr db fr JNull = py ''None''"
| "json_repr db fr (JBool b) = (if b then py ''True'' else py ''False'')"
| "json_repr db fr (JInt n) = int_str n"
| "json_repr db fr (JFloat lit) = fr lit"
| "json_repr db fr JNaN = py ''nan''"
| "json_repr db fr (JInf neg) = (if neg then py ''-inf'' else py ''inf'')"
| "json_repr db fr (JStr t) = repr_str db t"
| "json_repr db fr (JArray vs) = py ''['' @ join (py '', '') (map (json_repr db fr) vs) @ py '']''"
| "json_repr db fr (JObject kvs) =
     py ''{'' @ join (py '', '') (map (\<lambda>(k, v). repr_str db k @ py '': '' @ json_repr db fr v) kvs) @ py ''}''"

definition json_str :: "unicode_db \<Rightarrow> (pystr \<Rightarrow> pystr) \<Rightarrow> jval \<Rightarrow> pystr" where
  "json_str db fr v = (case v of JStr t \<Rightarrow> t | _ \<Rightarrow> json_repr db fr v)"

subsection \<open>Each step of the scanner moves forward\<close>

declare scanstring.simps [simp del]
lemma scanstring_progress:
  "scanstring s b i acc = Inr (t, e) \<Longrightarrow> i < e \<and> e \<le> length s"
proof (induction "length s - i" arbitrary: i acc rule: less_induct)
  case (less i acc)
  have IH: "scanstring s b i' acc' = Inr (t, e) \<Longrightarrow> i < i' \<Longrightarrow> i < length s \<Longrightarrow> i < e \<and> e \<le> length s"
    for i' acc'
    using less.hyps [of i' acc'] by (meson diff_less_mono2 order.strict_trans)
  from less.prems show ?case
    apply (subst (asm) scanstring.simps)
    apply (simp split: if_split_asm option.split_asm)
    apply (auto dest!: IH)
    done
qed

lemma digits_end_ge: "i \<le> digits_end s i"
  by (simp add: digits_end_def)

lemma digits_end_le: "i \<le> length s \<Longrightarrow> digits_end s i \<le> length s"
  using length_takeWhile_le [of ascii_digit "drop i s"] by (simp add: digits_end_def)

lemma number_frac_bounds:
  "i \<le> length s \<Longrightarrow> i \<le> snd (number_frac s i) \<and> snd (number_frac s i) \<le> length s"
  using digits_end_ge [of "i + 2" s] digits_end_le [of "i + 2" s] by (simp add: number_frac_def)

lemma number_exp_bounds:
  "i \<le> length s \<Longrightarrow> i \<le> snd (number_exp s fl i) \<and> snd (number_exp s fl i) \<le> length s"
  using digits_end_ge [of "i + 2" s] digits_end_le [of "i + 2" s]
    digits_end_ge [of "i + 1" s] digits_end_le [of "i + 1" s]
  by (simp add: number_exp_def Let_def)

lemma match_number_progress:
  assumes "i < length s" "match_number db s i = Inr (v, e)"
  shows "i < e \<and> e \<le> length s"
proof -
  define i0 where "i0 = (if s ! i = 45 then Suc i else i)"
  from assms(2) have l0: "i0 < length s" and d0: "ascii_digit (s ! i0)"
    by (simp_all add: match_number_def i0_def [symmetric] Let_def split: if_splits)
  define i1 where "i1 = (if s ! i0 = 48 then Suc i0 else digits_end s (Suc i0))"
  have i1: "i < i1 \<and> i1 \<le> length s"
    using l0 digits_end_ge [of "Suc i0" s] digits_end_le [of "Suc i0" s] by (auto simp: i1_def i0_def)
  let ?i2 = "snd (number_frac s i1)" and ?fl1 = "fst (number_frac s i1)"
  have i2: "i1 \<le> ?i2 \<and> ?i2 \<le> length s" using i1 by (simp add: number_frac_bounds)
  have i3: "?i2 \<le> snd (number_exp s ?fl1 ?i2) \<and> snd (number_exp s ?fl1 ?i2) \<le> length s"
    using i2 by (simp add: number_exp_bounds)
  have "e = snd (number_exp s ?fl1 ?i2)"
    using assms(2) l0 d0
    by (auto simp: match_number_def i0_def [symmetric] i1_def [symmetric] Let_def split_def
        split: if_splits sum.splits)
  with i1 i2 i3 show ?thesis by simp
qed

lemmas jscan_Scan = jscan.simps [of _ _ _ Scan, unfolded jmode.case]
lemmas jscan_ArrStart = jscan.simps [of _ _ _ ArrStart, unfolded jmode.case]
lemmas jscan_ArrElem = jscan.simps [of _ _ _ "ArrElem acc" for acc, unfolded jmode.case]
lemmas jscan_ObjStart = jscan.simps [of _ _ _ ObjStart, unfolded jmode.case]
lemmas jscan_ObjMember = jscan.simps [of _ _ _ "ObjMember acc" for acc, unfolded jmode.case]

lemma jprog_simps [simp]:
  "jprog s i (Inl x) = True" "jprog s i (Inr (v, e)) \<longleftrightarrow> i < e \<and> e \<le> length s"
  by (simp_all add: jprog_def)

lemma jprog_mono: "jprog s j r \<Longrightarrow> i \<le> j \<Longrightarrow> jprog s i r"
  by (auto simp: jprog_def split: sum.splits)

lemma skip_ws_ge: "i \<le> skip_ws s i"
  by (simp add: skip_ws_def)

lemma skip_ws_le: "i \<le> length s \<Longrightarrow> skip_ws s i \<le> length s"
  using length_takeWhile_le [of json_ws "drop i s"] by (simp add: skip_ws_def)

lemma take_drop_length: "take k (drop i s) = w \<Longrightarrow> length w = k \<Longrightarrow> 0 < k \<Longrightarrow> i + k \<le> length s"
  by (auto simp: min_def split: if_splits)

lemma jscan_Scan_total:
  assumes rec: "\<And>m j. 0 < d \<Longrightarrow> \<exists>r. jscan db s (d - 1) m j = Some r \<and> jprog s j r"
  shows "\<exists>r. jscan db s d Scan i = Some r \<and> jprog s i r"
proof (cases "length s \<le> i")
  case True
  then show ?thesis by (simp add: jscan_Scan [of db s d i])
next
  case False
  have sub: "\<exists>r. jscan db s (d - 1) m (skip_ws s (Suc i)) = Some r \<and> jprog s i r" if "0 < d" for m
    using rec [OF that, of m "skip_ws s (Suc i)"] skip_ws_ge [of "Suc i" s]
    by (meson jprog_mono le_SucI le_trans order_refl Suc_leD)
  have str: "jprog s i (map_sum id (\<lambda>(t, e). (JStr t, e)) (scanstring s i (Suc i) []))"
    by (cases "scanstring s i (Suc i) []") (auto dest: scanstring_progress)
  have num: "jprog s i (match_number db s i)"
    using match_number_progress [of i s db] False by (cases "match_number db s i") auto
  show ?thesis
    using False sub str num
    by (simp add: jscan_Scan [of db s d i]) (auto dest!: take_drop_length)
qed

lemma jscan_ArrElem_total:
  assumes scan: "\<And>j. \<exists>r. jscan db s d Scan j = Some r \<and> jprog s j r"
  shows "\<exists>r. jscan db s d (ArrElem acc) i = Some r \<and> jprog s i r"
proof (induction "length s - i" arbitrary: i acc rule: less_induct)
  case (less i acc)
  obtain r where r: "jscan db s d Scan i = Some r" "jprog s i r" using scan by blast
  show ?case
  proof (cases r)
    case (Inl x)
    with r show ?thesis by (simp add: jscan_ArrElem [of db s d acc i])
  next
    case (Inr ve)
    obtain v e where ve: "ve = (v, e)" by (cases ve)
    with Inr r have ie: "i < e" "e \<le> length s" by simp_all
    define k where "k = skip_ws s e"
    have k: "e \<le> k" "k \<le> length s" using ie skip_ws_ge skip_ws_le by (simp_all add: k_def)
    define j where "j = skip_ws s (Suc k)"
    have j: "Suc k \<le> j" using skip_ws_ge by (simp add: j_def)
    have "\<exists>r'. jscan db s d (ArrElem (acc @ [v])) j = Some r' \<and> jprog s i r'" if "k < length s"
    proof -
      have "length s - j < length s - i" using that ie k j by linarith
      then obtain r' where "jscan db s d (ArrElem (acc @ [v])) j = Some r'" "jprog s j r'"
        using less.hyps by blast
      moreover have "i \<le> j" using ie k j by linarith
      ultimately show ?thesis using jprog_mono by blast
    qed
    then show ?thesis
      using r Inr ve ie k
      by (auto simp: jscan_ArrElem [of db s d acc i] k_def [symmetric] j_def [symmetric] Let_def)
  qed
qed

lemma jscan_ObjMember_total:
  assumes scan: "\<And>j. \<exists>r. jscan db s d Scan j = Some r \<and> jprog s j r"
  shows "\<exists>r. jscan db s d (ObjMember acc) i = Some r \<and> jprog s i r"
proof (induction "length s - i" arbitrary: i acc rule: less_induct)
  case (less i acc)
  show ?case
  proof (cases "i < length s \<and> s ! i = 34")
    case False
    then show ?thesis by (simp add: jscan_ObjMember [of db s d acc i])
  next
    case q: True
    show ?thesis
    proof (cases "scanstring s i (Suc i) []")
      case (Inl x)
      with q show ?thesis by (simp add: jscan_ObjMember [of db s d acc i])
    next
      case (Inr kj)
      obtain key j0 where kj: "kj = (key, j0)" by (cases kj)
      with Inr have j0: "Suc i < j0" "j0 \<le> length s" using scanstring_progress by blast+
      define j where "j = skip_ws s j0"
      have j: "j0 \<le> j" "j \<le> length s" using j0 skip_ws_ge skip_ws_le by (simp_all add: j_def)
      define j' where "j' = skip_ws s (Suc j)"
      have j': "Suc j \<le> j'" using skip_ws_ge by (simp add: j'_def)
      obtain r where r: "jscan db s d Scan j' = Some r" "jprog s j' r" using scan by blast
      show ?thesis
      proof (cases r)
        case (Inl x)
        with q Inr kj r show ?thesis
          by (auto simp: jscan_ObjMember [of db s d acc i] j_def [symmetric] j'_def [symmetric] Let_def)
      next
        case (Inr ve)
        obtain v e where ve: "ve = (v, e)" by (cases ve)
        with Inr r have ie: "j' < e" "e \<le> length s" by simp_all
        define k where "k = skip_ws s e"
        have k: "e \<le> k" "k \<le> length s" using ie skip_ws_ge skip_ws_le by (simp_all add: k_def)
        define l where "l = skip_ws s (Suc k)"
        have l: "Suc k \<le> l" using skip_ws_ge by (simp add: l_def)
        have "\<exists>r'. jscan db s d (ObjMember (dict_set acc key v)) l = Some r' \<and> jprog s i r'"
          if "k < length s"
        proof -
          have "length s - l < length s - i" using that j0 j j' ie k l by linarith
          then obtain r' where "jscan db s d (ObjMember (dict_set acc key v)) l = Some r'" "jprog s l r'"
            using less.hyps by blast
          moreover have "i \<le> l" using j0 j j' ie k l by linarith
          ultimately show ?thesis using jprog_mono by blast
        qed
        then show ?thesis
          using q \<open>scanstring s i (Suc i) [] = Inr kj\<close> kj r Inr ve ie k j j0 j'
          by (auto simp: jscan_ObjMember [of db s d acc i] j_def [symmetric] j'_def [symmetric]
              k_def [symmetric] l_def [symmetric] Let_def)
      qed
    qed
  qed
qed

lemma jscan_total: "\<exists>r. jscan db s d m i = Some r \<and> jprog s i r"
proof (induction d arbitrary: m i rule: less_induct)
  case (less d)
  have scan: "\<exists>r. jscan db s d Scan j = Some r \<and> jprog s j r" for j
    by (rule jscan_Scan_total) (use less.IH in simp)
  have elem: "\<exists>r. jscan db s d (ArrElem acc) j = Some r \<and> jprog s j r" for acc j
    using scan by (rule jscan_ArrElem_total)
  have memb: "\<exists>r. jscan db s d (ObjMember acc) j = Some r \<and> jprog s j r" for acc j
    using scan by (rule jscan_ObjMember_total)
  show ?case
  proof (cases m)
    case ObjStart
    then show ?thesis using memb [of "[]" i] by (simp add: jscan_ObjStart [of db s d i])
  next
    case ArrStart
    then show ?thesis using elem [of "[]" i] by (simp add: jscan_ArrStart [of db s d i])
  qed (use scan elem memb in simp_all)
qed

lemma json_decode_Some: "\<exists>r. json_decode db d s = Some r"
proof -
  obtain r where "jscan db s d Scan (skip_ws s 0) = Some r" using jscan_total by blast
  then show ?thesis
    by (auto simp: json_decode_def Let_def split: sum.splits py_exc.splits)
qed

lemma json_decode_loads: "json_decode db d s = Some (json_loads db d s)"
  using json_decode_Some [of db d s] by (auto simp: json_loads_def)

lemma skip_ws_nonws: "i < length s \<Longrightarrow> \<not> json_ws (s ! i) \<Longrightarrow> skip_ws s i = i"
  by (simp add: skip_ws_def Cons_nth_drop_Suc [symmetric])

lemma brackets_nth:
  "i < m \<Longrightarrow> (replicate m (91::nat) @ replicate m 93) ! i = 91"
  "m \<le> i \<Longrightarrow> i < 2 * m \<Longrightarrow> (replicate m (91::nat) @ replicate m 93) ! i = 93"
  by (simp_all add: nth_append)

lemma jscan_brackets:
  assumes "m = i + Suc n"
  shows "jscan db (replicate m 91 @ replicate m 93) d Scan i =
    (if n < d then Some (Inr (jnest n, i + 2 * n + 2))
     else Some (Inl (RecursionError (recursion_msg (py ''array'')))))"
  using assms
proof (induction n arbitrary: i d)
  case 0
  let ?s = "replicate m (91::nat) @ replicate m 93"
  show ?case
  proof (cases d)
    case 0
    then show ?thesis using brackets_nth(1) [of i m] "0.prems" by (simp add: jscan_Scan)
  next
    case (Suc d')
    have w: "skip_ws ?s (Suc i) = Suc i"
      using brackets_nth(2) [of m "Suc i"] "0.prems" by (intro skip_ws_nonws) (simp_all add: json_ws_def)
    show ?thesis
      using brackets_nth(1) [of i m] brackets_nth(2) [of m "Suc i"] "0.prems" Suc w
      by (simp add: jscan_Scan jscan_ArrStart)
  qed
next
  case (Suc n)
  let ?s = "replicate m (91::nat) @ replicate m 93"
  show ?case
  proof (cases d)
    case 0
    then show ?thesis using brackets_nth(1) [of i m] Suc.prems by (simp add: jscan_Scan)
  next
    case (Suc d')
    have w: "skip_ws ?s (Suc i) = Suc i"
      using brackets_nth(1) [of "Suc i" m] Suc.prems by (intro skip_ws_nonws) (simp_all add: json_ws_def)
    have IH: "jscan db ?s d' Scan (Suc i) =
      (if n < d' then Some (Inr (jnest n, Suc i + 2 * n + 2))
       else Some (Inl (RecursionError (recursion_msg (py ''array'')))))"
      using Suc.IH [of "Suc i" d'] Suc.prems by simp
    have c: "?s ! (Suc i + 2 * n + 2) = 93" "Suc i + 2 * n + 2 < length ?s"
      using brackets_nth(2) [of m "Suc i + 2 * n + 2"] Suc.prems by simp_all
    have w2: "skip_ws ?s (Suc i + 2 * n + 2) = Suc i + 2 * n + 2"
      using c by (intro skip_ws_nonws) (simp_all add: json_ws_def)
    have e: "i + 2 * Suc n + 2 = Suc (Suc i + 2 * n + 2)" by simp
    have o: "?s ! i = 91" "?s ! Suc i = 91" "i < length ?s" "Suc i < length ?s"
      using brackets_nth(1) [of i m] brackets_nth(1) [of "Suc i" m] Suc.prems by simp_all
    show ?thesis
      unfolding e jscan_Scan [of db ?s d i]
      using o \<open>d = Suc d'\<close> w IH c w2
      by (simp add: jscan_ArrStart jscan_ArrElem Let_def)
  qed
qed

text \<open>C13: the recursion budget bounds the nesting exactly: n + 1 nested arrays decode when
  the budget exceeds n and raise RecursionError otherwise.\<close>

theorem json_nesting_limit:
  "json_decode db d (replicate (Suc n) 91 @ replicate (Suc n) 93) =
     (if n < d then Some (Inr (jnest n))
      else Some (Inl (RecursionError (recursion_msg (py ''array'')))))"
proof -
  let ?s = "replicate (Suc n) (91::nat) @ replicate (Suc n) 93"
  have w: "skip_ws ?s 0 = 0" by (intro skip_ws_nonws) (simp_all add: json_ws_def)
  have e: "skip_ws ?s (2 * n + 2) = 2 * n + 2" by (simp add: skip_ws_def)
  show ?thesis
    using jscan_brackets [of "Suc n" 0 n db d] w e by (simp add: json_decode_def)
qed

lemma scanstring_plain:
  assumes "\<forall>c\<in>set t. c \<noteq> 34 \<and> c \<noteq> 92 \<and> 31 < c"
  shows "scanstring (p @ t @ 34 # r) b (length p) acc = Inr (acc @ t, length p + length t + 1)"
  using assms
proof (induction t arbitrary: p acc)
  case Nil
  then show ?case by (simp add: scanstring.simps [of _ _ "length p"])
next
  case (Cons c t)
  have "scanstring ((p @ [c]) @ t @ 34 # r) b (length (p @ [c])) (acc @ [c]) =
      Inr ((acc @ [c]) @ t, length (p @ [c]) + length t + 1)"
    using Cons by (intro Cons.IH) simp
  with Cons.prems show ?case by (simp add: scanstring.simps [of _ _ "length p"] nth_append)
qed

text \<open>C15: a JSON string literal without escapes, quotes or control characters decodes to its
  contents.\<close>

theorem json_string_plain:
  assumes "\<forall>c\<in>set t. c \<noteq> 34 \<and> c \<noteq> 92 \<and> 31 < c"
  shows "json_decode db d (34 # t @ [34]) = Some (Inr (JStr t))"
proof -
  have "scanstring ([34] @ t @ 34 # []) 0 (length [34::nat]) [] = Inr ([] @ t, length [34::nat] + length t + 1)"
    using assms by (rule scanstring_plain)
  then have s: "scanstring (34 # t @ [34]) 0 (Suc 0) [] = Inr (t, length t + 2)" by simp
  have w: "skip_ws (34 # t @ [34]) 0 = 0" by (simp add: skip_ws_def json_ws_def)
  have e: "skip_ws (34 # t @ [34]) (length t + 2) = length t + 2" by (simp add: skip_ws_def)
  show ?thesis using s w e by (simp add: json_decode_def jscan_Scan)
qed

theorem json_string_plain_witness:
  "\<forall>db d. json_decode db d (34 # py ''hello'' @ [34]) = Some (Inr (JStr (py ''hello'')))"
  using json_string_plain [of "py ''hello''"] by simp

lemma scanstring_raises: "scanstring s b i acc = Inl e \<Longrightarrow> \<exists>m. e = JSONDecodeError m"
proof (induction "length s - i" arbitrary: i acc rule: less_induct)
  case (less i acc)
  have IH: "scanstring s b i' acc' = Inl e \<Longrightarrow> i < i' \<Longrightarrow> i < length s \<Longrightarrow> \<exists>m. e = JSONDecodeError m"
    for i' acc'
    using less.hyps [of i' acc'] by (meson diff_less_mono2)
  from less.prems show ?case
    apply (subst (asm) scanstring.simps)
    apply (simp add: decode_error_def Let_def split: if_split_asm option.split_asm)
    apply (auto dest!: IH)
    done
qed

lemma py_int_str_raises: "py_int_str db s = Inl e \<Longrightarrow> \<exists>m. e = ValueError m"
  by (auto simp: py_int_str_def int_error_def Let_def split: if_splits option.splits list.splits prod.splits)

lemma match_number_raises: "match_number db s i = Inl e \<Longrightarrow> json_raises e"
  by (auto simp: match_number_def Let_def split: if_splits prod.splits sum.splits
      dest: py_int_str_raises)

lemma map_sum_id_Inl [simp]: "map_sum id f x = Inl e \<longleftrightarrow> x = Inl e"
  by (cases x) auto

lemma jscan_raises:
  assumes ret: "jscan db s d m i = Some r"
  shows "\<forall>e. r = Inl e \<longrightarrow> json_raises e"
  apply (rule jscan.raw_induct [where P = "\<lambda>db s d m i r. \<forall>e. r = Inl e \<longrightarrow> json_raises e", OF _ ret])
  subgoal premises prems for f db s d m i r
  proof -
    have IH: "f db s d m i = Some (Inl e) \<Longrightarrow> json_raises e" for db s d m i e
      using prems(1) by blast
    have S: "scanstring s b i acc = Inl e \<Longrightarrow> json_raises e" for s b i acc e
      using scanstring_raises by fastforce
    show ?thesis
      using prems(2)
      by (cases m) (auto simp: decode_error_def Let_def split: if_splits sum.splits prod.splits
          dest!: jbind_Inl dest: S match_number_raises IH)
  qed
  done

text \<open>C9: json.loads returns on every document and every recursion budget: the scanner, a
  partial function, never fails to return.\<close>

theorem json_decode_total: "\<exists>r. json_decode db d s = Some r"
  by (rule json_decode_Some)

text \<open>C14: every exception json.loads raises is a JSONDecodeError, the ValueError of int() or
  a RecursionError, all subclasses of Exception, and str() of it is its message.\<close>

theorem json_loads_exceptions:
  assumes "json_loads db d s = Inl e"
  shows "\<exists>m. (e = JSONDecodeError m \<or> e = ValueError m \<or> e = RecursionError m) \<and> exc_message e = m"
proof -
  have dec: "json_decode db d s = Some (Inl e)" using assms json_decode_loads [of db d s] by simp
  show ?thesis
  proof (cases "s \<noteq> [] \<and> hd s = 0xFEFF")
    case True
    with dec show ?thesis by (auto simp: json_decode_def decode_error_def Let_def)
  next
    case False
    obtain r where r: "jscan db s d Scan (skip_ws s 0) = Some r" using jscan_total by blast
    have "\<forall>e. r = Inl e \<longrightarrow> json_raises e" using r by (rule jscan_raises)
    with False dec r show ?thesis
      by (auto simp: json_decode_def decode_error_def Let_def
          split: sum.splits prod.splits if_splits py_exc.split_asm elim: json_raises.elims)
  qed
qed

lemmas json_eval = json_decode_def jscan_Scan jscan_ArrStart jscan_ArrElem jscan_ObjStart
  jscan_ObjMember skip_ws_def json_ws_def match_number_def number_frac_def number_exp_def
  ascii_digit_def decode_error_def decimal_str_def decimal_digits.simps digits_end_def int_eval
  expecting_comma_def expecting_colon_def hex4_def json_escape_def is_high_surrogate_def
  is_low_surrogate_def join_surrogates_def is_hexdig_def hexval_def unterminated_def
  bad_u_escape_def recursion_msg_def scanstring.simps

theorem json_loads_exceptions_witness:
  "\<forall>db. \<exists>m. json_loads db 0 (py ''[]'') = Inl (RecursionError m) \<and> exc_message (RecursionError m) = m"
proof
  fix db
  have "json_decode db 0 (py ''[]'') = Some (Inl (RecursionError (recursion_msg (py ''array''))))"
    by (simp add: json_eval cong: jbind_weak_cong)
  then have l: "json_loads db 0 (py ''[]'') = Inl (RecursionError (recursion_msg (py ''array'')))"
    using json_decode_loads [of db 0 "py ''[]''"] by simp
  from json_loads_exceptions [OF l] l show "\<exists>m. json_loads db 0 (py ''[]'') = Inl (RecursionError m)
      \<and> exc_message (RecursionError m) = m" by auto
qed


subsection \<open>Examples, as CPython 3.12 gives them\<close>

lemma json_example_object:
  "json_decode db 1 (py ''{'' @ 34 # py ''x'' @ 34 # py '':1}'') = Some (Inr (JObject [(py ''x'', JInt 1)]))"
  by (simp add: json_eval cong: jbind_weak_cong)

lemma json_example_not_json:
  "json_decode db d (py ''not json'') =
     Some (Inl (JSONDecodeError (py ''Expecting value: line 1 column 1 (char 0)'')))"
  by (simp add: json_eval cong: jbind_weak_cong)

lemma json_example_missing_comma:
  "json_decode db 1 (py ''[1,'' @ 10 # py '' 2x]'') =
     Some (Inl (JSONDecodeError (py ''Expecting '' @ [39, 44, 39] @ py '' delimiter: line 2 column 3 (char 6)'')))"
  by (simp add: json_eval cong: jbind_weak_cong)

lemma json_example_trailing_comma:
  "json_decode db 1 (py ''[1,]'') = Some (Inl (JSONDecodeError (py ''Expecting value: line 1 column 4 (char 3)'')))"
  by (simp add: json_eval cong: jbind_weak_cong)

lemma json_example_surrogate_pair:
  "json_decode db d (34 # 92 # py ''ud83d'' @ 92 # py ''ude00'' @ [34]) = Some (Inr (JStr [0x1F600]))"
  by (simp add: json_eval cong: jbind_weak_cong)

lemma json_example_exponent_backtrack:
  "json_decode db d (py ''1e'') = Some (Inl (JSONDecodeError (py ''Extra data: line 1 column 2 (char 1)'')))"
  by (simp add: json_eval cong: jbind_weak_cong)

end
