(* ===== verification/Test_Json.thy ===== *)
theory Test_Json
  imports Test_Cgi Json
begin

text \<open>
  test.py with the \<open>json.loads\<close> it calls: \<open>test_json_py\<close> is \<open>test_py\<close> with
  \<open>json_loads_str\<close> for \<open>loads\<close> and \<open>json_str\<close> for \<open>str_of\<close>, for a recursion budget
  \<open>d\<close> and a \<open>repr\<close> of floats \<open>fr\<close>. Printing the decoded value cannot raise: an int
  that \<open>json.loads\<close> returns has at most 4300 digits, so \<open>str()\<close> of it is within the
  limit, and the \<open>print\<close> of line 35 is inside the \<open>try\<close> anyway.
\<close>

definition test_json_py :: "unicode_db \<Rightarrow> nat \<Rightarrow> (pystr \<Rightarrow> pystr) \<Rightarrow> cgi_request \<Rightarrow> cgi_output" where
  "test_json_py db d fr r = test_py db (json_loads_str db d) (json_str db fr) r"

definition json_request :: "pystr \<Rightarrow> pystr \<Rightarrow> cgi_request" where
  "json_request cl body =
     \<lparr>environ = [(py ''REQUEST_METHOD'', py ''POST''), (py ''CONTENT_LENGTH'', cl),
                (py ''CONTENT_TYPE'', py ''application/json'')],
      stdin_chunks = [map of_nat body], stdin_eof = False, stdin_errors = Strict\<rparr>"

definition json_object_body :: pystr where
  "json_object_body = py ''{'' @ 34 # py ''x'' @ 34 # py '':1}''"

lemma test_json_request_read:
  assumes "list_all (\<lambda>c. c < 0x80) body" "py_int_str db cl = Inr (int (length body))"
    and "int (length body) \<le> ssize_max"
  shows "environ_get (json_request cl body) (py ''REQUEST_METHOD'') [] = py ''POST''"
    "environ_int db (json_request cl body) (py ''CONTENT_LENGTH'') = Inr (int (length body))"
    "stdin_read (json_request cl body) (int (length body)) = Some (Inr body)"
    "contains (py ''application/json'') (environ_get (json_request cl body) (py ''CONTENT_TYPE'') [])"
proof -
  show "environ_get (json_request cl body) (py ''REQUEST_METHOD'') [] = py ''POST''"
    by (simp add: json_request_def environ_get_def)
  show "environ_int db (json_request cl body) (py ''CONTENT_LENGTH'') = Inr (int (length body))"
    using assms(2) by (simp add: json_request_def environ_int_def)
  have a: "ascii_bytes (map of_nat body :: byte list)"
    using assms(1) by (auto simp: ascii_bytes_def list_all_iff unat_of_nat)
  have "stdin_read (json_request cl body) (int (length body)) =
      Some (Inr (take (length body) (map unat (concat (stdin_chunks (json_request cl body))))))"
    using a assms(3) by (intro stdin_read_ascii) (simp_all add: json_request_def)
  moreover have "map unat (map of_nat body :: byte list) = body"
    using assms(1) by (induction body) (simp_all add: unat_of_nat)
  ultimately show "stdin_read (json_request cl body) (int (length body)) = Some (Inr body)"
    by (simp add: json_request_def)
  show "contains (py ''application/json'') (environ_get (json_request cl body) (py ''CONTENT_TYPE'') [])"
    by (simp add: json_request_def environ_get_def)
qed

lemma test_json_lines:
  assumes "environ_get r (py ''REQUEST_METHOD'') [] = py ''POST''"
    and "environ_int db r (py ''CONTENT_LENGTH'') = Inr n" "stdin_read r n = Some (Inr body)"
    and "contains (py ''application/json'') (environ_get r (py ''CONTENT_TYPE'') [])"
  shows "test_json_py db d fr r =
    \<lparr>lines = cgi_header @ test_banner @ [py ''Method: POST'']
              @ test_query_lines db (environ_get r (py ''QUERY_STRING'') [])
              @ [py ''Content-Type: '' @ environ_get r (py ''CONTENT_TYPE'') [],
                 (case json_loads db d body of
                    Inr v \<Rightarrow> py ''JSON body: '' @ json_str db fr v
                  | Inl e \<Rightarrow> py ''JSON error: '' @ exc_message e)],
     status = Exited\<rparr>"
  using assms
  by (simp add: test_json_py_def test_py_def test_body_line_def json_loads_str_def print_line_def
      split: sum.split)

lemma json_loads_eval: "json_decode db d s = Some r \<Longrightarrow> json_loads db d s = r"
  using json_decode_loads [of db d s] by simp

text \<open>C11: the spec's scenario 2: a POST of the JSON body {"x":1} with Content-Type
  application/json prints, after the header, banner, method, query string and content type,
  the line JSON body: {'x': 1}, for any recursion budget above zero, and ends normally.\<close>

theorem test_json_scenario_object:
  "test_json_py db (Suc d) fr (json_request (py ''7'') json_object_body) =
     \<lparr>lines = [py ''Content-Type: text/plain'', [], py ''=== CGI TEST.PY ==='', py ''Method: POST'',
               py ''Query string: '', py ''Content-Type: application/json'',
               py ''JSON body: {'' @ 39 # py ''x'' @ 39 # py '': 1}''],
      status = Exited\<rparr>"
proof -
  have a: "list_all (\<lambda>c. c < 0x80) json_object_body" by (simp add: json_object_body_def)
  have n: "py_int_str db (py ''7'') = Inr (int (length json_object_body))"
    by (simp add: int_eval json_object_body_def)
  have b: "int (length json_object_body) \<le> ssize_max" by (simp add: json_object_body_def ssize_max_def)
  note rd = test_json_request_read [OF a n b]
  have l: "json_loads db (Suc d) json_object_body = Inr (JObject [(py ''x'', JInt 1)])"
    by (rule json_loads_eval) (simp add: json_object_body_def json_eval cong: jbind_weak_cong)
  show ?thesis
    unfolding test_json_lines [OF rd] l
    by (simp add: json_request_def environ_get_def cgi_header_def test_banner_def test_query_lines_def
        print_line_def json_str_def repr_eval int_str_def decimal_str_def decimal_digits.simps)
qed

text \<open>C12: the spec's scenario 3: a POST of the body not json with Content-Type
  application/json ends normally, its last line the diagnostic JSON error: Expecting value:
  line 1 column 1 (char 0); the exception does not escape.\<close>

theorem test_json_scenario_not_json:
  "status (test_json_py db d fr (json_request (py ''8'') (py ''not json''))) = Exited
   \<and> last (lines (test_json_py db d fr (json_request (py ''8'') (py ''not json'')))) =
       py ''JSON error: Expecting value: line 1 column 1 (char 0)''"
proof -
  have a: "list_all (\<lambda>c. c < 0x80) (py ''not json'')" by simp
  have n: "py_int_str db (py ''8'') = Inr (int (length (py ''not json'')))" by (simp add: int_eval)
  have b: "int (length (py ''not json'')) \<le> ssize_max" by (simp add: ssize_max_def)
  note rd = test_json_request_read [OF a n b]
  have l: "json_loads db d (py ''not json'') =
      Inl (JSONDecodeError (py ''Expecting value: line 1 column 1 (char 0)''))"
    by (rule json_loads_eval) (simp add: json_eval cong: jbind_weak_cong)
  show ?thesis unfolding test_json_lines [OF rd] l by simp
qed



end
