(* ===== verification/Sleep_Jiggler.thy ===== *)
theory Sleep_Jiggler
  imports Py_Prelude
begin

text \<open>
  \<open>src/resources/uploads/sleep.py\<close>: an idle-prevention loop on the X11 root window.
  It records \<open>start_time = time.time()\<close> and then, until \<open>time.time() - start_time\<close>
  reaches \<open>run_duration = 6 * 60 * 60\<close> seconds, reads the pointer position
  (\<open>get_pointer\<close>), warps the pointer one pixel to the right, syncs, sleeps 0.1 s,
  warps it back, syncs and sleeps 30 s.

  The state (\<open>jiggler\<close>) is the wall clock in milliseconds, \<open>start_time\<close>, the pointer
  position the X server holds, the locals \<open>x, y\<close>, the statement about to run
  (\<open>jpc\<close>) and the number of completed iterations (a counter of the analysis, not of
  the script). \<open>jig_step\<close> has one rule per statement of the loop, and rules for what
  the rest of the world does meanwhile: the user moves the pointer anywhere on the
  screen, time passes (a statement takes time, a sleep lasts at least its argument).
  \<open>wall_step\<close> adds the adjustments of the wall clock that \<open>time.time()\<close> follows.
  The X server clamps a warp target to the screen (\<open>ProcWarpPointer\<close>), which
  \<open>clamp_to\<close> models. \<open>jiggle_loop\<close> is the loop under the ideal schedule (sleeps of
  exactly 0.1 s and 30 s, no other delay, no user), returning the warp targets and the
  final clock.
\<close>

datatype jpc = Check | Warp_Right | Sync_Right | Nap | Warp_Back | Sync_Back | Wait | Done

record screen =
  scr_width :: int
  scr_height :: int

record jiggler =
  clock :: int
  start_time :: int
  pointer :: "int \<times> int"
  saved :: "int \<times> int"
  pc :: jpc
  iterations :: nat

definition run_duration_ms :: int where
  "run_duration_ms = 6 * 60 * 60 * 1000"

definition nap_ms :: int where "nap_ms = 100"
definition wait_ms :: int where "wait_ms = 30000"

definition on_screen :: "screen \<Rightarrow> int \<times> int \<Rightarrow> bool" where
  "on_screen scr p \<longleftrightarrow> 0 \<le> fst p \<and> fst p < scr_width scr \<and> 0 \<le> snd p \<and> snd p < scr_height scr"

definition clamp_to :: "screen \<Rightarrow> int \<times> int \<Rightarrow> int \<times> int" where
  "clamp_to scr p =
     (max 0 (min (scr_width scr - 1) (fst p)), max 0 (min (scr_height scr - 1) (snd p)))"

definition jiggler_init :: "int \<Rightarrow> int \<times> int \<Rightarrow> jiggler" where
  "jiggler_init t0 p =
     \<lparr>clock = t0, start_time = t0, pointer = p, saved = p, pc = Check, iterations = 0\<rparr>"

inductive jig_step :: "screen \<Rightarrow> jiggler \<Rightarrow> jiggler \<Rightarrow> bool" for scr where
  check_done: "pc s = Check \<Longrightarrow> run_duration_ms \<le> clock s - start_time s \<Longrightarrow>
    jig_step scr s (s\<lparr>pc := Done\<rparr>)"
| check_go: "pc s = Check \<Longrightarrow> clock s - start_time s < run_duration_ms \<Longrightarrow>
    jig_step scr s (s\<lparr>saved := pointer s, pc := Warp_Right\<rparr>)"
| warp_right: "pc s = Warp_Right \<Longrightarrow>
    jig_step scr s (s\<lparr>pointer := clamp_to scr (fst (saved s) + 1, snd (saved s)), pc := Sync_Right\<rparr>)"
| sync_right: "pc s = Sync_Right \<Longrightarrow> jig_step scr s (s\<lparr>pc := Nap\<rparr>)"
| nap: "pc s = Nap \<Longrightarrow> nap_ms \<le> d \<Longrightarrow> jig_step scr s (s\<lparr>clock := clock s + d, pc := Warp_Back\<rparr>)"
| warp_back: "pc s = Warp_Back \<Longrightarrow>
    jig_step scr s (s\<lparr>pointer := clamp_to scr (saved s), pc := Sync_Back\<rparr>)"
| sync_back: "pc s = Sync_Back \<Longrightarrow> jig_step scr s (s\<lparr>pc := Wait\<rparr>)"
| wait: "pc s = Wait \<Longrightarrow> wait_ms \<le> d \<Longrightarrow>
    jig_step scr s (s\<lparr>clock := clock s + d, pc := Check, iterations := Suc (iterations s)\<rparr>)"
| user_moves: "pc s \<noteq> Done \<Longrightarrow> on_screen scr p \<Longrightarrow> jig_step scr s (s\<lparr>pointer := p\<rparr>)"
| time_passes: "pc s \<noteq> Done \<Longrightarrow> 0 \<le> d \<Longrightarrow> jig_step scr s (s\<lparr>clock := clock s + d\<rparr>)"

inductive wall_step :: "screen \<Rightarrow> jiggler \<Rightarrow> jiggler \<Rightarrow> bool" for scr where
  program: "jig_step scr s s' \<Longrightarrow> wall_step scr s s'"
| clock_adjusted: "pc s \<noteq> Done \<Longrightarrow> wall_step scr s (s\<lparr>clock := t\<rparr>)"

function jiggle_loop :: "screen \<Rightarrow> int \<Rightarrow> int \<Rightarrow> int \<times> int \<Rightarrow> (int \<times> int) list \<times> int" where
  "jiggle_loop scr st clk p =
     (if run_duration_ms \<le> clk - st then ([], clk)
      else (let (ws, c) = jiggle_loop scr st (clk + nap_ms + wait_ms) (clamp_to scr p)
            in (clamp_to scr (fst p + 1, snd p) # clamp_to scr p # ws, c)))"
  by pat_completeness auto
termination
  by (relation "measure (\<lambda>(scr, st, clk, p). nat (run_duration_ms - (clk - st)))")
     (auto simp: nap_ms_def wait_ms_def)

definition valid_screen :: "screen \<Rightarrow> bool" where
  "valid_screen scr \<longleftrightarrow> 0 < scr_width scr \<and> 0 < scr_height scr"

definition elapsed :: "jiggler \<Rightarrow> int" where
  "elapsed s = clock s - start_time s"

definition iteration_ms :: int where
  "iteration_ms = nap_ms + wait_ms"

text \<open>What the clock must have reached at each statement, after \<open>i\<close> iterations.\<close>

fun phase_ok :: "jpc \<Rightarrow> int \<Rightarrow> int \<Rightarrow> bool" where
  "phase_ok Check i e = (iteration_ms * i \<le> e)"
| "phase_ok Done i e = (iteration_ms * i \<le> e \<and> run_duration_ms \<le> e)"
| "phase_ok Warp_Right i e = (iteration_ms * i \<le> e \<and> iteration_ms * i < run_duration_ms)"
| "phase_ok Sync_Right i e = (iteration_ms * i \<le> e \<and> iteration_ms * i < run_duration_ms)"
| "phase_ok Nap i e = (iteration_ms * i \<le> e \<and> iteration_ms * i < run_duration_ms)"
| "phase_ok Warp_Back i e = (iteration_ms * i + nap_ms \<le> e \<and> iteration_ms * i < run_duration_ms)"
| "phase_ok Sync_Back i e = (iteration_ms * i + nap_ms \<le> e \<and> iteration_ms * i < run_duration_ms)"
| "phase_ok Wait i e = (iteration_ms * i + nap_ms \<le> e \<and> iteration_ms * i < run_duration_ms)"

definition jig_inv :: "screen \<Rightarrow> jiggler \<Rightarrow> bool" where
  "jig_inv scr s \<longleftrightarrow> on_screen scr (pointer s) \<and> on_screen scr (saved s)
     \<and> iteration_ms * int (iterations s) < run_duration_ms + iteration_ms
     \<and> phase_ok (pc s) (int (iterations s)) (elapsed s)"

definition ideal_state :: "int \<Rightarrow> int \<times> int \<Rightarrow> nat \<Rightarrow> jiggler" where
  "ideal_state t0 p k = (jiggler_init t0 p)\<lparr>clock := t0 + iteration_ms * int k, iterations := k\<rparr>"

definition full_hd :: screen where
  "full_hd = \<lparr>scr_width = 1920, scr_height = 1080\<rparr>"

subsection \<open>Invariant of the loop and the runs it allows\<close>

lemma clamp_on_screen: "valid_screen scr \<Longrightarrow> on_screen scr (clamp_to scr p)"
  by (auto simp: valid_screen_def on_screen_def clamp_to_def)

lemma clamp_id: "on_screen scr p \<Longrightarrow> clamp_to scr p = p"
  by (cases p) (auto simp: on_screen_def clamp_to_def)

lemma phase_ok_later: "phase_ok c i e \<Longrightarrow> e \<le> e' \<Longrightarrow> phase_ok c i e'"
  by (cases c) auto

lemma jig_inv_init: "on_screen scr p \<Longrightarrow> jig_inv scr (jiggler_init t0 p)"
  by (simp add: jig_inv_def jiggler_init_def elapsed_def iteration_ms_def nap_ms_def wait_ms_def
      run_duration_ms_def)

lemma jig_step_inv:
  assumes "jig_step scr s s'" "jig_inv scr s" "valid_screen scr"
  shows "jig_inv scr s'"
  using assms
proof (induction rule: jig_step.induct)
  case (check_go s)
  then show ?case by (auto simp: jig_inv_def elapsed_def)
next
  case (warp_right s)
  then show ?case by (simp add: jig_inv_def elapsed_def clamp_on_screen)
next
  case (nap s d)
  then show ?case by (auto simp: jig_inv_def elapsed_def)
next
  case (warp_back s)
  then show ?case by (simp add: jig_inv_def elapsed_def clamp_on_screen)
next
  case (wait s d)
  then show ?case
    by (auto simp: jig_inv_def elapsed_def iteration_ms_def algebra_simps)
next
  case (time_passes s d)
  then show ?case by (auto simp: jig_inv_def elapsed_def intro: phase_ok_later)
qed (auto simp: jig_inv_def elapsed_def)

lemma jig_reach_inv:
  assumes "(jig_step scr)\<^sup>*\<^sup>* (jiggler_init t0 p) s" "on_screen scr p" "valid_screen scr"
  shows "jig_inv scr s"
  using assms(1)
proof (induction rule: rtranclp_induct)
  case base
  then show ?case using assms(2) by (rule jig_inv_init)
next
  case (step s s')
  then show ?case using jig_step_inv assms(3) by blast
qed

lemma jig_one_iteration:
  assumes "pc s = Check" "clock s - start_time s < run_duration_ms" "on_screen scr (pointer s)"
  shows "(jig_step scr)\<^sup>*\<^sup>* s
    (s\<lparr>clock := clock s + iteration_ms, saved := pointer s, pc := Check, iterations := Suc (iterations s)\<rparr>)"
proof -
  define s1 where "s1 = s\<lparr>saved := pointer s, pc := Warp_Right\<rparr>"
  define s2 where "s2 = s1\<lparr>pointer := clamp_to scr (fst (saved s1) + 1, snd (saved s1)), pc := Sync_Right\<rparr>"
  define s3 where "s3 = s2\<lparr>pc := Nap\<rparr>"
  define s4 where "s4 = s3\<lparr>clock := clock s3 + nap_ms, pc := Warp_Back\<rparr>"
  define s5 where "s5 = s4\<lparr>pointer := clamp_to scr (saved s4), pc := Sync_Back\<rparr>"
  define s6 where "s6 = s5\<lparr>pc := Wait\<rparr>"
  define s7 where "s7 = s6\<lparr>clock := clock s6 + wait_ms, pc := Check, iterations := Suc (iterations s6)\<rparr>"
  have "jig_step scr s s1" unfolding s1_def by (rule check_go) (use assms in simp_all)
  moreover have "jig_step scr s1 s2" unfolding s2_def by (rule warp_right) (simp add: s1_def)
  moreover have "jig_step scr s2 s3" unfolding s3_def by (rule sync_right) (simp add: s2_def)
  moreover have "jig_step scr s3 s4" unfolding s4_def by (rule nap) (simp_all add: s3_def)
  moreover have "jig_step scr s4 s5" unfolding s5_def by (rule warp_back) (simp add: s4_def)
  moreover have "jig_step scr s5 s6" unfolding s6_def by (rule sync_back) (simp add: s5_def)
  moreover have "jig_step scr s6 s7" unfolding s7_def by (rule wait) (simp_all add: s6_def)
  ultimately have "(jig_step scr)\<^sup>*\<^sup>* s s7"
    by (meson converse_rtranclp_into_rtranclp rtranclp.rtrancl_refl)
  moreover have "s7 = s\<lparr>clock := clock s + iteration_ms, saved := pointer s, pc := Check,
      iterations := Suc (iterations s)\<rparr>"
    using clamp_id [OF assms(3)]
    by (simp add: s1_def s2_def s3_def s4_def s5_def s6_def s7_def iteration_ms_def)
  ultimately show ?thesis by simp
qed

lemma ideal_states_reached:
  assumes "on_screen scr p" "k \<le> 718"
  shows "(jig_step scr)\<^sup>*\<^sup>* (jiggler_init t0 p) (ideal_state t0 p k)"
  using assms(2)
proof (induction k)
  case 0
  then show ?case by (simp add: ideal_state_def jiggler_init_def)
next
  case (Suc k)
  have IH: "(jig_step scr)\<^sup>*\<^sup>* (jiggler_init t0 p) (ideal_state t0 p k)"
    using Suc by simp
  have "clock (ideal_state t0 p k) - start_time (ideal_state t0 p k) < run_duration_ms"
    using Suc.prems by (simp add: ideal_state_def jiggler_init_def iteration_ms_def nap_ms_def
        wait_ms_def run_duration_ms_def)
  moreover have "pc (ideal_state t0 p k) = Check" "on_screen scr (pointer (ideal_state t0 p k))"
    using assms(1) by (simp_all add: ideal_state_def jiggler_init_def)
  ultimately have "(jig_step scr)\<^sup>*\<^sup>* (ideal_state t0 p k) (ideal_state t0 p (Suc k))"
    using jig_one_iteration [of "ideal_state t0 p k" scr]
    by (simp add: ideal_state_def jiggler_init_def algebra_simps)
  with IH show ?case by simp
qed

lemma ideal_state_done: "jig_step scr (ideal_state t0 p 718) ((ideal_state t0 p 718)\<lparr>pc := Done\<rparr>)"
  by (rule check_done) (simp_all add: ideal_state_def jiggler_init_def iteration_ms_def nap_ms_def
      wait_ms_def run_duration_ms_def)

lemma full_hd_point: "on_screen full_hd (10, 10)" "valid_screen full_hd"
  by (simp_all add: full_hd_def on_screen_def valid_screen_def)

lemma full_hd_ideal: "k \<le> 718 \<Longrightarrow> (jig_step full_hd)\<^sup>*\<^sup>* (jiggler_init 0 (10, 10)) (ideal_state 0 (10, 10) k)"
  by (rule ideal_states_reached) (simp_all add: full_hd_point)

lemma full_hd_done:
  "(jig_step full_hd)\<^sup>*\<^sup>* (jiggler_init 0 (10, 10)) ((ideal_state 0 (10, 10) 718)\<lparr>pc := Done\<rparr>)"
  using full_hd_ideal [of 718] ideal_state_done [of full_hd 0 "(10, 10)"] by simp

text \<open>C31: whatever the user does with the pointer and however long each statement
  and sleep takes, as long as the wall clock only moves forward the loop completes at
  most 718 iterations: each one takes at least 30.1 s and a new one starts only before
  six hours have elapsed.\<close>

theorem jiggler_iterations_bound:
  assumes "(jig_step scr)\<^sup>*\<^sup>* (jiggler_init t0 p) s" "on_screen scr p" "valid_screen scr"
  shows "iterations s \<le> 718"
proof -
  from jig_reach_inv [OF assms] have "iteration_ms * int (iterations s) < run_duration_ms + iteration_ms"
    by (simp add: jig_inv_def)
  then show ?thesis by (simp add: iteration_ms_def nap_ms_def wait_ms_def run_duration_ms_def)
qed


theorem jiggler_iterations_bound_witness:
  "(jig_step full_hd)\<^sup>*\<^sup>* (jiggler_init 0 (10, 10)) (ideal_state 0 (10, 10) 718)
   \<and> iterations (ideal_state 0 (10, 10) 718) \<le> 718"
  using jiggler_iterations_bound [OF full_hd_ideal [of 718] full_hd_point] by (simp add: full_hd_ideal)

text \<open>C32: the script stops only once time.time() - start_time has reached 21600
  s, six hours: run_duration = 6 * 60 * 60, not the 2 h 30 (9000 s) its comments state.\<close>

theorem jiggler_done_after_six_hours:
  assumes "(jig_step scr)\<^sup>*\<^sup>* (jiggler_init t0 p) s" "on_screen scr p" "valid_screen scr"
    and "pc s = Done"
  shows "21600000 \<le> clock s - start_time s"
  using jig_reach_inv [OF assms(1-3)] assms(4)
  by (simp add: jig_inv_def elapsed_def run_duration_ms_def)


theorem jiggler_done_after_six_hours_witness:
  "(jig_step full_hd)\<^sup>*\<^sup>* (jiggler_init 0 (10, 10)) ((ideal_state 0 (10, 10) 718)\<lparr>pc := Done\<rparr>)
   \<and> 21600000 \<le> clock ((ideal_state 0 (10, 10) 718)\<lparr>pc := Done\<rparr>)
        - start_time ((ideal_state 0 (10, 10) 718)\<lparr>pc := Done\<rparr>)"
  using jiggler_done_after_six_hours [OF full_hd_done full_hd_point] by (simp add: full_hd_done)




text \<open>C34: the loop can terminate: under the ideal schedule (sleeps of exactly 0.1
  s and 30 s, no other delay) a run from the start reaches the end after 718
  iterations, 21611.8 s later, with the pointer where it was.\<close>

theorem jiggler_ideal_run:
  assumes "on_screen scr p"
  shows "(jig_step scr)\<^sup>*\<^sup>* (jiggler_init t0 p)
           ((jiggler_init t0 p)\<lparr>clock := t0 + 21611800, iterations := 718, pc := Done\<rparr>)"
proof -
  have r: "(jig_step scr)\<^sup>*\<^sup>* (jiggler_init t0 p) (ideal_state t0 p 718)"
    using assms by (rule ideal_states_reached) simp
  note ideal_state_done [of scr t0 p]
  with r have "(jig_step scr)\<^sup>*\<^sup>* (jiggler_init t0 p) ((ideal_state t0 p 718)\<lparr>pc := Done\<rparr>)"
    by simp
  then show ?thesis
    by (simp add: ideal_state_def iteration_ms_def nap_ms_def wait_ms_def)
qed


theorem jiggler_ideal_run_witness:
  "on_screen full_hd (10, 10) \<and> (jig_step full_hd)\<^sup>*\<^sup>* (jiggler_init 0 (10, 10))
     ((jiggler_init 0 (10, 10))\<lparr>clock := 21611800, iterations := 718, pc := Done\<rparr>)"
  using jiggler_ideal_run [OF full_hd_point(1), of 0] by (simp add: full_hd_point)

lemma jig_wall: "(jig_step scr)\<^sup>*\<^sup>* s s' \<Longrightarrow> (wall_step scr)\<^sup>*\<^sup>* s s'"
  by (induction rule: rtranclp_induct) (auto intro: rtranclp.rtrancl_into_rtrancl wall_step.program)

text \<open>C35: time.time() is a wall clock: when it may be set back, a run can
  complete any number of iterations, so no bound on the running time exists.\<close>

theorem jiggler_wall_clock_unbounded:
  assumes "on_screen scr p"
  shows "(wall_step scr)\<^sup>*\<^sup>* (jiggler_init t0 p) ((jiggler_init t0 p)\<lparr>iterations := N\<rparr>)"
proof (induction N)
  case 0
  then show ?case by (simp add: jiggler_init_def)
next
  case (Suc N)
  let ?s = "(jiggler_init t0 p)\<lparr>iterations := N\<rparr>"
  have "(jig_step scr)\<^sup>*\<^sup>* ?s
    (?s\<lparr>clock := clock ?s + iteration_ms, saved := pointer ?s, pc := Check, iterations := Suc (iterations ?s)\<rparr>)"
    by (rule jig_one_iteration) (simp_all add: jiggler_init_def assms run_duration_ms_def)
  then have a: "(wall_step scr)\<^sup>*\<^sup>* ?s ((jiggler_init t0 p)\<lparr>clock := t0 + iteration_ms, iterations := Suc N\<rparr>)"
    by (auto dest: jig_wall simp: jiggler_init_def)
  have b: "wall_step scr ((jiggler_init t0 p)\<lparr>clock := t0 + iteration_ms, iterations := Suc N\<rparr>)
     ((jiggler_init t0 p)\<lparr>iterations := Suc N\<rparr>)"
    using wall_step.clock_adjusted [of "(jiggler_init t0 p)\<lparr>clock := t0 + iteration_ms, iterations := Suc N\<rparr>" scr t0]
    by (simp add: jiggler_init_def)
  from Suc a b show ?case by (meson rtranclp.rtrancl_into_rtrancl rtranclp_trans)
qed


theorem jiggler_wall_clock_unbounded_witness:
  "on_screen full_hd (10, 10) \<and> (wall_step full_hd)\<^sup>*\<^sup>* (jiggler_init 0 (10, 10))
     ((jiggler_init 0 (10, 10))\<lparr>iterations := 1000\<rparr>)"
  using jiggler_wall_clock_unbounded [OF full_hd_point(1), of 0 1000] by (simp add: full_hd_point)

declare jiggle_loop.simps [simp del]

lemma jiggle_loop_from:
  assumes "on_screen scr p" "k \<le> 718"
  shows "jiggle_loop scr st (st + iteration_ms * int k) p =
    (concat (replicate (718 - k) [clamp_to scr (fst p + 1, snd p), p]), st + iteration_ms * 718)"
  using assms(2)
proof (induction "718 - k" arbitrary: k)
  case 0
  then have "k = 718" by simp
  then show ?case
    by (simp add: jiggle_loop.simps iteration_ms_def nap_ms_def wait_ms_def run_duration_ms_def)
next
  case (Suc m)
  then have k: "k < 718" and m: "m = 718 - Suc k" by simp_all
  have IH: "jiggle_loop scr st (st + iteration_ms * int (Suc k)) p =
    (concat (replicate m [clamp_to scr (fst p + 1, snd p), p]), st + iteration_ms * 718)"
    using Suc.hyps(1) [of "Suc k"] m k by simp
  have lt: "\<not> run_duration_ms \<le> st + iteration_ms * int k - st"
    using k by (simp add: iteration_ms_def nap_ms_def wait_ms_def run_duration_ms_def)
  have nx: "st + iteration_ms * int k + nap_ms + wait_ms = st + iteration_ms * int (Suc k)"
    by (simp add: iteration_ms_def algebra_simps)
  have "718 - k = Suc m" using Suc.hyps(2) by simp
  then show ?case
    using lt IH clamp_id [OF assms(1)]
    by (simp add: jiggle_loop.simps [of scr st "st + iteration_ms * int k" p] nx)
qed

text \<open>C36: under the ideal schedule the loop warps the pointer 718 times to (x +
  1, y) clamped to the screen and back to (x, y), in that order, and ends at start +
  21611800 ms.\<close>

theorem jiggle_loop_ideal:
  assumes "on_screen scr p"
  shows "jiggle_loop scr t t p = (concat (replicate 718 [clamp_to scr (fst p + 1, snd p), p]), t + 21611800)"
  using jiggle_loop_from [OF assms, of 0 t] by (simp add: iteration_ms_def nap_ms_def wait_ms_def)


theorem jiggle_loop_ideal_witness:
  "on_screen full_hd (10, 10) \<and>
   jiggle_loop full_hd 0 0 (10, 10) = (concat (replicate 718 [(11, 10), (10, 10)]), 21611800)"
proof -
  have "clamp_to full_hd (10 + 1, 10) = (11, 10)" by (simp add: full_hd_def clamp_to_def)
  with jiggle_loop_ideal [OF full_hd_point(1), of 0] full_hd_point(1) show ?thesis by simp
qed




end
