(* ===== verification/Url_Encode.thy ===== *)
theory Url_Encode
  imports Url_Parse
begin

text \<open>
  The encoder of the spec's round-trip property: \<open>urllib.parse.urlencode(d, doseq=True)\<close>
  with \<open>quote_plus\<close>, following CPython's \<open>Lib/urllib/parse.py\<close>. No script calls it;
  it is the client side of the form-encoded requests that \<open>parse_qs\<close> reads.
  \<open>quote\<close> encodes a non-empty string to UTF-8 (strict) and \<open>quote_from_bytes\<close>
  keeps the always-safe bytes (letters, digits, \<open>_.-~\<close>) and those in \<open>safe\<close>, writing
  any other byte as \<open>%XX\<close> in upper case (its shortcut for an input without unsafe bytes
  gives the same string). \<open>quote_plus\<close> quotes with the space safe and then writes
  spaces as \<open>+\<close>. \<open>urlencode\<close> quotes each name and each of its values, joins them
  as \<open>name=value\<close> and the fields with \<open>&\<close>; a string that UTF-8 cannot encode raises.
  The lemmas: \<open>unquote_plus\<close> undoes \<open>quote_plus\<close>, and \<open>parse_qs\<close> of
  \<open>urlencode d\<close> is \<open>d\<close> for a dict whose values are non-empty.
\<close>

definition always_safe :: "nat \<Rightarrow> bool" where
  "always_safe b \<longleftrightarrow> (65 \<le> b \<and> b \<le> 90) \<or> (97 \<le> b \<and> b \<le> 122) \<or> (48 \<le> b \<and> b \<le> 57)
     \<or> b = 95 \<or> b = 46 \<or> b = 45 \<or> b = 126"

definition hex_upper :: "nat \<Rightarrow> codepoint" where
  "hex_upper d = (if d < 10 then 48 + d else 55 + d)"

definition quote_from_bytes :: "byte list \<Rightarrow> pystr \<Rightarrow> pystr" where
  "quote_from_bytes bs safe =
     concat (map (\<lambda>b. if always_safe (unat b) \<or> unat b \<in> set safe then [unat b]
                      else [cp_percent, hex_upper (unat b div 16), hex_upper (unat b mod 16)]) bs)"

definition quote :: "pystr \<Rightarrow> pystr \<Rightarrow> py_exc + pystr" where
  "quote s safe =
     (if s = [] then Inr []
      else (case utf8_encode s of Inl e \<Rightarrow> Inl e | Inr bs \<Rightarrow> Inr (quote_from_bytes bs safe)))"

definition quote_plus :: "pystr \<Rightarrow> py_exc + pystr" where
  "quote_plus s =
     (if cp_space \<notin> set s then quote s []
      else (case quote s [cp_space] of Inl e \<Rightarrow> Inl e | Inr q \<Rightarrow> Inr (replace_char cp_space cp_plus q)))"

fun all_inr :: "('e + 'a) list \<Rightarrow> 'e + 'a list" where
  "all_inr [] = Inr []"
| "all_inr (x # xs) =
     (case x of Inl e \<Rightarrow> Inl e | Inr a \<Rightarrow> (case all_inr xs of Inl e \<Rightarrow> Inl e | Inr as \<Rightarrow> Inr (a # as)))"

fun urlencode_fields :: "(pystr \<times> pystr list) list \<Rightarrow> py_exc + pystr list" where
  "urlencode_fields [] = Inr []"
| "urlencode_fields ((k, vs) # d) =
     (case quote_plus k of
        Inl e \<Rightarrow> Inl e
      | Inr qk \<Rightarrow>
          (case all_inr (map quote_plus vs) of
             Inl e \<Rightarrow> Inl e
           | Inr qvs \<Rightarrow>
               (case urlencode_fields d of
                  Inl e \<Rightarrow> Inl e
                | Inr fs \<Rightarrow> Inr (map (\<lambda>qv. qk @ cp_equals # qv) qvs @ fs))))"

definition urlencode :: "(pystr \<times> pystr list) list \<Rightarrow> py_exc + pystr" where
  "urlencode d = (case urlencode_fields d of Inl e \<Rightarrow> Inl e | Inr fs \<Rightarrow> Inr (join [cp_amp] fs))"

definition qs_pairs :: "(pystr \<times> pystr list) list \<Rightarrow> (pystr \<times> pystr) list" where
  "qs_pairs d = concat (map (\<lambda>(k, vs). map (Pair k) vs) d)"

subsection \<open>Quoting one byte and unquoting it\<close>

lemma unat_byte_lt [simp]: "unat (b :: byte) < 256"
  using unsigned_less [of b] by simp

lemma unat_byte_div16 [simp]: "unat (b :: byte) div 16 < 16"
  using unat_byte_lt [of b] by (simp add: div_less_iff_less_mult)

lemma hexval_hex_upper: "d < 16 \<Longrightarrow> hexval (hex_upper d) = d"
  by (simp add: hexval_def hex_upper_def)

lemma is_hexdig_hex_upper: "d < 16 \<Longrightarrow> is_hexdig (hex_upper d)"
  by (simp add: is_hexdig_def hex_upper_def)

lemma hexbyte_hex_upper: "hexbyte (hex_upper (unat b div 16)) (hex_upper (unat b mod 16)) = b"
proof -
  have "unat b < 256" using unsigned_less [of b] by simp
  then have "unat b div 16 < 16" by simp
  then have "16 * hexval (hex_upper (unat b div 16)) + hexval (hex_upper (unat b mod 16)) = unat b"
    by (simp add: hexval_hex_upper)
  then show ?thesis by (simp add: hexbyte_def)
qed

lemma always_safe_not_special: "always_safe c \<Longrightarrow> c \<noteq> cp_percent \<and> c \<noteq> cp_amp \<and> c \<noteq> cp_equals \<and> c \<noteq> cp_plus \<and> c \<noteq> cp_space"
  by (auto simp: always_safe_def)

lemma unquote_scan_quote_from_bytes:
  assumes "set safe \<subseteq> {cp_space}"
  shows "unquote_scan (quote_from_bytes bs safe @ r) = bs @ unquote_scan r"
proof (induction bs)
  case (Cons b bs)
  show ?case
  proof (cases "always_safe (unat b) \<or> unat b \<in> set safe")
    case True
    then have "unat b \<noteq> cp_percent" using assms always_safe_not_special by auto
    with True Cons show ?thesis by (simp add: quote_from_bytes_def unquote_scan_Cons_plain)
  next
    case False
    have "unat b < 256" by simp
    then have "is_hexdig (hex_upper (unat b div 16))" "is_hexdig (hex_upper (unat b mod 16))"
      by (simp_all add: is_hexdig_hex_upper)
    with False Cons show ?thesis by (simp add: quote_from_bytes_def hexbyte_hex_upper)
  qed
qed (simp add: quote_from_bytes_def)

lemma quote_from_bytes_cases:
  "c \<in> set (quote_from_bytes bs safe) \<Longrightarrow>
     always_safe c \<or> c \<in> set safe \<or> c = cp_percent \<or> is_hexdig c"
  by (auto simp: quote_from_bytes_def is_hexdig_hex_upper split: if_splits)

lemma is_hexdig_chars: "is_hexdig c \<Longrightarrow> c < 0x80 \<and> c \<noteq> cp_amp \<and> c \<noteq> cp_equals \<and> c \<noteq> cp_plus \<and> c \<noteq> cp_space"
  by (auto simp: is_hexdig_def)

lemma always_safe_ascii: "always_safe c \<Longrightarrow> c < 0x80"
  by (auto simp: always_safe_def)

lemma quote_from_bytes_chars:
  assumes "c \<in> set (quote_from_bytes bs safe)" "set safe \<subseteq> {cp_space}"
  shows "c < 0x80 \<and> c \<noteq> cp_amp \<and> c \<noteq> cp_equals \<and> c \<noteq> cp_plus \<and> (c = cp_space \<longrightarrow> cp_space \<in> set safe)"
  using quote_from_bytes_cases [OF assms(1)]
proof (elim disjE)
  assume "always_safe c"
  then show ?thesis using always_safe_ascii always_safe_not_special by blast
next
  assume "c \<in> set safe"
  then show ?thesis using assms(2) by auto
next
  assume "is_hexdig c"
  then show ?thesis using is_hexdig_chars by blast
qed simp

subsection \<open>unquote_plus undoes quote_plus\<close>

lemma replace_char_inverse: "b \<notin> set x \<Longrightarrow> replace_char b a (replace_char a b x) = x"
  by (induction x) (auto simp: replace_char_def)

lemma unquote_impl_Nil: "unquote_impl [] = []"
  by (simp add: unquote_impl_def)

lemma unquote_runs_ascii:
  "list_all (\<lambda>c. c < 0x80) x \<Longrightarrow> unquote_runs x = utf8_decode_replace (unquote_impl x)"
proof (cases x)
  case Nil
  then show ?thesis by (simp add: unquote_impl_Nil utf8_decode_replace_def)
next
  case (Cons c s)
  assume "list_all (\<lambda>c. c < 0x80) x"
  with Cons have c: "c < 0x80" and a: "\<forall>c\<in>set s. c < 0x80" by (simp_all add: list_all_iff)
  from a have tw: "takeWhile (\<lambda>x. x < 0x80) s = s" and dw: "dropWhile (\<lambda>x. x < 0x80) s = []"
    by (simp_all add: takeWhile_eq_all_conv dropWhile_eq_Nil_conv)
  have "unquote_runs (c # s) = utf8_decode_replace (unquote_impl (c # s))"
    using c unfolding unquote_runs.simps(2) [of c s] takeWhile.simps dropWhile.simps tw dw by simp
  with Cons show ?thesis by simp
qed

lemma unquote_ascii:
  assumes "list_all (\<lambda>c. c < 0x80) x"
  shows "unquote x = utf8_decode_replace (unquote_scan x)"
proof (cases "cp_percent \<in> set x")
  case True
  then show ?thesis using assms by (simp add: unquote_def unquote_runs_ascii unquote_impl_eq_scan)
next
  case False
  have "utf8_decode_replace (unquote_scan x) = utf8_decode_replace (map of_nat x)"
    using unquote_scan_plain [OF False, of "[]"] by simp
  also have "\<dots> = x" using assms by (simp add: utf8_decode_replace_ascii)
  finally show ?thesis using False by (simp add: unquote_def)
qed

lemma unquote_quote_from_bytes:
  assumes "set safe \<subseteq> {cp_space}" "utf8_encode s = Inr bs"
  shows "unquote (quote_from_bytes bs safe) = s"
proof -
  have "list_all (\<lambda>c. c < 0x80) (quote_from_bytes bs safe)"
    using quote_from_bytes_chars [OF _ assms(1)] by (simp add: list_all_iff)
  then have "unquote (quote_from_bytes bs safe) = utf8_decode_replace (unquote_scan (quote_from_bytes bs safe))"
    by (rule unquote_ascii)
  also have "\<dots> = utf8_decode_replace bs"
    using unquote_scan_quote_from_bytes [OF assms(1), of bs "[]"] by simp
  also have "\<dots> = s" using assms(2) by (rule utf8_decode_replace_encode)
  finally show ?thesis .
qed

lemma quote_plus_scalar:
  assumes "list_all is_scalar s"
  obtains q where "quote_plus s = Inr q" "unquote_plus q = s" "cp_amp \<notin> set q" "cp_equals \<notin> set q"
    "s \<noteq> [] \<Longrightarrow> q \<noteq> []"
proof -
  let ?bs = "concat (map utf8_encode_cp s)"
  have e: "utf8_encode s = Inr ?bs" using assms by (simp add: utf8_encode_def)
  show ?thesis
  proof (cases "s = []")
    case True
    have "quote_plus [] = Inr []" by (simp add: quote_plus_def quote_def)
    moreover have "unquote_plus [] = []" by (simp add: unquote_plus_def unquote_def replace_char_def)
    ultimately show ?thesis using True by (intro that [of "[]"]) simp_all
  next
    case ne: False
    have bs: "?bs \<noteq> []" using ne
      by (cases s) (auto simp: utf8_encode_cp_def)
    show ?thesis
    proof (cases "cp_space \<in> set s")
      case False
      let ?x = "quote_from_bytes ?bs []"
      have q: "quote_plus s = Inr ?x" using False ne e by (simp add: quote_plus_def quote_def)
      have np: "cp_plus \<notin> set ?x" using quote_from_bytes_chars [of _ ?bs "[]"] by auto
      have "unquote_plus ?x = s"
        using unquote_quote_from_bytes [of "[]" s ?bs] e by (simp add: unquote_plus_def replace_char_id np)
      moreover have "cp_amp \<notin> set ?x" "cp_equals \<notin> set ?x" using quote_from_bytes_chars [of _ ?bs "[]"] by auto
      moreover have "?x \<noteq> []" using bs by (cases ?bs) (simp_all add: quote_from_bytes_def)
      ultimately show ?thesis using q by (intro that) simp_all
    next
      case True
      let ?x = "quote_from_bytes ?bs [cp_space]"
      have q: "quote_plus s = Inr (replace_char cp_space cp_plus ?x)"
        using True ne e by (simp add: quote_plus_def quote_def)
      have np: "cp_plus \<notin> set ?x" using quote_from_bytes_chars [of _ ?bs "[cp_space]"] by auto
      have "unquote_plus (replace_char cp_space cp_plus ?x) = s"
        using unquote_quote_from_bytes [of "[cp_space]" s ?bs] e
        by (simp add: unquote_plus_def replace_char_inverse np)
      moreover have "cp_amp \<notin> set (replace_char cp_space cp_plus ?x)" "cp_equals \<notin> set (replace_char cp_space cp_plus ?x)"
        using quote_from_bytes_chars [of _ ?bs "[cp_space]"] by (auto simp: replace_char_def)
      moreover have "replace_char cp_space cp_plus ?x \<noteq> []"
        using bs by (cases ?bs) (simp_all add: quote_from_bytes_def replace_char_def)
      ultimately show ?thesis using q by (intro that) simp_all
    qed
  qed
qed

lemma quote_plus_props:
  assumes "list_all is_scalar s" "quote_plus s = Inr q"
  shows "unquote_plus q = s \<and> cp_amp \<notin> set q \<and> cp_equals \<notin> set q \<and> (s \<noteq> [] \<longrightarrow> q \<noteq> [])"
  using assms by (elim quote_plus_scalar) auto

lemma all_inr_Inr: "all_inr xs = Inr ys \<Longrightarrow> list_all2 (\<lambda>x y. x = Inr y) xs ys"
proof (induction xs arbitrary: ys)
  case (Cons x xs)
  then show ?case by (cases x; cases "all_inr xs") auto
qed simp

lemma all_inr_quote_plus:
  assumes "\<forall>v\<in>set vs. list_all is_scalar v"
  shows "\<exists>qvs. all_inr (map quote_plus vs) = Inr qvs"
  using assms
proof (induction vs)
  case (Cons v vs)
  obtain q where "quote_plus v = Inr q" using Cons.prems by (auto elim: quote_plus_scalar)
  with Cons show ?case by auto
qed simp

subsection \<open>Fields of the encoded query string\<close>

lemma fields_of_key:
  assumes "list_all2 (\<lambda>v q. quote_plus v = Inr q) vs qvs" "\<forall>v\<in>set vs. v \<noteq> [] \<and> list_all is_scalar v"
    and "cp_equals \<notin> set qk" "unquote_plus qk = k" "cp_amp \<notin> set qk"
  shows "concat (map parse_qsl_field (map (\<lambda>qv. qk @ cp_equals # qv) qvs)) = map (Pair k) vs
    \<and> (\<forall>f\<in>set (map (\<lambda>qv. qk @ cp_equals # qv) qvs). cp_amp \<notin> set f)"
  using assms(1,2)
proof (induction rule: list_all2_induct)
  case (Cons v vs q qs)
  then have "unquote_plus q = v" "cp_amp \<notin> set q" "q \<noteq> []"
    using quote_plus_props [of v q] by simp_all
  with Cons assms(3-5) show ?case by (simp add: parse_qsl_field_pair)
qed simp

lemma urlencode_fields_ok:
  assumes "\<forall>(k, vs) \<in> set d. list_all is_scalar k \<and> (\<forall>v\<in>set vs. v \<noteq> [] \<and> list_all is_scalar v)"
  shows "\<exists>fs. urlencode_fields d = Inr fs \<and> (\<forall>f\<in>set fs. cp_amp \<notin> set f)
           \<and> concat (map parse_qsl_field fs) = qs_pairs d"
  using assms
proof (induction d)
  case Nil
  then show ?case by (simp add: qs_pairs_def)
next
  case (Cons kv d)
  obtain k vs where kv: "kv = (k, vs)" by (cases kv)
  have k: "list_all is_scalar k" and vs: "\<forall>v\<in>set vs. v \<noteq> [] \<and> list_all is_scalar v"
    using Cons.prems kv by auto
  obtain qk where qk: "quote_plus k = Inr qk" using k by (elim quote_plus_scalar)
  have qk': "unquote_plus qk = k" "cp_amp \<notin> set qk" "cp_equals \<notin> set qk"
    using quote_plus_props [OF k qk] by simp_all
  obtain qvs where qvs: "all_inr (map quote_plus vs) = Inr qvs"
    using all_inr_quote_plus vs by blast
  then have r: "list_all2 (\<lambda>v q. quote_plus v = Inr q) vs qvs"
    using all_inr_Inr [OF qvs] by (simp add: list_all2_map1)
  obtain fs where fs: "urlencode_fields d = Inr fs" "\<forall>f\<in>set fs. cp_amp \<notin> set f"
      "concat (map parse_qsl_field fs) = qs_pairs d"
    using Cons by auto
  note key = fields_of_key [OF r vs qk'(3,1,2)]
  show ?case
    using kv qk qvs fs key by (auto simp: qs_pairs_def)
qed

lemma parse_qsl_join_fields:
  assumes "\<forall>f\<in>set fs. cp_amp \<notin> set f"
  shows "parse_qsl (join [cp_amp] fs) = concat (map parse_qsl_field fs)"
proof (cases "fs = []")
  case True
  then show ?thesis by (simp add: parse_qsl_def)
next
  case False
  then show ?thesis using assms by (simp add: parse_qsl_split split_char_join)
qed

subsection \<open>parse_qs of the pairs of a dict\<close>

lemma qs_insert_new: "k \<notin> set (map fst acc) \<Longrightarrow> qs_insert acc (k, v) = acc @ [(k, [v])]"
  by (induction acc "(k, v)" rule: qs_insert.induct) auto

lemma qs_insert_last:
  "k \<notin> set (map fst acc) \<Longrightarrow> qs_insert (acc @ [(k, ws)]) (k, v) = acc @ [(k, ws @ [v])]"
  by (induction acc) auto

lemma foldl_qs_insert_same:
  "k \<notin> set (map fst acc) \<Longrightarrow>
   foldl qs_insert (acc @ [(k, ws)]) (map (Pair k) vs) = acc @ [(k, ws @ vs)]"
  by (induction vs arbitrary: ws) (simp_all add: qs_insert_last)

lemma foldl_qs_insert_pairs:
  assumes "distinct (map fst d)" "\<forall>(k, vs) \<in> set d. vs \<noteq> []" "set (map fst acc) \<inter> set (map fst d) = {}"
  shows "foldl qs_insert acc (qs_pairs d) = acc @ d"
  using assms
proof (induction d arbitrary: acc)
  case Nil
  then show ?case by (simp add: qs_pairs_def)
next
  case (Cons kv d)
  obtain k vs where kv: "kv = (k, vs)" by (cases kv)
  obtain v vs' where vs: "vs = v # vs'" using Cons.prems(2) kv by (cases vs) auto
  have k: "k \<notin> set (map fst acc)" using Cons.prems(3) kv by auto
  have "foldl qs_insert acc (map (Pair k) vs) = acc @ [(k, vs)]"
    using foldl_qs_insert_same [OF k, of "[v]" vs'] by (simp add: vs qs_insert_new [OF k])
  moreover have "foldl qs_insert (acc @ [(k, vs)]) (qs_pairs d) = (acc @ [(k, vs)]) @ d"
    using Cons.prems kv by (intro Cons.IH) auto
  ultimately show ?case by (simp add: kv qs_pairs_def)
qed

text \<open>C4: the spec's round trip: a dict from names to non-empty lists of non-empty values,
  with distinct names, encoded by urlencode(doseq=True) and parsed by parse_qs gives the
  dict back, names and values in order.\<close>

theorem urlencode_parse_qs_roundtrip:
  assumes "distinct (map fst d)"
    and "\<forall>(k, vs) \<in> set d. vs \<noteq> [] \<and> list_all is_scalar k \<and> (\<forall>v\<in>set vs. v \<noteq> [] \<and> list_all is_scalar v)"
  shows "\<exists>q. urlencode d = Inr q \<and> parse_qs q = d"
proof -
  obtain fs where fs: "urlencode_fields d = Inr fs" "\<forall>f\<in>set fs. cp_amp \<notin> set f"
      "concat (map parse_qsl_field fs) = qs_pairs d"
    using urlencode_fields_ok [of d] assms(2) by fastforce
  have "parse_qs (join [cp_amp] fs) = foldl qs_insert [] (qs_pairs d)"
    using fs(2,3) by (simp add: parse_qs_def parse_qsl_join_fields)
  also have "\<dots> = d"
    using foldl_qs_insert_pairs [OF assms(1), of "[]"] assms(2) by fastforce
  finally show ?thesis using fs(1) by (simp add: urlencode_def)
qed

theorem urlencode_parse_qs_roundtrip_witness:
  "distinct (map fst [(py ''a'', [py ''1'']), (py ''b'', [py ''2'', py ''3''])])
   \<and> (\<exists>q. urlencode [(py ''a'', [py ''1'']), (py ''b'', [py ''2'', py ''3''])] = Inr q
        \<and> parse_qs q = [(py ''a'', [py ''1'']), (py ''b'', [py ''2'', py ''3''])])"
proof -
  have d: "distinct (map fst [(py ''a'', [py ''1'']), (py ''b'', [py ''2'', py ''3''])])" by simp
  have s: "\<forall>(k, vs) \<in> set [(py ''a'', [py ''1'']), (py ''b'', [py ''2'', py ''3''])].
        vs \<noteq> [] \<and> list_all is_scalar k \<and> (\<forall>v\<in>set vs. v \<noteq> [] \<and> list_all is_scalar v)"
    by (simp add: is_scalar_def)
  from urlencode_parse_qs_roundtrip [OF d s] d show ?thesis by blast
qed

lemma urlencode_example:
  "urlencode [(py ''a'', [py ''1'']), (py ''b'', [py ''2'', py ''x y+''])] = Inr (py ''a=1&b=2&b=x+y%2B'')"
  by (simp add: urlencode_def quote_plus_def quote_def utf8_encode_def utf8_encode_cp_def is_scalar_def
      quote_from_bytes_def always_safe_def hex_upper_def replace_char_def unat_byte)
end
