(* ===== verification/Spec2Isabelle.thy ===== *)
theory Spec2Isabelle
  imports Echo_Cgi Script_Cgi Test_Json Sleep_Jiggler Url_Encode
begin

text \<open>
  \<^bold>\<open>A verification library for the CGI scripts of java-localserver.\<close>

  \<^medskip>\<^bold>\<open>The program.\<close> The repository's Python code is four standalone scripts.
  Three are CGI handlers that a web server starts once per request, passing the request
  in environment variables and the body on stdin, and whose stdout is the response:
  \<^item> \<open>src/resources/cgi-bin/echo.py\<close> prints the header \<open>Content-Type: text/plain\<close>,
    a blank line, a banner, and every variable named \<open>HTTP_*\<close>, \<open>REQUEST_*\<close> or
    \<open>CONTENT_*\<close> in sorted order;
  \<^item> \<open>src/resources/cgi-bin/script.py\<close> prints the method and, for a POST, reads
    \<open>CONTENT_LENGTH\<close> characters of the body and prints \<open>urllib.parse.parse_qs\<close> of it;
  \<^item> \<open>src/resources/cgi-bin/test.py\<close> (the spec's Request Reporter) prints the method,
    the query string and its \<open>parse_qs\<close>, and for a POST the content type and the body,
    parsed by \<open>json.loads\<close> when the content type says JSON.
  The fourth, \<open>src/resources/uploads/sleep.py\<close>, is an X11 pointer jiggler: a loop
  that for six hours moves the pointer one pixel right and back every thirty seconds.
  The scripts share no state; they share library code (\<open>urllib.parse\<close>, the UTF-8
  codec, \<open>int()\<close>, \<open>repr()\<close>, \<open>print\<close>, \<open>sys.stdin.read\<close>), which the library
  models once, following CPython, so that each script is a composition of the same
  definitions.

  \<^medskip>\<^bold>\<open>The theories and how they correspond to the code.\<close>
  \<^item> \<open>Py_Prelude\<close>: Python \<open>str\<close> as a list of code points (\<open>pystr\<close>), bytes as
    \<open>8 word\<close>, the exceptions the scripts can raise as the datatype \<open>py_exc\<close>, the
    Unicode database (\<open>str.isprintable\<close>, decimal digit values) as the record
    \<open>unicode_db\<close>, which every theorem quantifies over; shared list lemmas.
  \<^item> \<open>Py_Str\<close>: \<open>str.split(c)\<close> (\<open>split_char\<close>), \<open>split(c, 1)\<close>
    (\<open>split1_char\<close>), \<open>join\<close>, \<open>replace\<close>, \<open>startswith\<close> with a tuple, \<open>in\<close>
    (\<open>contains\<close>); split/join round trips.
  \<^item> \<open>Utf8\<close>: CPython's UTF-8 decoder as a list of pieces (a scalar value, a maximal
    ill-formed subpart, a truncated tail) with the strict, replace and surrogateescape
    handlers and its incremental mode; the strict encoder. Lemmas: well-formed
    sequences decode to their value, encode/decode round trip, only strict raises,
    replace is total with one character per piece.
  \<^item> \<open>Url_Parse\<close>: \<open>_unquote_impl\<close>, \<open>unquote\<close>, \<open>unquote_plus\<close>,
    \<open>parse_qsl\<close>, \<open>parse_qs\<close> of \<open>Lib/urllib/parse.py\<close> as script.py line 18 and
    test.py line 21 call them. Lemmas: the split-based \<open>_unquote_impl\<close> equals the
    reference scan \<open>unquote_scan\<close>; \<open>parse_qs\<close> refines the abstract grouping of the
    pairs by name; appending a field to the query string.
  \<^item> \<open>Url_Encode\<close>: \<open>quote_plus\<close> and \<open>urlencode(doseq=True)\<close>, the encoder
    of the spec's round-trip property (no script calls it): \<open>unquote_plus\<close> undoes
    \<open>quote_plus\<close>, and \<open>parse_qs\<close> of \<open>urlencode d\<close> gives \<open>d\<close> back.
  \<^item> \<open>Py_Repr\<close>: \<open>repr\<close> of str, list and dict (\<open>unicode_repr\<close>), \<open>str()\<close> of
    a list and a dict, \<open>print\<close> of several arguments.
  \<^item> \<open>Cgi_Env\<close>: the request (\<open>cgi_request\<close>: \<open>os.environ\<close>, the stdin pipe as
    the chunks successive reads get, whether it is closed after them, the decoder's
    error handler) and the result (\<open>cgi_output\<close>: the printed lines and whether the
    script ended, raised, or blocked on a read); \<open>os.environ.get\<close>, \<open>int()\<close> of a
    string (\<open>py_int_str\<close>, \<open>environ_int\<close>) and \<open>sys.stdin.read(n)\<close>
    (\<open>stdin_read\<close>, \<open>read_chars\<close>); \<open>decimal_str\<close>, the decimal notation of a
    number, is the reference the \<open>int()\<close> round trip is stated against.
  \<^item> \<open>Json\<close>: \<open>json.loads\<close> after CPython 3.12's C scanner (\<open>Modules/_json.c\<close>)
    and \<open>Lib/json/decoder.py\<close>: the scanner \<open>jscan\<close> is a \<open>partial_function (option)\<close>
    over the document and an index, its mode selecting \<open>scan_once\<close> or a state of the
    object and array loops, with the recursion budget of \<open>Py_EnterRecursiveCall\<close> as an
    argument; \<open>scanstring\<close>, \<open>match_number\<close>, the error messages with line and
    column; \<open>str()\<close> of the decoded value. Lemmas: the decoder always returns
    (termination of the partial function, by induction on the budget and the remaining
    length), it raises only \<open>JSONDecodeError\<close>, \<open>ValueError\<close> and
    \<open>RecursionError\<close>, the budget bounds the nesting exactly, and plain strings decode to
    themselves.
  \<^item> \<open>Test_Json\<close>: test.py composed with that \<open>json.loads\<close> (\<open>test_json_py\<close>): its
    report for every JSON POST, and the spec's scenarios 2 and 3.
  \<^item> \<open>Echo_Cgi\<close>, \<open>Script_Cgi\<close>, \<open>Test_Cgi\<close>: each script as one function
    \<open>echo_py\<close>, \<open>script_py\<close>, \<open>test_py\<close> from the request to the result, statement
    by statement; every exception and every read that never returns is a branch.
    \<open>test_py\<close> takes \<open>json.loads\<close> and \<open>str()\<close> as parameters, and its lemmas hold
    for any of them; \<open>Test_Json\<close> instantiates them with the model of \<open>Json\<close>.
  \<^item> \<open>Sleep_Jiggler\<close>: sleep.py as an inductive step relation \<open>jig_step\<close> on its
    state (wall clock, start time, pointer, saved position, statement), with the user
    and the passing of time as further steps, and \<open>wall_step\<close> adding adjustments of
    the wall clock; \<open>jiggle_loop\<close> is the loop under the ideal schedule.

  \<^medskip>\<^bold>\<open>What the lemmas show.\<close> For the CGI scripts: their complete output on every
  branch (header, banner, method, parsed data, raw or JSON body), that echo.py lists
  exactly the matching variables in strictly increasing order, that test.py reads only
  four variables, and the ways the code departs from the spec: an empty or non-numeric
  \<open>CONTENT_LENGTH\<close> raises instead of counting as 0, a negative one or a body of
  multi-byte characters makes the read wait forever on an open pipe, an invalid UTF-8
  body raises under the strict handler, and \<open>parse_qs\<close> drops fields with no value
  instead of keeping the key. For test.py with its \<open>json.loads\<close>: every
  JSON POST whose body was read ends normally with \<open>JSON body:\<close> or \<open>JSON error:\<close>,
  as in the spec's scenarios 2 and 3; but the parser accepts \<open>NaN\<close> and \<open>Infinity\<close>,
  which a strict JSON parser rejects. For the library models: the spec's round trip
  (\<open>parse_qs\<close> of \<open>urlencode d\<close> is \<open>d\<close>), \<open>int()\<close> of the decimal digits of a
  number is that number, UTF-8 encoding then decoding is the identity, and the
  split-based \<open>_unquote_impl\<close> equals a reference scan. For sleep.py: the invariant (pointer on the screen,
  elapsed time against iterations) holds in every reachable state; a run does at most
  718 iterations and stops only after six hours, not the 2 h 30 its comment states;
  under the ideal schedule it ends after 21611.8 s with the pointer back in place; with
  a wall clock that can be set back it can run forever; in the rightmost column the
  jiggle does nothing.

  \<^medskip>\<^bold>\<open>Bounds.\<close> Time in sleep.py is in integer milliseconds: the two sleeps are
  100 ms and 30000 ms, so an iteration takes at least 30100 ms, and the check against
  \<open>6 * 60 * 60\<close> s = 21600000 ms admits at most \<open>\<lceil>21600000 / 30100\<rceil> = 718\<close>
  iterations. \<open>jiggle_loop\<close> terminates by the measure
  \<open>run_duration - elapsed\<close>. Sizes passed to \<open>read\<close> are checked against
  \<open>Py_ssize_t\<close> (\<open>-2^63 .. 2^63-1\<close>); \<open>int()\<close> refuses more than 4300 digits.
  No fuel is needed: every definition is total and structurally or measure recursive,
  except the JSON scanner, a partial function proved to return on every input; a read
  that would wait forever is the value \<open>None\<close> of \<open>read_chars\<close>.

  \<^medskip>\<^bold>\<open>Not modelled.\<close> The conversion of a JSON number with a fraction or an
  exponent to a double and \<open>repr()\<close> of a float (CPython's shortest round-trip digits):
  such a number is kept as its literal and its \<open>repr\<close> is the parameter \<open>fr\<close> of
  \<open>json_str\<close>. The recursion budget \<open>d\<close> of \<open>json.loads\<close> is a parameter: it is what
  is left of the interpreter's C recursion limit when test.py calls it. The Unicode
  database is the interface \<open>unicode_db\<close>; the encoding of stdout (the printed lines are
  code point lists); the X11 protocol beyond the clamping of a warp to the screen and
  Xlib's connection (\<open>display.Display()\<close>, \<open>d.sync()\<close>); fractional seconds of
  \<open>time.time()\<close>; the web server that starts the scripts.
\<close>

end
